(* ===== verification/Go_Prelude.thy ===== *)
theory Go_Prelude
  imports "HOL-Library.Word" "HOL-Library.Sublist" "HOL-Library.Char_ord" "HOL-Library.List_Lexorder"
begin

text \<open>
  Shared vocabulary of the development.

  \<^item> Go strings and byte slices are \<^typ>\<open>string\<close>: an Isabelle \<^typ>\<open>char\<close> is one byte, so lengths
    and indices count bytes as Go does.
  \<^item> \<open>uint64\<close> and \<open>int64\<close> are 64-bit words; a signed value is read with \<open>sint\<close>, so Go's conversion
    \<open>int64(x)\<close> of a \<open>uint64\<close> is the identity on the word.
  \<^item> \<open>time.Time\<close> and \<open>time.Duration\<close> are integers (nanoseconds); the zero time is 0.
  \<^item> An \<open>error\<close> is a value of \<open>goerr\<close>: the sentinel errors the code compares with
    \<open>errors.Is\<close>, the dynamic types it asks for with \<open>errors.As\<close>, and \<open>fmt.Errorf\<close> values that keep
    their format and arguments. The rendered text of an error is not computed: no branch of the
    program depends on it. A nil error is \<open>None\<close>, a result with an error is a sum with \<open>Inl\<close>.
\<close>

section \<open>Types\<close>

type_synonym uint64 = "64 word"
type_synonym int64 = "64 word"
type_synonym gotime = int
type_synonym duration = int
type_synonym path = string

abbreviation millisecond :: duration where "millisecond \<equiv> 1000000"
abbreviation second :: duration where "second \<equiv> 1000000000"

abbreviation slash :: char where "slash \<equiv> CHR ''/''"

section \<open>Errors\<close>

datatype sentinel =
    RpcErrShutdown        \<comment> \<open>\<open>rpc.ErrShutdown\<close>\<close>
  | IoEOF | IoErrUnexpectedEOF
  | NetErrClosed
  | OsErrProcessDone
  | OsErrNotExist
  | OsErrPermission

datatype fmt_arg = FStr string | FWord uint64 | FInt int

datatype goerr =
    Errorf string "fmt_arg list"         \<comment> \<open>\<open>errors.New\<close> and \<open>fmt.Errorf\<close> without \<open>%w\<close>\<close>
  | Wrapf string "fmt_arg list" goerr    \<comment> \<open>\<open>fmt.Errorf\<close> with \<open>%w\<close>: \<open>errors.Is\<close> and \<open>As\<close> see the inner error\<close>
  | Sentinel sentinel
  | SysErr "sentinel option" string      \<comment> \<open>an operating-system error and the sentinel it unwraps to\<close>
  | NetError string                      \<comment> \<open>a \<open>net.Error\<close>, in particular every \<open>*net.OpError\<close>\<close>
  | ServerError string                   \<comment> \<open>\<open>rpc.ServerError\<close>: an error the remote method returned\<close>

abbreviation err :: "string \<Rightarrow> goerr" where "err t \<equiv> Errorf t []"

text \<open>\<open>errors.Is(err, target)\<close> against a sentinel.\<close>

fun err_is :: "goerr \<Rightarrow> sentinel \<Rightarrow> bool" where
  "err_is (Wrapf _ _ e) t = err_is e t"
| "err_is (Sentinel s) t = (s = t)"
| "err_is (SysErr s _) t = (s = Some t)"
| "err_is _ _ = False"

text \<open>\<open>errors.As(err, &netErr)\<close> for \<open>net.Error\<close> or \<open>*net.OpError\<close>.\<close>

fun err_as_net :: "goerr \<Rightarrow> bool" where
  "err_as_net (Wrapf _ _ e) = err_as_net e"
| "err_as_net (NetError _) = True"
| "err_as_net _ = False"

text \<open>\<open>os.IsNotExist\<close> does not unwrap \<open>%w\<close> errors: it looks at the system error itself.\<close>

fun os_is_not_exist :: "goerr \<Rightarrow> bool" where
  "os_is_not_exist (Sentinel s) = (s = OsErrNotExist)"
| "os_is_not_exist (SysErr s _) = (s = Some OsErrNotExist)"
| "os_is_not_exist _ = False"

section \<open>Dynamic values\<close>

text \<open>
  \<open>any\<close>: the value of a \<open>map[string]any\<close> entry. A Go map is an association list in the order
  one \<open>range\<close> loop visits it (the language leaves that order open), with distinct keys. A \<open>float64\<close> is
  given by a decimal text that denotes it.
\<close>

datatype any =
    VNil | VBool bool | VInt int | VFloat string
  | VString string | VStrings "string list"
  | VList "any list" | VMap "(string \<times> any) list"
  | VOther                               \<comment> \<open>a value of any other dynamic type\<close>

type_synonym details = "(string \<times> any) list"

section \<open>Proof collections and shared lemmas\<close>

named_theorems go_text_simps \<open>equations of the Go text functions\<close>
named_theorems word_facts \<open>facts about 64-bit generations and epochs\<close>

lemma word_succ_neq [word_facts, simp]: "(g :: 64 word) + 1 \<noteq> g"
proof -
  have "(1 :: 64 word) \<noteq> 0" by simp
  then show ?thesis by (metis add_cancel_right_right)
qed

lemma word_succ_pred [word_facts, simp]: "(g :: 64 word) + 1 - 1 = g"
  by simp

lemma unat_succ [word_facts]:
  "unat (g :: 64 word) + 1 < 2 ^ 64 \<Longrightarrow> unat (g + 1) = unat g + 1"
  by (simp add: unat_word_ariths)

lemma of_char_inj_nat [simp]: "((of_char c :: nat) = of_char d) \<longleftrightarrow> c = d"
  by (metis char_of_char)

lemma option_case_None_iff: "(case x of None \<Rightarrow> True | Some _ \<Rightarrow> False) \<longleftrightarrow> x = None"
  by (cases x) simp_all

end
