(* ===== verification/Go_Sha256.thy ===== *)
theory Go_Sha256
  imports Go_Prelude "HOL-Library.Word"
begin

unbundle bit_operations_syntax

text \<open>
  Go's \<open>crypto/sha256\<close> as the bundle loader uses it: \<open>New\<close>, \<open>Write\<close> and \<open>Sum\<close> on the streaming digest, with its buffer of
  an incomplete block and its 64-bit length. \<open>sha256\<close> is the hash of a whole message. The theory shows that
  however a message is cut into writes, the digest is the hash of the message, and that it has 32 bytes.
\<close>

section \<open>One block\<close>

type_synonym word32 = "32 word"

type_synonym hash = "word32 \<times> word32 \<times> word32 \<times> word32 \<times> word32 \<times> word32 \<times> word32 \<times> word32"

definition init_hash :: hash where
  "init_hash = (1779033703, 3144134277, 1013904242, 2773480762, 1359893119, 2600822924,
     528734635, 1541459225)"

definition round_constants :: "word32 list" where
  "round_constants =
    [1116352408, 1899447441, 3049323471, 3921009573, 961987163, 1508970993,
     2453635748, 2870763221, 3624381080, 310598401, 607225278, 1426881987,
     1925078388, 2162078206, 2614888103, 3248222580, 3835390401, 4022224774,
     264347078, 604807628, 770255983, 1249150122, 1555081692, 1996064986,
     2554220882, 2821834349, 2952996808, 3210313671, 3336571891, 3584528711,
     113926993, 338241895, 666307205, 773529912, 1294757372, 1396182291,
     1695183700, 1986661051, 2177026350, 2456956037, 2730485921, 2820302411,
     3259730800, 3345764771, 3516065817, 3600352804, 4094571909, 275423344,
     430227734, 506948616, 659060556, 883997877, 958139571, 1322822218,
     1537002063, 1747873779, 1955562222, 2024104815, 2227730452, 2361852424,
     2428436474, 2756734187, 3204031479, 3329325298]"

definition rotr :: "nat \<Rightarrow> word32 \<Rightarrow> word32" where
  "rotr n x = drop_bit n x OR push_bit (32 - n) x"

definition byte_word :: "char \<Rightarrow> word32" where
  "byte_word c = word_of_int (of_char c)"

text \<open>A block as sixteen big-endian words, and the 64 words of its message schedule, kept newest first while it grows.\<close>

fun block_words :: "string \<Rightarrow> word32 list" where
  "block_words (a # b # c # d # s) =
     (push_bit 24 (byte_word a) OR push_bit 16 (byte_word b) OR push_bit 8 (byte_word c) OR byte_word d) # block_words s"
| "block_words _ = []"

definition next_word :: "word32 list \<Rightarrow> word32" where
  "next_word ws =
     (let v1 = ws ! 1; t1 = rotr 17 v1 XOR rotr 19 v1 XOR drop_bit 10 v1;
          v2 = ws ! 14; t2 = rotr 7 v2 XOR rotr 18 v2 XOR drop_bit 3 v2
      in t1 + ws ! 6 + t2 + ws ! 15)"

fun extend :: "nat \<Rightarrow> word32 list \<Rightarrow> word32 list" where
  "extend 0 ws = ws"
| "extend (Suc n) ws = extend n (next_word ws # ws)"

fun sha_round :: "word32 \<times> word32 \<Rightarrow> hash \<Rightarrow> hash" where
  "sha_round (k, w) (a, b, c, d, e, f, g, h) =
     (let t1 = h + (rotr 6 e XOR rotr 11 e XOR rotr 25 e) + ((e AND f) XOR (NOT e AND g)) + k + w;
          t2 = (rotr 2 a XOR rotr 13 a XOR rotr 22 a) + ((a AND b) XOR (a AND c) XOR (b AND c))
      in (t1 + t2, a, b, c, d + t1, e, f, g))"

fun add_hash :: "hash \<Rightarrow> hash \<Rightarrow> hash" where
  "add_hash (a, b, c, d, e, f, g, h) (a', b', c', d', e', f', g', h') =
     (a + a', b + b', c + c', d + d', e + e', f + f', g + g', h + h')"

definition sha_block :: "hash \<Rightarrow> string \<Rightarrow> hash" where
  "sha_block h p = add_hash h (fold sha_round (zip round_constants (rev (extend 48 (rev (block_words p))))) h)"

text \<open>\<open>block\<close>: as many whole blocks as the input has.\<close>

function sha_blocks :: "hash \<Rightarrow> string \<Rightarrow> hash" where
  "sha_blocks h p = (if length p < 64 then h else sha_blocks (sha_block h (take 64 p)) (drop 64 p))"
  by pat_completeness auto
termination
  by (relation "measure (length \<circ> snd)") auto

declare sha_blocks.simps [simp del]

section \<open>The digest\<close>

record digest =
  sh_h :: hash
  sh_x :: string
  sh_len :: uint64

definition sha_New :: digest where
  "sha_New = \<lparr>sh_h = init_hash, sh_x = [], sh_len = 0\<rparr>"

definition sha_Write :: "string \<Rightarrow> digest \<Rightarrow> digest" where
  "sha_Write p d =
     (let n = (if sh_x d = [] then 0 else min (64 - length (sh_x d)) (length p));
          x = sh_x d @ take n p;
          (h, x) = (if sh_x d \<noteq> [] \<and> length x = 64 then (sha_block (sh_h d) x, []) else (sh_h d, x));
          p1 = drop n p;
          m = 64 * (length p1 div 64)
      in \<lparr>sh_h = sha_blocks h (take m p1), sh_x = x @ drop m p1, sh_len = sh_len d + of_nat (length p)\<rparr>)"

fun be_bytes :: "nat \<Rightarrow> int \<Rightarrow> string" where
  "be_bytes 0 v = []"
| "be_bytes (Suc n) v = char_of (drop_bit (8 * n) v) # be_bytes n v"

definition sha_padding :: "uint64 \<Rightarrow> string" where
  "sha_padding len =
     (let r = unat len mod 64; t = (if r < 56 then 56 - r else 64 + 56 - r)
      in CHR 0x80 # replicate (t - 1) (CHR 0x00) @ be_bytes 8 (uint (push_bit 3 len)))"

fun hash_bytes :: "hash \<Rightarrow> string" where
  "hash_bytes (a, b, c, d, e, f, g, h) = concat (map (\<lambda>w. be_bytes 4 (uint w)) [a, b, c, d, e, f, g, h])"

definition sha_Sum :: "digest \<Rightarrow> string" where
  "sha_Sum d = hash_bytes (sh_h (sha_Write (sha_padding (sh_len d)) d))"

text \<open>The hash of a whole message.\<close>

definition sha256 :: "string \<Rightarrow> string" where
  "sha256 s = hash_bytes (sha_blocks init_hash (s @ sha_padding (of_nat (length s))))"

section \<open>Lemmas\<close>

lemma be_bytes_length [simp]: "length (be_bytes n v) = n"
  by (induction n) simp_all

lemma hash_bytes_length: "length (hash_bytes h) = 32"
  by (cases h rule: hash_bytes.cases) simp

lemma sha256_length [simp]: "length (sha256 s) = 32"
  by (simp add: sha256_def hash_bytes_length)

lemma sha_blocks_short: "length p < 64 \<Longrightarrow> sha_blocks h p = h"
  by (subst sha_blocks.simps) simp

lemma sha_blocks_one: "length x = 64 \<Longrightarrow> sha_blocks h (x @ p) = sha_blocks (sha_block h x) p"
  by (subst sha_blocks.simps) simp

lemma sha_blocks_append: "64 dvd length p \<Longrightarrow> sha_blocks h (p @ q) = sha_blocks (sha_blocks h p) q"
proof (induction h p rule: sha_blocks.induct)
  case (1 h p)
  show ?case
  proof (cases "length p < 64")
    case True
    then have "p = []" using "1.prems" by (auto elim: dvdE)
    then show ?thesis by (simp add: sha_blocks_short)
  next
    case False
    have "64 dvd length (drop 64 p)" using "1.prems" by (simp add: dvd_diff_nat)
    note IH = "1.IH" [OF False this]
    have t: "take 64 p @ drop 64 p @ q = p @ q" by (simp flip: append_assoc)
    show ?thesis
      using sha_blocks_one [of "take 64 p" h "drop 64 p @ q", unfolded t] sha_blocks_one [of "take 64 p" h "drop 64 p"] IH False by simp
  qed
qed

text \<open>A digest that has taken in the message \<open>s\<close>: the whole blocks are hashed, the rest is in the buffer.\<close>

definition holds_message :: "string \<Rightarrow> digest \<Rightarrow> bool" where
  "holds_message s d \<longleftrightarrow> (\<exists>b. s = b @ sh_x d \<and> 64 dvd length b \<and> length (sh_x d) < 64 \<and> sh_h d = sha_blocks init_hash b)
     \<and> sh_len d = of_nat (length s)"

lemma sha_New_holds: "holds_message [] sha_New"
  by (simp add: holds_message_def sha_New_def sha_blocks_short)

lemma whole_blocks: "64 * (length p div 64) \<le> length p" "length (drop (64 * (length p div 64)) p) < 64" for p :: string
  by (simp_all flip: minus_mult_div_eq_mod)

lemma sha_Write_holds:
  assumes "holds_message s d"
  shows "holds_message (s @ p) (sha_Write p d)"
proof -
  obtain b where b: "s = b @ sh_x d" "64 dvd length b" "length (sh_x d) < 64" "sh_h d = sha_blocks init_hash b"
    and len: "sh_len d = of_nat (length s)" using assms by (auto simp: holds_message_def)
  define n where "n = (if sh_x d = [] then 0 else min (64 - length (sh_x d)) (length p))"
  define m where "m = 64 * (length (drop n p) div 64)"
  note w = whole_blocks [of "drop n p", folded m_def]
  have "length (take m (drop n p)) = m" using w(1) by simp
  then have mt: "64 dvd length (take m (drop n p))" by (simp add: m_def)
  define hx where "hx = (if sh_x d \<noteq> [] \<and> length (sh_x d @ take n p) = 64 then (sha_block (sh_h d) (sh_x d @ take n p), [])
    else (sh_h d, sh_x d @ take n p))"
  have W: "sha_Write p d = \<lparr>sh_h = sha_blocks (fst hx) (take m (drop n p)), sh_x = snd hx @ drop m (drop n p),
      sh_len = of_nat (length (s @ p))\<rparr>"
    unfolding sha_Write_def Let_def n_def [symmetric] m_def [symmetric] hx_def [symmetric] by (simp add: len split_beta)
  have "length (sh_x d @ take n p) = 64 \<or> length (sh_x d @ take n p) < 64 \<and> n = length p" if "sh_x d \<noteq> []"
    using that b(3) by (cases "64 - length (sh_x d) \<le> length p") (auto simp: n_def)
  then consider (start) "sh_x d = []" | (full) "sh_x d \<noteq> []" "length (sh_x d @ take n p) = 64"
    | (part) "sh_x d \<noteq> []" "length (sh_x d @ take n p) < 64" "n = length p"
    by blast
  then obtain b' where b': "b @ sh_x d @ take n p = b' @ snd hx" "64 dvd length b'" "fst hx = sha_blocks init_hash b'"
    "length (snd hx @ drop m (drop n p)) < 64" "snd hx = [] \<or> take m (drop n p) = []"
  proof cases
    case start
    then show ?thesis using b w by (intro that [of b]) (simp_all add: hx_def n_def)
  next
    case full
    have "sha_blocks init_hash (b @ sh_x d @ take n p) = sha_block (sh_h d) (sh_x d @ take n p)"
      using sha_blocks_append [OF b(2)] sha_blocks_one [OF full(2), of "sha_blocks init_hash b" "[]"] b(4) by (simp add: sha_blocks_short)
    moreover have "64 dvd length (b @ sh_x d @ take n p)" using b(2) full(2) by simp
    ultimately show ?thesis using full w by (intro that [of "b @ sh_x d @ take n p"]) (simp_all add: hx_def)
  next
    case part
    then show ?thesis using b by (intro that [of b]) (simp_all add: hx_def)
  qed
  have "s @ p = (b' @ take m (drop n p)) @ snd hx @ drop m (drop n p)"
  proof -
    have "s @ p = (b @ sh_x d @ take n p) @ take m (drop n p) @ drop m (drop n p)" using b(1) by (simp del: drop_drop)
    then show ?thesis using b'(5) unfolding b'(1) by auto
  qed
  then show ?thesis using b' mt sha_blocks_append [OF b'(2), of init_hash "take m (drop n p)"]
    unfolding holds_message_def W by (intro conjI exI [of _ "b' @ take m (drop n p)"]) simp_all
qed

lemma padded_length: "64 dvd length (s @ sha_padding (of_nat (length s)))"
proof -
  have "unat (of_nat (length s) :: uint64) = length s mod 2 ^ 64" by (simp add: unat_of_nat)
  moreover have "(64 :: nat) dvd 2 ^ 64" by simp
  ultimately have r: "unat (of_nat (length s) :: uint64) mod 64 = length s mod 64" by (metis mod_mod_cancel)
  have "64 dvd k + 64 * c - k mod 64" for k c :: nat
    using minus_mod_eq_mult_div [of k 64] by (simp add: dvd_def) (metis diff_add_assoc2 distrib_left mod_less_eq_dividend)
  from this [of "length s" 1] this [of "length s" 2] show ?thesis by (simp add: sha_padding_def r Let_def)
qed

lemma sha_Sum_holds:
  assumes "holds_message s d"
  shows "sha_Sum d = sha256 s"
proof -
  let ?p = "sha_padding (sh_len d)" and ?d = "sha_Write (sha_padding (sh_len d)) d"
  have len: "sh_len d = of_nat (length s)" using assms by (simp add: holds_message_def)
  obtain b where b: "s @ ?p = b @ sh_x ?d" "64 dvd length b" "length (sh_x ?d) < 64" "sh_h ?d = sha_blocks init_hash b"
    using sha_Write_holds [OF assms, of ?p] by (auto simp: holds_message_def)
  have "64 dvd length (b @ sh_x ?d)" using padded_length [of s] unfolding len [symmetric] b(1) .
  then have "64 dvd length (sh_x ?d)" using b(2) by (simp add: dvd_add_right_iff)
  then have "sh_x ?d = []" using b(3) by (auto elim: dvdE)
  then show ?thesis using b(1,4) len by (simp add: sha_Sum_def sha256_def)
qed

theorem chunked_sha256: "sha_Sum (fold sha_Write chunks sha_New) = sha256 (concat chunks)"
proof -
  have "holds_message (s @ concat chunks) (fold sha_Write chunks d)" if "holds_message s d" for s d
    using that
  proof (induction chunks arbitrary: s d)
    case (Cons c cs)
    from Cons.IH [OF sha_Write_holds [OF Cons.prems, of c]] show ?case by simp
  qed simp
  from this [OF sha_New_holds] show ?thesis by (simp add: sha_Sum_holds)
qed

end
