(* ===== verification/Go_Sha256_Vector.thy ===== *)
theory Go_Sha256_Vector
  imports Go_Sha256
begin

text \<open>
  A published test vector for the hash of \<open>Go_Sha256\<close>, evaluated in the kernel: it fixes the tables of constants and the order
  of bytes and words. It stands in a theory of its own because the evaluation takes minutes.
\<close>

lemma sha256_abc:
  "map of_char (sha256 ''abc'') = [186, 120, 22, 191, 143, 1, 207, 234, 65, 65, 64, 222, 93, 174, 34, 35, 176, 3, 97, 163, 150,
     23, 122, 156, 180, 16, 255, 97, 242, 0, 21, 173 :: int]"
  by code_simp

end
