(* ===== verification/Go_Text.thy ===== *)
theory Go_Text
  imports Go_Prelude
begin

text \<open>
  The parts of Go's \<open>strings\<close>, \<open>unicode\<close>, \<open>regexp\<close> and \<open>path/filepath\<close> packages the program
  uses, on byte strings. Text that is not ASCII is UTF-8: the functions below recognise the
  encodings of the code points that matter (Unicode white space, the C1 controls, and the code
  points that case folding sends to an ASCII letter). A lead byte never occurs inside an encoding,
  so a byte-wise search for an encoding finds exactly the decoded code points.
\<close>

section \<open>Byte classes\<close>

definition in_range :: "nat \<Rightarrow> nat \<Rightarrow> char \<Rightarrow> bool" where
  "in_range lo hi c \<longleftrightarrow> lo \<le> (of_char c :: nat) \<and> (of_char c :: nat) \<le> hi"

definition is_digit :: "char \<Rightarrow> bool" where "is_digit = in_range 48 57"
definition is_upper :: "char \<Rightarrow> bool" where "is_upper = in_range 65 90"
definition is_lower :: "char \<Rightarrow> bool" where "is_lower = in_range 97 122"
definition is_alnum :: "char \<Rightarrow> bool" where
  "is_alnum c \<longleftrightarrow> is_lower c \<or> is_upper c \<or> is_digit c"

text \<open>\<open>unicode.IsLetter(rune(b))\<close> of one byte, that is of a Latin-1 code point.\<close>

definition is_latin1_letter :: "char \<Rightarrow> bool" where
  "is_latin1_letter c \<longleftrightarrow> is_lower c \<or> is_upper c \<or> c = CHR 0xAA \<or> c = CHR 0xB5 \<or> c = CHR 0xBA
     \<or> in_range 0xC0 0xD6 c \<or> in_range 0xD8 0xF6 c \<or> in_range 0xF8 0xFF c"

text \<open>The lower-case letter of an upper-case ASCII letter differs from it in bit 5 only.\<close>

definition lower_byte :: "char \<Rightarrow> char" where
  "lower_byte c =
     (if is_upper c then (case c of Char b0 b1 b2 b3 b4 b5 b6 b7 \<Rightarrow> Char b0 b1 b2 b3 b4 True b6 b7) else c)"

section \<open>Searching and splitting\<close>

fun has_prefix :: "string \<Rightarrow> string \<Rightarrow> bool" where
  "has_prefix s [] = True"
| "has_prefix [] (p # ps) = False"
| "has_prefix (c # s) (p # ps) = (c = p \<and> has_prefix s ps)"

fun contains :: "string \<Rightarrow> string \<Rightarrow> bool" where
  "contains [] p = (p = [])"
| "contains (c # s) p = (has_prefix (c # s) p \<or> contains s p)"

text \<open>\<open>strings.Split\<close> at a one-byte separator.\<close>

fun split_on :: "char \<Rightarrow> string \<Rightarrow> string list" where
  "split_on d [] = [[]]"
| "split_on d (c # s) =
     (if c = d then [] # split_on d s
      else (case split_on d s of [] \<Rightarrow> [[c]] | w # ws \<Rightarrow> (c # w) # ws))"

text \<open>\<open>strings.Join\<close> with a one-byte separator.\<close>

fun join_with :: "char \<Rightarrow> string list \<Rightarrow> string" where
  "join_with d [] = []"
| "join_with d [w] = w"
| "join_with d (w # ws) = w @ d # join_with d ws"

section \<open>White space and control characters\<close>

text \<open>The UTF-8 encodings of the code points with Unicode property White\_Space.\<close>

definition space_encodings :: "string list" where
  "space_encodings =
     [[CHR 0x09], [CHR 0x0A], [CHR 0x0B], [CHR 0x0C], [CHR 0x0D], [CHR 0x20],
      [CHR 0xC2, CHR 0x85], [CHR 0xC2, CHR 0xA0], [CHR 0xE1, CHR 0x9A, CHR 0x80],
      [CHR 0xE2, CHR 0x80, CHR 0x80], [CHR 0xE2, CHR 0x80, CHR 0x81], [CHR 0xE2, CHR 0x80, CHR 0x82],
      [CHR 0xE2, CHR 0x80, CHR 0x83], [CHR 0xE2, CHR 0x80, CHR 0x84], [CHR 0xE2, CHR 0x80, CHR 0x85],
      [CHR 0xE2, CHR 0x80, CHR 0x86], [CHR 0xE2, CHR 0x80, CHR 0x87], [CHR 0xE2, CHR 0x80, CHR 0x88],
      [CHR 0xE2, CHR 0x80, CHR 0x89], [CHR 0xE2, CHR 0x80, CHR 0x8A],
      [CHR 0xE2, CHR 0x80, CHR 0xA8], [CHR 0xE2, CHR 0x80, CHR 0xA9], [CHR 0xE2, CHR 0x80, CHR 0xAF],
      [CHR 0xE2, CHR 0x81, CHR 0x9F], [CHR 0xE3, CHR 0x80, CHR 0x80]]"

text \<open>Number of bytes of the encoding from \<open>encs\<close> that \<open>s\<close> starts with, 0 if none.\<close>

fun strip_len :: "string list \<Rightarrow> string \<Rightarrow> nat" where
  "strip_len [] s = 0"
| "strip_len (w # ws) s = (if w \<noteq> [] \<and> has_prefix s w then length w else strip_len ws s)"

function trim_enc :: "string list \<Rightarrow> string \<Rightarrow> string" where
  "trim_enc encs s =
     (if s = [] \<or> strip_len encs s = 0 then s else trim_enc encs (drop (strip_len encs s) s))"
  by pat_completeness auto
termination
  by (relation "measure (\<lambda>(encs, s). length s)") auto

definition TrimSpace :: "string \<Rightarrow> string" where
  "TrimSpace s = rev (trim_enc (map rev space_encodings) (rev (trim_enc space_encodings s)))"

definition blank :: "string \<Rightarrow> bool" where
  "blank s \<longleftrightarrow> TrimSpace s = []"

text \<open>\<open>strings.IndexFunc(s, unicode.IsControl) >= 0\<close>: a C0 control, DEL, or a C1 control (C2 80 to C2 9F).\<close>

fun has_control :: "string \<Rightarrow> bool" where
  "has_control [] = False"
| "has_control (c # s) =
     (in_range 0 31 c \<or> c = CHR 0x7F
      \<or> (c = CHR 0xC2 \<and> (case s of [] \<Rightarrow> False | d # _ \<Rightarrow> in_range 0x80 0x9F d))
      \<or> has_control s)"

section \<open>Case folding, as seen by a search for ASCII text\<close>

text \<open>
  \<open>strings.ToLower\<close>: the ASCII letters, and the two other code points whose lower case is ASCII
  (KELVIN SIGN, E2 84 AA, to \<open>k\<close>; LATIN CAPITAL LETTER I WITH DOT ABOVE, C4 B0, to \<open>i\<close>). Code points
  whose lower case is not ASCII keep their bytes here: they cannot take part in an ASCII match.
\<close>

fun ToLower :: "string \<Rightarrow> string" where
  "ToLower [] = []"
| "ToLower (c # s) =
     (if c = CHR 0xE2 \<and> has_prefix s [CHR 0x84, CHR 0xAA] then CHR ''k'' # ToLower (drop 2 s)
      else if c = CHR 0xC4 \<and> has_prefix s [CHR 0xB0] then CHR ''i'' # ToLower (drop 1 s)
      else lower_byte c # ToLower s)"

text \<open>
  The folding of a \<open>(?i)\<close> regular expression: simple folding sends KELVIN SIGN to \<open>k\<close> and LATIN
  SMALL LETTER LONG S (C5 BF) to \<open>s\<close>.
\<close>

fun SimpleFold :: "string \<Rightarrow> string" where
  "SimpleFold [] = []"
| "SimpleFold (c # s) =
     (if c = CHR 0xE2 \<and> has_prefix s [CHR 0x84, CHR 0xAA] then CHR ''k'' # SimpleFold (drop 2 s)
      else if c = CHR 0xC5 \<and> has_prefix s [CHR 0xBF] then CHR ''s'' # SimpleFold (drop 1 s)
      else lower_byte c # SimpleFold s)"

section \<open>Paths\<close>

definition IsAbs :: "path \<Rightarrow> bool" where
  "IsAbs p \<longleftrightarrow> has_prefix p [slash]"

text \<open>
  \<open>filepath.Clean\<close>: the components are pushed on a stack (reversed); a \<open>..\<close> pops a real component,
  vanishes at the root of a rooted path, and stays in front of a relative one.
\<close>

fun clean_comps :: "bool \<Rightarrow> string list \<Rightarrow> string list \<Rightarrow> string list" where
  "clean_comps rooted [] st = rev st"
| "clean_comps rooted (w # ws) st =
     (if w = [] \<or> w = ''.'' then clean_comps rooted ws st
      else if w = ''..'' then
        (case st of
           t # ts \<Rightarrow> if t \<noteq> ''..'' then clean_comps rooted ws ts else clean_comps rooted ws (w # st)
         | [] \<Rightarrow> if rooted then clean_comps rooted ws [] else clean_comps rooted ws [w])
      else clean_comps rooted ws (w # st))"

definition Clean :: "path \<Rightarrow> path" where
  "Clean p =
     (let rooted = IsAbs p; ws = clean_comps rooted (split_on slash p) []
      in if rooted then slash # join_with slash ws
         else if ws = [] then ''.'' else join_with slash ws)"

definition Join :: "path list \<Rightarrow> path" where
  "Join es = (let fs = dropWhile (\<lambda>e. e = []) es in if fs = [] then [] else Clean (join_with slash fs))"

text \<open>\<open>filepath.Base\<close>: the last element after removing trailing slashes.\<close>

definition Base :: "path \<Rightarrow> path" where
  "Base p =
     (if p = [] then ''.''
      else (let q = rev (takeWhile (\<lambda>c. c \<noteq> slash) (dropWhile (\<lambda>c. c = slash) (rev p)))
            in if q = [] then [slash] else q))"

text \<open>\<open>filepath.Ext\<close>: from the last dot of the final element, empty if it has none.\<close>

definition Ext :: "path \<Rightarrow> path" where
  "Ext p =
     (let q = takeWhile (\<lambda>c. c \<noteq> slash) (rev p); e = takeWhile (\<lambda>c. c \<noteq> CHR ''.'') q
      in if length e = length q then [] else CHR ''.'' # rev e)"

text \<open>\<open>filepath.Dir\<close>: everything up to the last slash, cleaned.\<close>

definition Dir :: "path \<Rightarrow> path" where
  "Dir p = Clean (rev (dropWhile (\<lambda>c. c \<noteq> slash) (rev p)))"

text \<open>Decimal digits of \<open>fmt.Sprintf("%d", n)\<close> for a non-negative \<open>n\<close>.\<close>

definition digit_char :: "nat \<Rightarrow> char" where
  "digit_char d = char_of (48 + d)"

fun dec :: "nat \<Rightarrow> string" where
  "dec n = (if n < 10 then [digit_char n] else dec (n div 10) @ [digit_char (n mod 10)])"

declare dec.simps [simp del]
declare trim_enc.simps [simp del]

section \<open>Lemmas\<close>

lemmas byte_class_defs = in_range_def is_digit_def is_upper_def is_lower_def is_alnum_def

lemma has_prefix_iff: "has_prefix s p \<longleftrightarrow> prefix p s"
  by (induction s p rule: has_prefix.induct) auto

lemma has_prefix_append [simp]: "has_prefix (p @ s) p"
  by (simp add: has_prefix_iff)

lemma has_prefix_take: "has_prefix s p \<longleftrightarrow> take (length p) s = p"
  by (metis append_eq_conv_conj append_take_drop_id has_prefix_iff prefix_def)

lemma contains_iff: "contains s p \<longleftrightarrow> sublist p s"
  by (induction s p rule: contains.induct) (auto simp: has_prefix_iff sublist_Cons_right)

lemma contains_empty [simp]: "contains s []"
  by (simp add: contains_iff)

lemma split_on_nonempty [simp]: "split_on d s \<noteq> []"
  by (induction s) (auto split: list.splits)

lemma join_with_Cons: "ws \<noteq> [] \<Longrightarrow> join_with d (w # ws) = w @ d # join_with d ws"
  by (cases ws) auto

lemma join_with_head: "join_with d ((c # w) # ws) = c # join_with d (w # ws)"
  by (cases ws) auto

lemma join_split [simp]: "join_with d (split_on d s) = s"
proof (induction s)
  case (Cons c s)
  then show ?case
    by (cases "split_on d s") (auto simp: join_with_Cons join_with_head)
qed simp

lemma join_with_append:
  "us \<noteq> [] \<Longrightarrow> vs \<noteq> [] \<Longrightarrow> join_with d (us @ vs) = join_with d us @ d # join_with d vs"
proof (induction us)
  case (Cons u us)
  then show ?case by (cases us) (auto simp: join_with_Cons)
qed simp

lemma split_on_no_sep: "d \<notin> set s \<Longrightarrow> split_on d s = [s]"
  by (induction s) auto

lemma split_on_sep: "split_on d (s @ d # t) = split_on d s @ split_on d t"
proof (induction s)
  case (Cons c s)
  then show ?case by (cases "split_on d s") auto
qed simp

lemma split_on_append: "d \<notin> set w \<Longrightarrow> split_on d (w @ d # s) = w # split_on d s"
  by (induction w) auto

lemma split_join:
  "ws \<noteq> [] \<Longrightarrow> (\<And>w. w \<in> set ws \<Longrightarrow> d \<notin> set w) \<Longrightarrow> split_on d (join_with d ws) = ws"
  by (induction ws rule: join_with.induct) (auto simp: split_on_no_sep split_on_append)

lemma split_on_parts: "w \<in> set (split_on d s) \<Longrightarrow> d \<notin> set w"
  by (induction s arbitrary: w) (auto split: list.splits if_splits)

lemma strip_len_le: "strip_len encs s \<le> length s"
  by (induction encs s rule: strip_len.induct) (auto simp: has_prefix_iff prefix_length_le)

lemma trim_enc_suffix: "suffix (trim_enc encs s) s"
proof (induction encs s rule: trim_enc.induct)
  case (1 encs s)
  show ?case
  proof (cases "s = [] \<or> strip_len encs s = 0")
    case True
    then show ?thesis by (simp add: trim_enc.simps [of encs s])
  next
    case False
    then have "suffix (trim_enc encs (drop (strip_len encs s) s)) (drop (strip_len encs s) s)"
      by (rule 1)
    with False show ?thesis
      by (simp add: trim_enc.simps [of encs s]) (metis suffix_drop suffix_order.trans)
  qed
qed

lemma trim_enc_stop: "trim_enc encs s = [] \<or> strip_len encs (trim_enc encs s) = 0"
proof (induction encs s rule: trim_enc.induct)
  case (1 encs s)
  then show ?case
    by (cases "s = [] \<or> strip_len encs s = 0") (auto simp: trim_enc.simps [of encs s])
qed

lemma trim_enc_idem [simp]: "trim_enc encs (trim_enc encs s) = trim_enc encs s"
  using trim_enc_stop [of encs s] by (auto simp: trim_enc.simps [of encs "trim_enc encs s"])

lemma trim_enc_Nil [simp]: "trim_enc encs [] = []"
  by (simp add: trim_enc.simps)

lemma TrimSpace_sublist: "sublist (TrimSpace s) s"
proof -
  let ?m = "trim_enc space_encodings s"
  have "suffix ?m s" by (rule trim_enc_suffix)
  moreover have "suffix (trim_enc (map rev space_encodings) (rev ?m)) (rev ?m)"
    by (rule trim_enc_suffix)
  then have "prefix (TrimSpace s) ?m"
    by (metis TrimSpace_def rev_rev_ident suffix_to_prefix)
  ultimately show ?thesis
    by (metis prefix_imp_sublist sublist_order.order.trans suffix_imp_sublist)
qed

lemma blank_Nil [simp]: "blank []"
  by (simp add: blank_def TrimSpace_def)

lemma strip_len_bytes: "set (take (strip_len encs s) s) \<subseteq> \<Union> (set ` set encs)"
  by (induction encs s rule: strip_len.induct) (auto simp: has_prefix_take)

lemma trim_enc_split: "\<exists>pre. s = pre @ trim_enc encs s \<and> set pre \<subseteq> \<Union> (set ` set encs)"
proof (induction encs s rule: trim_enc.induct)
  case (1 encs s)
  show ?case
  proof (cases "s = [] \<or> strip_len encs s = 0")
    case True
    then show ?thesis by (intro exI [of _ "[]"]) (auto simp: trim_enc.simps [of encs s])
  next
    case False
    let ?n = "strip_len encs s"
    from 1 [OF False] obtain pre where
      pre: "drop ?n s = pre @ trim_enc encs (drop ?n s)" "set pre \<subseteq> \<Union> (set ` set encs)" by blast
    from False have "set (take ?n s @ pre) \<subseteq> \<Union> (set ` set encs)" using pre(2) strip_len_bytes [of encs s] by simp
    moreover have "s = (take ?n s @ pre) @ trim_enc encs s"
      using False pre(1) by (simp add: trim_enc.simps [of encs s])
    ultimately show ?thesis by blast
  qed
qed

text \<open>Blank text consists of bytes of white-space encodings only.\<close>

lemma blank_bytes: "blank s \<Longrightarrow> set s \<subseteq> \<Union> (set ` set space_encodings)"
proof -
  assume "blank s"
  then have r: "trim_enc (map rev space_encodings) (rev (trim_enc space_encodings s)) = []"
    by (simp add: blank_def TrimSpace_def)
  obtain pre where pre: "s = pre @ trim_enc space_encodings s"
    "set pre \<subseteq> \<Union> (set ` set space_encodings)"
    using trim_enc_split by blast
  have "set (rev (trim_enc space_encodings s)) \<subseteq> \<Union> (set ` set (map rev space_encodings))"
    using trim_enc_split [of "rev (trim_enc space_encodings s)" "map rev space_encodings"] r by auto
  then have "set (trim_enc space_encodings s) \<subseteq> \<Union> (set ` set space_encodings)"
    by (simp add: image_image)
  with pre show ?thesis by (metis le_sup_iff set_append)
qed

text \<open>Without the bytes of the two special encodings, lower-casing works byte by byte.\<close>

lemma ToLower_map: "CHR 0xAA \<notin> set s \<Longrightarrow> CHR 0xC4 \<notin> set s \<Longrightarrow> ToLower s = map lower_byte s"
proof (induction s)
  case (Cons c s)
  have "\<not> has_prefix s [CHR 0x84, CHR 0xAA]"
    using Cons.prems(1) by (auto simp: has_prefix_iff prefix_def)
  with Cons show ?case by auto
qed simp

text \<open>Printable ASCII other than space is never trimmed.\<close>

definition graph_byte :: "char \<Rightarrow> bool" where
  "graph_byte = in_range 33 126"

lemma space_not_graph: "list_all (list_all (\<lambda>c. \<not> graph_byte c)) space_encodings"
  by (simp add: space_encodings_def graph_byte_def in_range_def)

lemma strip_len_graph: "graph_byte c \<Longrightarrow> \<forall>w \<in> set ws. \<forall>d \<in> set w. \<not> graph_byte d \<Longrightarrow> strip_len ws (c # s) = 0"
  by (induction ws) (auto simp: neq_Nil_conv)

lemma trim_enc_graph:
  "graph_byte c \<Longrightarrow> \<forall>w \<in> set ws. \<forall>d \<in> set w. \<not> graph_byte d \<Longrightarrow> trim_enc ws (c # s) = c # s"
  by (subst trim_enc.simps) (simp add: strip_len_graph)

lemma TrimSpace_graph:
  assumes "s \<noteq> []" and "graph_byte (hd s)" and "graph_byte (last s)"
  shows "TrimSpace s = s"
proof -
  have sp: "\<forall>w \<in> set space_encodings. \<forall>d \<in> set w. \<not> graph_byte d"
    using space_not_graph by (simp add: list_all_iff)
  have l: "trim_enc space_encodings s = s"
    using assms(1,2) trim_enc_graph [OF _ sp] by (cases s) auto
  have r: "trim_enc (map rev space_encodings) (rev s) = rev s"
    using assms(1,3) sp trim_enc_graph [of "last s" "map rev space_encodings" "rev (butlast s)"]
    by (cases s rule: rev_cases) auto
  show ?thesis unfolding TrimSpace_def l r by simp
qed

lemma not_blank_graph: "s \<noteq> [] \<Longrightarrow> graph_byte (hd s) \<Longrightarrow> graph_byte (last s) \<Longrightarrow> \<not> blank s"
  by (simp add: blank_def TrimSpace_graph)

subsection \<open>Cleaned paths\<close>

text \<open>A plain file name: what a \<^const>\<open>Clean\<close> leaves alone as the last component.\<close>

definition plain_name :: "string \<Rightarrow> bool" where
  "plain_name f \<longleftrightarrow> f \<noteq> [] \<and> f \<noteq> ''.'' \<and> f \<noteq> ''..'' \<and> slash \<notin> set f"

text \<open>The components of a cleaned path.\<close>

definition path_comps :: "path \<Rightarrow> string list" where
  "path_comps p = clean_comps (IsAbs p) (split_on slash p) []"

lemma clean_comps_snoc:
  "plain_name f \<Longrightarrow> clean_comps r (ws @ [f]) st = clean_comps r ws st @ [f]"
  by (induction r ws st rule: clean_comps.induct) (auto simp: plain_name_def split: list.splits)

lemma IsAbs_append: "p \<noteq> [] \<Longrightarrow> IsAbs (p @ q) = IsAbs p"
  by (cases p) (auto simp: IsAbs_def)

lemma clean_comps_no_slash:
  "(\<And>w. w \<in> set ws \<union> set st \<Longrightarrow> slash \<notin> set w) \<Longrightarrow> v \<in> set (clean_comps r ws st) \<Longrightarrow> slash \<notin> set v"
  by (induction r ws st arbitrary: v rule: clean_comps.induct)
    (auto split: if_splits list.splits)

lemma path_comps_no_slash: "v \<in> set (path_comps p) \<Longrightarrow> slash \<notin> set v"
  unfolding path_comps_def
  by (erule clean_comps_no_slash [rotated]) (auto dest: split_on_parts)

lemma Clean_alt:
  "Clean p = (if IsAbs p then slash # join_with slash (path_comps p)
              else if path_comps p = [] then ''.'' else join_with slash (path_comps p))"
  by (simp add: Clean_def path_comps_def Let_def)

lemma Join_plain:
  assumes "root \<noteq> []" and "plain_name f"
  shows "Join [root, f] =
    (if IsAbs root then [slash] else []) @ join_with slash (path_comps root @ [f])"
proof -
  have f: "f \<noteq> []" "slash \<notin> set f" using assms(2) by (auto simp: plain_name_def)
  have "path_comps (root @ slash # f) = path_comps root @ [f]"
    using assms(1) f(2) clean_comps_snoc [OF assms(2)]
    by (simp add: path_comps_def IsAbs_append split_on_sep split_on_no_sep)
  then show ?thesis
    using assms(1) by (simp add: Join_def Clean_alt IsAbs_append)
qed

lemma Join_plain_inj:
  assumes "root \<noteq> []" and "plain_name f" and "plain_name g"
    and "Join [root, f] = Join [root, g]"
  shows "f = g"
proof -
  have sj: "split_on slash (join_with slash (path_comps root @ [h])) = path_comps root @ [h]"
    if "plain_name h" for h
    by (rule split_join) (use that in \<open>auto dest: path_comps_no_slash simp: plain_name_def\<close>)
  have "join_with slash (path_comps root @ [f]) = join_with slash (path_comps root @ [g])"
    using assms(4) by (simp add: Join_plain [OF assms(1)] assms(2,3))
  then have "path_comps root @ [f] = path_comps root @ [g]"
    using sj [OF assms(2)] sj [OF assms(3)] by metis
  then show ?thesis by simp
qed

lemma Ext_suffix: "suffix (Ext p) p"
proof (cases "Ext p = []")
  case False
  let ?q = "takeWhile (\<lambda>c. c \<noteq> slash) (rev p)"
  let ?e = "takeWhile (\<lambda>c. c \<noteq> CHR ''.'') ?q"
  from False have ext: "Ext p = CHR ''.'' # rev ?e" and len: "length ?e \<noteq> length ?q"
    by (auto simp: Ext_def Let_def split: if_splits)
  let ?d = "dropWhile (\<lambda>c. c \<noteq> CHR ''.'') ?q"
  have id: "?e @ ?d = ?q" by (rule takeWhile_dropWhile_id)
  have "?d \<noteq> []"
  proof
    assume "?d = []"
    with id have "?e = ?q" by (simp only: append_Nil2)
    with len show False by (simp only:)
  qed
  then obtain c r where cr: "?d = c # r" by (cases ?d) auto
  then have c: "c = CHR ''.''" by (simp add: dropWhile_eq_Cons_conv)
  from id have "?e @ [CHR ''.''] @ r = ?q" unfolding cr c by simp
  then have "prefix (?e @ [CHR ''.'']) ?q" unfolding append_assoc [symmetric] by (rule prefixI [OF sym])
  then have "prefix (rev (Ext p)) (rev p)"
    using ext takeWhile_is_prefix [of "\<lambda>c. c \<noteq> slash" "rev p"] by (auto intro: prefix_order.trans)
  then show ?thesis by (simp add: suffix_to_prefix)
qed simp

subsection \<open>Decimal numerals\<close>

lemma digit_char_inj: "a < 10 \<Longrightarrow> b < 10 \<Longrightarrow> digit_char a = digit_char b \<longleftrightarrow> a = b"
proof -
  assume "a < 10" "b < 10"
  then have "of_char (digit_char a) = 48 + a" "of_char (digit_char b) = 48 + b"
    by (simp_all add: digit_char_def)
  then show ?thesis by (metis add_left_cancel)
qed

lemma dec_nonempty [simp]: "dec n \<noteq> []"
  by (subst dec.simps) simp

lemma dec_inj: "dec m = dec n \<Longrightarrow> m = n"
proof (induction m arbitrary: n rule: dec.induct)
  case (1 m)
  have u: "dec k = (if k < 10 then [digit_char k] else dec (k div 10) @ [digit_char (k mod 10)])" for k
    by (rule dec.simps)
  have last: "last (dec k) = digit_char (k mod 10)" for k
    by (subst u) simp
  have mods: "m mod 10 = n mod 10"
    using last [of m] last [of n] "1.prems" by (simp add: digit_char_inj)
  have len: "m < 10 \<longleftrightarrow> n < 10"
    using "1.prems" u [of m] u [of n] dec_nonempty [of "m div 10"] dec_nonempty [of "n div 10"]
    by (auto split: if_splits simp del: dec_nonempty)
  show ?case
  proof (cases "m < 10")
    case True
    with len mods show ?thesis by simp
  next
    case False
    with len have "dec (m div 10) = dec (n div 10)"
      using "1.prems" u [of m] u [of n] by simp
    with False have "m div 10 = n div 10" by (rule "1.IH")
    with mods show ?thesis by (metis div_mult_mod_eq)
  qed
qed

end
