(* ===== verification/Auth_Token.thy ===== *)
theory Auth_Token
  imports Go_Text
begin

unbundle bit_operations_syntax

text \<open>
  The bootstrap token helpers (\<open>src/src/internal/auth/auth.go\<close>): drawing a token from a random
  source, the constant-time comparison, and the standard base64 codec of \<open>encoding/base64\<close>. The
  lemmas show that a token is 32 bytes or an error, that the comparison is equality, and that
  \<open>Decode\<close> inverts \<open>Encode\<close>.
\<close>

section \<open>Definitions\<close>

text \<open>
  An \<open>io.Reader\<close> as the bytes it can still deliver and the error it ends with; \<open>io.ReadFull\<close> turns
  an end of file after some bytes into \<open>io.ErrUnexpectedEOF\<close>.
\<close>

type_synonym reader = "string \<times> goerr"

definition ReadFull :: "reader \<Rightarrow> nat \<Rightarrow> goerr + string" where
  "ReadFull r n =
     (case r of (bytes, e) \<Rightarrow>
        if n \<le> length bytes then Inr (take n bytes)
        else if bytes \<noteq> [] \<and> e = Sentinel IoEOF then Inl (Sentinel IoErrUnexpectedEOF)
        else Inl e)"

definition NewToken :: "reader \<Rightarrow> goerr + string" where
  "NewToken r =
     (case ReadFull r 32 of
        Inl e \<Rightarrow> Inl (Wrapf ''generate token: %w'' [] e)
      | Inr buf \<Rightarrow> Inr buf)"

text \<open>\<open>subtle.ConstantTimeCompare\<close>: the differences are or-ed together, then tested once.\<close>

definition byte_of :: "char \<Rightarrow> 8 word" where
  "byte_of c = word_of_nat (of_char c)"

fun xor_diff :: "string \<Rightarrow> string \<Rightarrow> 8 word \<Rightarrow> 8 word" where
  "xor_diff (x # xs) (y # ys) v = xor_diff xs ys (v OR (byte_of x XOR byte_of y))"
| "xor_diff _ _ v = v"

definition ConstantTimeCompare :: "string \<Rightarrow> string \<Rightarrow> int" where
  "ConstantTimeCompare x y =
     (if length x \<noteq> length y then 0 else if xor_diff x y 0 = 0 then 1 else 0)"

definition EqualToken :: "string \<Rightarrow> string \<Rightarrow> bool" where
  "EqualToken a b = (if length a \<noteq> length b then False else ConstantTimeCompare a b = 1)"

text \<open>\<open>base64.StdEncoding\<close>.\<close>

definition b64_alphabet :: string where
  "b64_alphabet = ''ABCDEFGHIJKLMNOPQRSTUVWXYZabcdefghijklmnopqrstuvwxyz0123456789+/''"

definition b64_char :: "nat \<Rightarrow> char" where
  "b64_char k = b64_alphabet ! k"

fun index_of :: "char \<Rightarrow> string \<Rightarrow> nat option" where
  "index_of c [] = None"
| "index_of c (d # s) = (if c = d then Some 0 else map_option Suc (index_of c s))"

definition b64_val :: "char \<Rightarrow> nat option" where
  "b64_val c = index_of c b64_alphabet"

fun b64_encode :: "string \<Rightarrow> string" where
  "b64_encode [] = []"
| "b64_encode [a] =
     (let x = of_char a in [b64_char (x div 4), b64_char (x mod 4 * 16), CHR ''='', CHR ''=''])"
| "b64_encode [a, b] =
     (let x = of_char a; y = of_char b
      in [b64_char (x div 4), b64_char (x mod 4 * 16 + y div 16), b64_char (y mod 16 * 4), CHR ''=''])"
| "b64_encode (a # b # c # s) =
     (let x = of_char a; y = of_char b; z = of_char c
      in [b64_char (x div 4), b64_char (x mod 4 * 16 + y div 16), b64_char (y mod 16 * 4 + z div 64),
          b64_char (z mod 64)] @ b64_encode s)"

text \<open>
  \<open>DecodeString\<close> skips carriage returns and newlines wherever they stand, reads whole quanta of four
  characters and accepts padding only in the last one; bits a padded quantum does not use are ignored
  (the encoding is not strict).
\<close>

fun b64_quanta :: "string \<Rightarrow> string option" where
  "b64_quanta [] = Some []"
| "b64_quanta (p # q # r # t # s) =
     (case (b64_val p, b64_val q) of
        (Some a, Some b) \<Rightarrow>
          if r = CHR ''='' then
            (if t = CHR ''='' \<and> s = [] then Some [char_of (a * 4 + b div 16)] else None)
          else (case b64_val r of
              None \<Rightarrow> None
            | Some c \<Rightarrow>
                if t = CHR ''='' then
                  (if s = [] then Some [char_of (a * 4 + b div 16), char_of (b mod 16 * 16 + c div 4)]
                   else None)
                else (case b64_val t of
                    None \<Rightarrow> None
                  | Some d \<Rightarrow>
                      map_option
                        (\<lambda>rest. [char_of (a * 4 + b div 16), char_of (b mod 16 * 16 + c div 4),
                                 char_of (c mod 4 * 64 + d)] @ rest)
                        (b64_quanta s)))
      | _ \<Rightarrow> None)"
| "b64_quanta _ = None"

definition Encode :: "string \<Rightarrow> string" where
  "Encode data = b64_encode data"

definition Decode :: "string \<Rightarrow> goerr + string" where
  "Decode data =
     (case b64_quanta (filter (\<lambda>c. c \<noteq> CHR 0x0A \<and> c \<noteq> CHR 0x0D) data) of
        None \<Rightarrow> Inl (Wrapf ''decode base64: %w'' [] (err ''illegal base64 data''))
      | Some out \<Rightarrow> Inr out)"

section \<open>Token comparison\<close>

lemma byte_of_inj: "byte_of x = byte_of y \<longleftrightarrow> x = y"
proof -
  have "unat (byte_of c) = of_char c" for c
    by (simp add: byte_of_def unat_of_nat take_bit_eq_mod)
  then show ?thesis by (metis of_char_inj_nat)
qed

lemma or_zero_iff: "(v :: 8 word) OR w = 0 \<longleftrightarrow> v = 0 \<and> w = 0"
  by (metis or.left_neutral word_bw_lcs(2) word_bw_same(2) or.right_neutral)

lemma xor_zero_iff: "(v :: 8 word) XOR w = 0 \<longleftrightarrow> v = w"
  by (metis xor.left_neutral xor_self_eq xor.assoc xor.right_neutral)

lemma xor_diff_zero: "length x = length y \<Longrightarrow> xor_diff x y v = 0 \<longleftrightarrow> v = 0 \<and> x = y"
  by (induction x y v rule: xor_diff.induct) (auto simp: or_zero_iff xor_zero_iff byte_of_inj)

lemma EqualToken_iff: "EqualToken a b \<longleftrightarrow> a = b"
  by (auto simp: EqualToken_def ConstantTimeCompare_def xor_diff_zero)

section \<open>Base64\<close>

lemma b64_val_char: "k < 64 \<Longrightarrow> b64_val (b64_char k) = Some k"
proof -
  have "\<forall>k \<in> set [0..<64]. b64_val (b64_char k) = Some k" by code_simp
  then show "k < 64 \<Longrightarrow> b64_val (b64_char k) = Some k" by simp
qed

lemma b64_char_safe:
  "k < 64 \<Longrightarrow> b64_char k \<noteq> CHR ''='' \<and> b64_char k \<noteq> CHR 0x0A \<and> b64_char k \<noteq> CHR 0x0D"
proof -
  have "\<forall>k \<in> set [0..<64]. b64_char k \<noteq> CHR ''='' \<and> b64_char k \<noteq> CHR 0x0A \<and> b64_char k \<noteq> CHR 0x0D"
    by code_simp
  then show "k < 64 \<Longrightarrow> b64_char k \<noteq> CHR ''='' \<and> b64_char k \<noteq> CHR 0x0A \<and> b64_char k \<noteq> CHR 0x0D"
    by simp
qed

lemma sextet_bounds [simp]:
  "(of_char a :: nat) div 4 < 64" "(of_char a :: nat) mod 4 * 16 < 64"
  "(of_char a :: nat) mod 4 * 16 + (of_char b :: nat) div 16 < 64"
  "(of_char b :: nat) mod 16 * 4 < 64"
  "(of_char b :: nat) mod 16 * 4 + (of_char c :: nat) div 64 < 64"
  "(of_char c :: nat) mod 64 < 64"
proof -
  have "(of_char a :: nat) < 256" "(of_char b :: nat) < 256" "(of_char c :: nat) < 256"
    by simp_all
  then show "(of_char a :: nat) div 4 < 64" "(of_char a :: nat) mod 4 * 16 < 64"
    "(of_char a :: nat) mod 4 * 16 + (of_char b :: nat) div 16 < 64"
    "(of_char b :: nat) mod 16 * 4 < 64"
    "(of_char b :: nat) mod 16 * 4 + (of_char c :: nat) div 64 < 64"
    "(of_char c :: nat) mod 64 < 64"
    by linarith+
qed

text \<open>The high bits of a byte that a quantum moves between sextets.\<close>

lemma byte_parts [simp]:
  "(of_char b :: nat) div 16 div 16 = 0" "(of_char c :: nat) div 64 div 4 = 0"
  "(of_char b :: nat) div 16 mod 16 = of_char b div 16"
  "(of_char c :: nat) div 64 mod 4 = of_char c div 64"
proof -
  have bc: "(of_char b :: nat) < 256" "(of_char c :: nat) < 256" by simp_all
  then show "(of_char b :: nat) div 16 div 16 = 0" "(of_char c :: nat) div 64 div 4 = 0"
    by (simp_all add: div_mult2_eq [symmetric])
  have "(of_char b :: nat) div 16 < 16" "(of_char c :: nat) div 64 < 4"
    using bc by linarith+
  then show "(of_char b :: nat) div 16 mod 16 = of_char b div 16"
    "(of_char c :: nat) div 64 mod 4 = of_char c div 64"
    by simp_all
qed

lemma b64_filter_id:
  "filter (\<lambda>c. c \<noteq> CHR 0x0A \<and> c \<noteq> CHR 0x0D) (b64_encode s) = b64_encode s"
  by (induction s rule: b64_encode.induct) (simp_all add: Let_def b64_char_safe)

lemma b64_quanta_encode: "b64_quanta (b64_encode s) = Some s"
  by (induction s rule: b64_encode.induct) (simp_all add: Let_def b64_val_char b64_char_safe)

section \<open>Properties\<close>

text \<open>
  Every byte string survives the base64 round trip: \<open>Decode(Encode(data))\<close> is \<open>data\<close> and no error.
\<close>

theorem Decode_Encode: "Decode (Encode data) = Inr data"
  by (simp add: Decode_def Encode_def b64_filter_id b64_quanta_encode)

text \<open>
  \<open>EqualToken\<close>, which folds all byte differences before it looks at the result, decides equality
  of tokens, and a token \<open>NewToken\<close> hands out always has exactly 32 bytes, the first 32 of its source.
\<close>

theorem token_equality_and_length:
  "(EqualToken a b \<longleftrightarrow> a = b)
   \<and> (NewToken r = Inr tok \<longleftrightarrow> 32 \<le> length (fst r) \<and> tok = take 32 (fst r) \<and> length tok = 32)"
  by (cases r) (auto simp: EqualToken_iff NewToken_def ReadFull_def)

end
