(* ===== verification/Plugin_Id.thy ===== *)
theory Plugin_Id
  imports Go_Text
begin

text \<open>
  Plugin identifiers (\<open>src/src/internal/kernel/plugin_id.go\<close>) and the runtime paths that are built
  from them (\<open>SocketPath\<close>, \<open>AuthPath\<close> of \<open>src/src/internal/runtime/runtime.go\<close>, \<open>pluginRuntimeDir\<close>
  and \<open>pluginEventLogPath\<close> of \<open>src/src/internal/kernel/host.go\<close>). The lemmas show that an accepted
  identifier names one entry directly below the runtime directory and that different identifiers
  never share a socket, token file or directory.
\<close>

section \<open>Definitions\<close>

text \<open>\<open>^[a-zA-Z0-9][a-zA-Z0-9._-]*$\<close>\<close>

definition id_char :: "char \<Rightarrow> bool" where
  "id_char c \<longleftrightarrow> is_alnum c \<or> c = CHR ''.'' \<or> c = CHR ''_'' \<or> c = CHR ''-''"

definition pluginIDPattern :: "string \<Rightarrow> bool" where
  "pluginIDPattern s = (case s of [] \<Rightarrow> False | c # cs \<Rightarrow> is_alnum c \<and> list_all id_char cs)"

definition ValidatePluginID :: "string \<Rightarrow> goerr option" where
  "ValidatePluginID pluginID =
     (if pluginID = [] then Some (err ''plugin id is required'')
      else if \<not> pluginIDPattern pluginID then
        Some (Errorf ''invalid plugin id %q: use only letters, digits, dot, underscore, and dash, and start with a letter or digit'' [FStr pluginID])
      else None)"

definition SocketPath :: "path \<Rightarrow> string \<Rightarrow> path" where
  "SocketPath root pluginID = Join [root, pluginID @ ''.sock'']"

definition AuthPath :: "path \<Rightarrow> string \<Rightarrow> path" where
  "AuthPath root pluginID = Join [root, pluginID @ ''.auth'']"

definition pluginRuntimeDir :: "path \<Rightarrow> string \<Rightarrow> path" where
  "pluginRuntimeDir root pluginID = Join [root, pluginID]"

definition pluginEventLogPath :: "path \<Rightarrow> string \<Rightarrow> path" where
  "pluginEventLogPath root pluginID = Join [root, pluginID, ''events.jsonl'']"

section \<open>Lemmas\<close>

lemma alnum_not_special [simp]:
  "\<not> is_alnum CHR ''/''" "\<not> is_alnum CHR ''.''" "\<not> is_alnum CHR ''-''"
  by (simp_all add: byte_class_defs)

lemma id_char_not_slash [simp]: "\<not> id_char CHR ''/''"
  by (simp add: id_char_def)

lemma ValidatePluginID_None_iff: "ValidatePluginID s = None \<longleftrightarrow> pluginIDPattern s"
  by (auto simp: ValidatePluginID_def pluginIDPattern_def)

lemma pattern_no_slash: "pluginIDPattern s \<Longrightarrow> slash \<notin> set s"
  by (auto simp: pluginIDPattern_def list_all_iff split: list.splits)

lemma pattern_head: "pluginIDPattern s \<Longrightarrow> s \<noteq> [] \<and> is_alnum (hd s)"
  by (auto simp: pluginIDPattern_def split: list.splits)

lemma pattern_plain:
  assumes "pluginIDPattern s" and "slash \<notin> set t"
  shows "plain_name (s @ t)"
proof -
  obtain c cs where s: "s = c # cs" and c: "is_alnum c"
    using assms(1) by (auto simp: pluginIDPattern_def split: list.splits)
  have "c \<noteq> CHR ''.''" using c by auto
  then show ?thesis
    using s assms pattern_no_slash [OF assms(1)] by (auto simp: plain_name_def)
qed

lemma pattern_plain_name: "pluginIDPattern s \<Longrightarrow> plain_name s"
  using pattern_plain [of s "[]"] by simp

lemma SocketPath_neq_AuthPath:
  assumes "root \<noteq> []" and "pluginIDPattern p" and "pluginIDPattern q"
  shows "SocketPath root p \<noteq> AuthPath root q"
proof
  assume "SocketPath root p = AuthPath root q"
  then have "Join [root, p @ ''.sock''] = Join [root, q @ ''.auth'']"
    by (simp add: SocketPath_def AuthPath_def)
  then have "p @ ''.sock'' = q @ ''.auth''"
    by (rule Join_plain_inj [OF assms(1) pattern_plain [OF assms(2)] pattern_plain [OF assms(3)], rotated 2])
      simp_all
  then have "rev (p @ ''.sock'') = rev (q @ ''.auth'')" by (rule arg_cong)
  then show False by simp
qed


text \<open>The file a name denotes directly below a cleaned runtime root.\<close>

definition entry_below :: "path \<Rightarrow> string \<Rightarrow> path" where
  "entry_below root f = (if IsAbs root then [slash] else []) @ join_with slash (path_comps root @ [f])"

lemma Join_entry_below: "root \<noteq> [] \<Longrightarrow> plain_name f \<Longrightarrow> Join [root, f] = entry_below root f"
  by (simp add: Join_plain entry_below_def)

lemma Join_id_inj:
  assumes "root \<noteq> []" and "pluginIDPattern p" and "pluginIDPattern q" and "slash \<notin> set t"
    and "Join [root, p @ t] = Join [root, q @ t]"
  shows "p = q"
  using Join_plain_inj [OF assms(1) pattern_plain [OF assms(2,4)] pattern_plain [OF assms(3,4)] assms(5)]
  by simp

text \<open>
  C32: an identifier accepted by \<open>ValidatePluginID\<close> is one plain path component: its runtime
  directory, socket and token file lie directly below the cleaned runtime root whatever the
  identifier is; no socket is a token file, and two different identifiers give different
  directories, sockets and token files.
\<close>

theorem plugin_paths_confined_and_distinct:
  assumes "root \<noteq> []" and "ValidatePluginID p = None" and "ValidatePluginID q = None"
  shows "pluginRuntimeDir root p = entry_below root p
    \<and> SocketPath root p = entry_below root (p @ ''.sock'')
    \<and> AuthPath root p = entry_below root (p @ ''.auth'')
    \<and> SocketPath root p \<noteq> AuthPath root q
    \<and> (p \<noteq> q \<longrightarrow> pluginRuntimeDir root p \<noteq> pluginRuntimeDir root q
         \<and> SocketPath root p \<noteq> SocketPath root q \<and> AuthPath root p \<noteq> AuthPath root q)"
proof -
  have p: "pluginIDPattern p" and q: "pluginIDPattern q"
    using assms(2,3) by (simp_all add: ValidatePluginID_None_iff)
  have "pluginRuntimeDir root p = entry_below root p"
    unfolding pluginRuntimeDir_def by (rule Join_entry_below [OF assms(1) pattern_plain_name [OF p]])
  moreover have "SocketPath root p = entry_below root (p @ ''.sock'')"
    unfolding SocketPath_def by (rule Join_entry_below [OF assms(1) pattern_plain [OF p]]) simp
  moreover have "AuthPath root p = entry_below root (p @ ''.auth'')"
    unfolding AuthPath_def by (rule Join_entry_below [OF assms(1) pattern_plain [OF p]]) simp
  moreover have "SocketPath root p \<noteq> AuthPath root q"
    by (rule SocketPath_neq_AuthPath [OF assms(1) p q])
  moreover have "p = q" if "pluginRuntimeDir root p = pluginRuntimeDir root q"
    using that Join_id_inj [OF assms(1) p q, of "[]"] by (simp add: pluginRuntimeDir_def)
  moreover have "p = q" if "SocketPath root p = SocketPath root q"
    using that Join_id_inj [OF assms(1) p q, of "''.sock''"] by (simp add: SocketPath_def)
  moreover have "p = q" if "AuthPath root p = AuthPath root q"
    using that Join_id_inj [OF assms(1) p q, of "''.auth''"] by (simp add: AuthPath_def)
  ultimately show ?thesis by blast
qed

theorem plugin_paths_witness:
  "SocketPath ''/run/rpc'' ''echo'' = ''/run/rpc/echo.sock''
   \<and> SocketPath ''/run/rpc'' ''echo'' \<noteq> SocketPath ''/run/rpc'' ''echo2''"
proof -
  have v: "ValidatePluginID ''echo'' = None" "ValidatePluginID ''echo2'' = None"
    by (simp_all add: ValidatePluginID_def pluginIDPattern_def id_char_def byte_class_defs)
  have "path_comps ''/run/rpc'' = [''run'', ''rpc'']"
    by (simp add: path_comps_def IsAbs_def)
  then show ?thesis
    using plugin_paths_confined_and_distinct [of "''/run/rpc''", OF _ v]
    by (auto simp: IsAbs_def entry_below_def)
qed

end
