(* ===== verification/Host_Runtime.thy ===== *)
theory Host_Runtime
  imports Plugin_Id
begin

text \<open>
  The runtime helpers of \<open>src/src/internal/runtime\<close>: the private runtime directory, private sockets,
  the checks on a plugin executable and the peer credentials of a connection. The file system is a
  map from paths to kind and permission bits; an environment record fixes which system calls fail.
  The lemmas show that an accepted runtime directory and socket are private to the owner and that an
  accepted executable is an absolute, regular, executable file only its owner can write.
\<close>

unbundle bit_operations_syntax

section \<open>Definitions\<close>

datatype file_kind = KDir | KRegular | KSymlink | KSocket | KOther

record finfo =
  fi_kind :: file_kind
  fi_perm :: "32 word"

type_synonym fstree = "path \<Rightarrow> finfo option"

text \<open>Octal 0700 and 0600.\<close>

definition dirMode :: "32 word" where "dirMode = 0x1C0"
definition socketMode :: "32 word" where "socketMode = 0x180"

text \<open>
  \<open>sys_lstat p\<close> is an error other than the one for a missing file; the other components are the
  outcomes of \<open>mkdirAll\<close>, \<open>chmod\<close>, \<open>os.Remove\<close> and \<open>net.Listen\<close>. \<open>sys_umask\<close> is cleared from the
  permissions of what is created.
\<close>

record sys_env =
  sys_lstat :: "path \<Rightarrow> goerr option"
  sys_mkdir :: "goerr option"
  sys_chmod :: "goerr option"
  sys_remove :: bool
  sys_listen :: "goerr option"
  sys_umask :: "32 word"

definition not_exist :: goerr where
  "not_exist = SysErr (Some OsErrNotExist) ''lstat''"

definition Lstat :: "sys_env \<Rightarrow> fstree \<Rightarrow> path \<Rightarrow> goerr + finfo" where
  "Lstat env fs p =
     (case sys_lstat env p of Some e \<Rightarrow> Inl e
      | None \<Rightarrow> (case fs p of None \<Rightarrow> Inl not_exist | Some i \<Rightarrow> Inr i))"

text \<open>The directories \<open>os.MkdirAll\<close> creates where they are missing: the path and what it passes through.\<close>

definition mkdir_chain :: "path \<Rightarrow> path list" where
  "mkdir_chain p = filter (\<lambda>q. q \<noteq> [] \<and> (q = p \<or> p ! length q = slash)) (prefixes p)"

definition mkdir_all :: "sys_env \<Rightarrow> path \<Rightarrow> 32 word \<Rightarrow> fstree \<Rightarrow> fstree" where
  "mkdir_all env p perm fs =
     fold (\<lambda>q f. if f q = None then f(q \<mapsto> \<lparr>fi_kind = KDir, fi_perm = perm AND NOT (sys_umask env)\<rparr>) else f)
       (mkdir_chain p) fs"

definition chmod_file :: "path \<Rightarrow> 32 word \<Rightarrow> fstree \<Rightarrow> fstree" where
  "chmod_file p perm fs = (case fs p of None \<Rightarrow> fs | Some i \<Rightarrow> fs(p \<mapsto> i\<lparr>fi_perm := perm\<rparr>))"

definition EnsureDir :: "sys_env \<Rightarrow> path \<Rightarrow> fstree \<Rightarrow> goerr option \<times> fstree" where
  "EnsureDir env root fs =
     (if root = [] then (Some (err ''runtime dir is required''), fs)
      else
        (let make =
           (case sys_mkdir env of
              Some e \<Rightarrow> (Some (Wrapf ''create runtime dir: %w'' [] e), fs)
            | None \<Rightarrow>
                (let fs1 = mkdir_all env root dirMode fs
                 in case sys_chmod env of
                      Some e \<Rightarrow> (Some (Wrapf ''chmod runtime dir: %w'' [] e), fs1)
                    | None \<Rightarrow> (None, chmod_file root dirMode fs1)))
         in case Lstat env fs root of
              Inr info \<Rightarrow>
                if fi_kind info = KSymlink then (Some (Errorf ''runtime dir must not be a symlink: %s'' [FStr root]), fs)
                else if fi_kind info \<noteq> KDir then (Some (Errorf ''runtime dir is not a directory: %s'' [FStr root]), fs)
                else make
            | Inl e \<Rightarrow>
                if \<not> os_is_not_exist e then (Some (Wrapf ''stat runtime dir: %w'' [] e), fs)
                else make))"

definition remove_path :: "sys_env \<Rightarrow> path \<Rightarrow> fstree \<Rightarrow> fstree" where
  "remove_path env p fs = (if sys_remove env then fs(p := None) else fs)"

text \<open>
  \<open>ListenUnix\<close>; the boolean of the result is whether the returned listener is open. Closing a Go
  Unix listener unlinks its socket file.
\<close>

definition ListenUnix :: "sys_env \<Rightarrow> path \<Rightarrow> fstree \<Rightarrow> (goerr option \<times> bool) \<times> fstree" where
  "ListenUnix env p fs =
     (let fs1 = remove_path env p fs
      in case sys_listen env of
           Some e \<Rightarrow> ((Some (Wrapf ''listen unix socket: %w'' [] e), False), fs1)
         | None \<Rightarrow>
             (let fs2 = fs1(p \<mapsto> \<lparr>fi_kind = KSocket, fi_perm = 0x1FF AND NOT (sys_umask env)\<rparr>)
              in case sys_chmod env of
                   Some e \<Rightarrow>
                     ((Some (Wrapf ''chmod unix socket: %w'' [] e), False), remove_path env p (fs2(p := None)))
                 | None \<Rightarrow> ((None, True), chmod_file p socketMode fs2)))"

definition ValidateExecutable :: "sys_env \<Rightarrow> fstree \<Rightarrow> path \<Rightarrow> goerr option" where
  "ValidateExecutable env fs p =
     (if p = [] then Some (err ''executable path is required'')
      else if \<not> IsAbs p then Some (Errorf ''plugin executable path must be absolute: %s'' [FStr p])
      else (case Lstat env fs p of
              Inl e \<Rightarrow> Some (Wrapf ''stat executable: %w'' [] e)
            | Inr info \<Rightarrow>
                if fi_kind info = KSymlink then Some (Errorf ''plugin executable must not be a symlink: %s'' [FStr p])
                else if fi_kind info \<noteq> KRegular then
                  Some (Errorf ''plugin executable must be a regular file: %s'' [FStr p])
                else if fi_perm info AND 0x49 = 0 then
                  Some (Errorf ''executable path is not executable: %s'' [FStr p])
                else if fi_perm info AND 0x12 \<noteq> 0 then
                  Some (Errorf ''plugin executable must not be group/world writable: %s'' [FStr p])
                else None))"

record peer_cred =
  pc_PID :: int
  pc_UID :: "32 word"
  pc_GID :: "32 word"

text \<open>What the operating system reports about a connection: its type and the outcomes of the three calls.\<close>

record cred_env =
  ce_unix :: bool
  ce_type :: string
  ce_syscall_conn :: "goerr option"
  ce_getsockopt :: "goerr + peer_cred"
  ce_control :: "goerr option"

definition ReadPeerCred :: "cred_env \<Rightarrow> goerr + peer_cred" where
  "ReadPeerCred env =
     (if \<not> ce_unix env then Inl (Errorf ''peercred requires unix conn, got %T'' [FStr (ce_type env)])
      else (case ce_syscall_conn env of
        Some e \<Rightarrow> Inl (Wrapf ''peercred syscall conn: %w'' [] e)
      | None \<Rightarrow>
          (case ce_control env of
             Some e \<Rightarrow> Inl (Wrapf ''peercred control: %w'' [] e)
           | None \<Rightarrow>
               (case ce_getsockopt env of
                  Inl e \<Rightarrow> Inl (Wrapf ''getsockopt SO_PEERCRED: %w'' [] e)
                | Inr cred \<Rightarrow> Inr cred))))"

text \<open>The build for other systems.\<close>

definition ReadPeerCred_stub :: "cred_env \<Rightarrow> goerr + peer_cred" where
  "ReadPeerCred_stub env = Inl (err ''peercred is only supported on linux in v1'')"

section \<open>Lemmas\<close>

lemma mkdir_fold_other:
  "q \<notin> set qs \<Longrightarrow> fold (\<lambda>q f. if f q = None then f(q \<mapsto> i) else f) qs fs q = fs q"
  by (induction qs arbitrary: fs) auto

lemma mkdir_fold_keeps:
  "fs q = Some j \<Longrightarrow> fold (\<lambda>q f. if f q = None then f(q \<mapsto> i) else f) qs fs q = Some j"
proof (induction qs arbitrary: fs)
  case (Cons a qs)
  have "(if fs a = None then fs(a \<mapsto> i) else fs) q = Some j" using Cons.prems by auto
  then show ?case using Cons.IH by simp
qed simp

lemma mkdir_fold_new:
  "q \<in> set qs \<Longrightarrow> fs q = None \<Longrightarrow> fold (\<lambda>q f. if f q = None then f(q \<mapsto> i) else f) qs fs q = Some i"
proof (induction qs arbitrary: fs)
  case (Cons a qs)
  show ?case
  proof (cases "a = q")
    case True
    then show ?thesis using Cons.prems by (simp add: mkdir_fold_keeps)
  next
    case False
    then show ?thesis using Cons by auto
  qed
qed simp

lemma mkdir_chain_self: "p \<noteq> [] \<Longrightarrow> p \<in> set (mkdir_chain p)"
  by (simp add: mkdir_chain_def)

lemma mkdir_all_keeps: "fs q = Some i \<Longrightarrow> mkdir_all env p perm fs q = Some i"
  unfolding mkdir_all_def by (rule mkdir_fold_keeps)

lemma mkdir_all_kind:
  assumes "p \<noteq> []" and "fs p = None \<or> (\<exists>i. fs p = Some i \<and> fi_kind i = KDir)"
  shows "\<exists>i. mkdir_all env p perm fs p = Some i \<and> fi_kind i = KDir"
  using assms(2)
proof
  assume "fs p = None"
  then show ?thesis
    unfolding mkdir_all_def by (simp add: mkdir_fold_new [OF mkdir_chain_self [OF assms(1)]])
next
  assume "\<exists>i. fs p = Some i \<and> fi_kind i = KDir"
  then show ?thesis using mkdir_all_keeps by blast
qed

lemma Lstat_missing: "Lstat env fs p = Inl e \<Longrightarrow> os_is_not_exist e \<Longrightarrow> (\<forall>q e. sys_lstat env q = Some e \<longrightarrow> \<not> os_is_not_exist e)
    \<Longrightarrow> fs p = None"
  by (auto simp: Lstat_def split: option.splits)

section \<open>Properties\<close>

text \<open>
  A runtime directory \<open>EnsureDir\<close> accepts is a real directory with mode 0700, it was not a
  symbolic link or another kind of file before, and every other path that existed is as before; a
  path that is a symbolic link is refused without touching the file system.
\<close>

theorem EnsureDir_private:
  assumes "\<forall>q e. sys_lstat env q = Some e \<longrightarrow> \<not> os_is_not_exist e"
  shows "(EnsureDir env root fs = (None, fs') \<longrightarrow>
      fs' root = Some \<lparr>fi_kind = KDir, fi_perm = 0x1C0\<rparr>
      \<and> (\<forall>i. fs root = Some i \<longrightarrow> fi_kind i = KDir)
      \<and> (\<forall>q i. q \<noteq> root \<longrightarrow> fs q = Some i \<longrightarrow> fs' q = Some i))
    \<and> (root \<noteq> [] \<and> sys_lstat env root = None \<and> (\<exists>i. fs root = Some i \<and> fi_kind i = KSymlink)
        \<longrightarrow> EnsureDir env root fs = (Some (Errorf ''runtime dir must not be a symlink: %s'' [FStr root]), fs))"
proof (intro conjI impI)
  assume *: "EnsureDir env root fs = (None, fs')"
  then have ne: "root \<noteq> []" and fs': "fs' = chmod_file root dirMode (mkdir_all env root dirMode fs)"
    by (auto simp: EnsureDir_def Let_def split: if_splits option.splits sum.splits)
  have before: "fs root = None \<or> (\<exists>i. fs root = Some i \<and> fi_kind i = KDir)"
  proof (cases "Lstat env fs root")
    case (Inl e)
    then have "os_is_not_exist e" using * ne by (auto simp: EnsureDir_def split: if_splits)
    then show ?thesis using Lstat_missing [OF Inl _ assms] by blast
  next
    case (Inr i)
    then show ?thesis using * ne by (auto simp: EnsureDir_def Lstat_def split: if_splits option.splits)
  qed
  then obtain j where j: "mkdir_all env root dirMode fs root = Some j" "fi_kind j = KDir"
    using mkdir_all_kind [OF ne] by blast
  show "fs' root = Some \<lparr>fi_kind = KDir, fi_perm = 0x1C0\<rparr>"
    using j by (cases j) (simp add: fs' chmod_file_def dirMode_def)
  show "\<forall>i. fs root = Some i \<longrightarrow> fi_kind i = KDir" using before by auto
  show "\<forall>q i. q \<noteq> root \<longrightarrow> fs q = Some i \<longrightarrow> fs' q = Some i"
    by (simp add: fs' chmod_file_def mkdir_all_keeps split: option.splits)
next
  assume "root \<noteq> [] \<and> sys_lstat env root = None \<and> (\<exists>i. fs root = Some i \<and> fi_kind i = KSymlink)"
  then show "EnsureDir env root fs = (Some (Errorf ''runtime dir must not be a symlink: %s'' [FStr root]), fs)"
    by (auto simp: EnsureDir_def Lstat_def Let_def)
qed

definition quiet_sys :: sys_env where
  "quiet_sys = \<lparr>sys_lstat = (\<lambda>_. None), sys_mkdir = None, sys_chmod = None, sys_remove = True,
     sys_listen = None, sys_umask = 0x12\<rparr>"

theorem EnsureDir_private_witness:
  "snd (EnsureDir quiet_sys ''/r'' Map.empty) ''/r'' = Some \<lparr>fi_kind = KDir, fi_perm = 0x1C0\<rparr>"
proof -
  have "EnsureDir quiet_sys ''/r'' Map.empty = (None, snd (EnsureDir quiet_sys ''/r'' Map.empty))"
    by (simp add: EnsureDir_def quiet_sys_def Lstat_def not_exist_def Let_def)
  then show ?thesis using EnsureDir_private [of quiet_sys "''/r''" Map.empty] by (simp add: quiet_sys_def)
qed

text \<open>
  \<open>ValidateExecutable\<close> accepts exactly the absolute paths of existing regular files (not links)
  that somebody may execute and neither group nor others may write.
\<close>

theorem ValidateExecutable_iff:
  "ValidateExecutable env fs p = None \<longleftrightarrow>
     IsAbs p \<and> sys_lstat env p = None
     \<and> (\<exists>i. fs p = Some i \<and> fi_kind i = KRegular
          \<and> (bit (fi_perm i) 0 \<or> bit (fi_perm i) 3 \<or> bit (fi_perm i) 6)
          \<and> \<not> bit (fi_perm i) 1 \<and> \<not> bit (fi_perm i) 4)"
proof -
  have m: "(0x49 :: 32 word) = push_bit 6 1 OR push_bit 3 1 OR 1" "(0x12 :: 32 word) = push_bit 4 1 OR push_bit 1 1"
    by simp_all
  have mask: "w AND m = 0 \<longleftrightarrow> (\<forall>n \<in> {n. n < 32 \<and> bit m n}. \<not> bit w n)" for w m :: "32 word"
    unfolding bit_eq_iff [where ?'a = "32 word"] by (auto simp: bit_simps)
  have "{n. n < 32 \<and> bit (0x49 :: 32 word) n} = {0, 3, 6}" "{n. n < 32 \<and> bit (0x12 :: 32 word) n} = {1, 4}"
    unfolding m by (auto simp: bit_simps simp del: push_bit_of_1)
  then have x: "w AND 0x49 = 0 \<longleftrightarrow> \<not> (bit w 0 \<or> bit w 3 \<or> bit w 6)"
    and w: "w AND 0x12 = 0 \<longleftrightarrow> \<not> bit w 1 \<and> \<not> bit w 4" for w :: "32 word"
    unfolding mask by simp_all
  show ?thesis
    by (auto simp: ValidateExecutable_def Lstat_def x w IsAbs_def split: option.splits if_splits)
qed

text \<open>
  A listener \<open>ListenUnix\<close> returns is a socket with mode 0600 at that path; when restricting its
  mode fails the listener is closed and no socket is left behind; no other path changes.
\<close>

theorem ListenUnix_private:
  "let ((e, listening), fs') = ListenUnix env p fs
   in (\<forall>q. q \<noteq> p \<longrightarrow> fs' q = fs q)
      \<and> (e = None \<longleftrightarrow> listening)
      \<and> (listening \<longrightarrow> fs' p = Some \<lparr>fi_kind = KSocket, fi_perm = 0x180\<rparr>)
      \<and> (sys_listen env = None \<and> e \<noteq> None \<longrightarrow> fs' p = None)"
  by (auto simp: ListenUnix_def Let_def remove_path_def chmod_file_def socketMode_def split: option.splits)

theorem ListenUnix_private_witness:
  "snd (ListenUnix quiet_sys ''/s'' Map.empty) ''/s'' = Some \<lparr>fi_kind = KSocket, fi_perm = 0x180\<rparr>"
  using ListenUnix_private [of quiet_sys "''/s''" Map.empty]
  by (auto simp: ListenUnix_def quiet_sys_def Let_def split: prod.splits)

lemma ReadPeerCred_Inr_iff:
  "ReadPeerCred env = Inr c \<longleftrightarrow>
     ce_unix env \<and> ce_syscall_conn env = None \<and> ce_control env = None \<and> ce_getsockopt env = Inr c"
  by (auto simp: ReadPeerCred_def split: option.splits sum.splits)

end
