(* ===== verification/Event_Log.thy ===== *)
theory Event_Log
  imports Go_Text
begin

text \<open>
  The append-only JSONL log of \<open>src/src/internal/eventlog/eventlog.go\<close>: the event record, opening a
  logger, \<open>Write\<close> and its rotation of numbered backups. The disk is a map from paths to contents;
  one \<open>Write\<close> runs under a \<open>log_io\<close> record that fixes the outcome of every system call it makes, so
  each failure branch of the code is a branch of the model. \<open>json.Marshal\<close> is the argument \<open>enc\<close> (the
  package variable \<open>jsonMarshal\<close> of the code). The lemmas show what a rotation does to every file,
  that the byte stream formed by backups and current file only grows at its end and loses only whole
  backups at its front, and that a logger whose reopen failed rejects every later write.

  The record is polymorphic in the \<open>Error\<close> field: a \<open>string event\<close> is the durable event of the code,
  a \<open>goerr option event\<close> the event of a kernel call site before \<open>err.Error()\<close> renders the error.
\<close>

section \<open>Events\<close>

record 'e event =
  ev_Time :: gotime
  ev_Level :: string
  ev_Component :: string
  ev_Event :: string
  ev_PluginID :: string
  ev_GenerationID :: uint64
  ev_PID :: int
  ev_SocketPath :: string
  ev_Method :: string
  ev_CapabilityID :: string
  ev_OperationID :: string
  ev_CorrelationID :: string
  ev_Status :: string
  ev_DurationMS :: int
  ev_ErrorClass :: string
  ev_DegradedReason :: string
  ev_Message :: string
  ev_Error :: 'e
  ev_Reason :: string
  ev_Details :: details

definition zero_event :: "'e \<Rightarrow> 'e event" where
  "zero_event noerr = \<lparr>ev_Time = 0, ev_Level = [], ev_Component = [], ev_Event = [], ev_PluginID = [],
     ev_GenerationID = 0, ev_PID = 0, ev_SocketPath = [], ev_Method = [], ev_CapabilityID = [],
     ev_OperationID = [], ev_CorrelationID = [], ev_Status = [], ev_DurationMS = 0, ev_ErrorClass = [],
     ev_DegradedReason = [], ev_Message = [], ev_Error = noerr, ev_Reason = [], ev_Details = []\<rparr>"

abbreviation "LevelDebug \<equiv> ''debug''"
abbreviation "LevelInfo \<equiv> ''info''"
abbreviation "LevelWarn \<equiv> ''warn''"
abbreviation "LevelError \<equiv> ''error''"

abbreviation "ComponentKernel \<equiv> ''kernel''"
abbreviation "ComponentRPC \<equiv> ''rpc''"
abbreviation "ComponentAuth \<equiv> ''auth''"
abbreviation "ComponentRuntime \<equiv> ''runtime''"

abbreviation "EventManagerInitialized \<equiv> ''manager_initialized''"
abbreviation "EventPluginStartRequested \<equiv> ''plugin_start_requested''"
abbreviation "EventPluginStartFailed \<equiv> ''plugin_start_failed''"
abbreviation "EventPluginStarted \<equiv> ''plugin_started''"
abbreviation "EventPluginDialStarted \<equiv> ''plugin_dial_started''"
abbreviation "EventPluginDialSucceeded \<equiv> ''plugin_dial_succeeded''"
abbreviation "EventPluginDialFailed \<equiv> ''plugin_dial_failed''"
abbreviation "EventAuthStarted \<equiv> ''plugin_auth_started''"
abbreviation "EventAuthSucceeded \<equiv> ''plugin_auth_succeeded''"
abbreviation "EventAuthFailed \<equiv> ''plugin_auth_failed''"
abbreviation "EventPeerCredVerified \<equiv> ''plugin_peercred_verified''"
abbreviation "EventCapabilitiesStarted \<equiv> ''plugin_capabilities_started''"
abbreviation "EventCapabilitiesFailed \<equiv> ''plugin_capabilities_failed''"
abbreviation "EventCapabilitiesLoaded \<equiv> ''plugin_capabilities_loaded''"
abbreviation "EventHeartbeatHealthy \<equiv> ''heartbeat_healthy''"
abbreviation "EventHeartbeatUnhealthy \<equiv> ''heartbeat_unhealthy''"
abbreviation "EventHeartbeatFailed \<equiv> ''heartbeat_failed''"
abbreviation "EventRPCStarted \<equiv> ''rpc_call_started''"
abbreviation "EventRPCSucceeded \<equiv> ''rpc_call_succeeded''"
abbreviation "EventRPCFailed \<equiv> ''rpc_call_failed''"
abbreviation "EventRPCTimeout \<equiv> ''rpc_call_timeout''"
abbreviation "EventRPCPoisoned \<equiv> ''rpc_client_poisoned''"
abbreviation "EventRestartRequested \<equiv> ''plugin_restart_requested''"
abbreviation "EventRestartSucceeded \<equiv> ''plugin_restart_succeeded''"
abbreviation "EventRestartFailed \<equiv> ''plugin_restart_failed''"
abbreviation "EventShutdownRequested \<equiv> ''plugin_shutdown_requested''"
abbreviation "EventShutdownSucceeded \<equiv> ''plugin_shutdown_succeeded''"
abbreviation "EventShutdownFailed \<equiv> ''plugin_shutdown_failed''"
abbreviation "EventKillRequested \<equiv> ''plugin_kill_requested''"
abbreviation "EventPluginKilled \<equiv> ''plugin_killed''"
abbreviation "EventPluginStopped \<equiv> ''plugin_stopped''"
abbreviation "EventRuntimeCleanup \<equiv> ''runtime_cleanup_completed''"
abbreviation "EventRuntimeCleanupFailed \<equiv> ''runtime_cleanup_failed''"
abbreviation "EventLogRotated \<equiv> ''log_rotated''"

definition DefaultMaxBytes :: int where "DefaultMaxBytes = 8388608"
definition DefaultMaxBackups :: nat where "DefaultMaxBackups = 5"

section \<open>Logger\<close>

text \<open>
  \<open>lg_open\<close> is false once \<open>file\<close> is a closed descriptor. The logger closes its file before it renames
  anything and opens \<open>path\<close> again, so an open descriptor is always the file at \<open>path\<close>.
\<close>

record logger =
  lg_path :: path
  lg_open :: bool
  lg_maxBytes :: int
  lg_maxBackups :: nat

record log_options =
  lo_MaxBytes :: int
  lo_MaxBackups :: int

type_synonym files = "path \<Rightarrow> string option"

text \<open>
  Outcomes of the system calls of one \<open>Write\<close>; \<open>io_now\<close> and \<open>io_rotated\<close> are the clock when the event is
  completed and when a rotation event is made. A write that fails reports how many bytes reached the
  file first.
\<close>

record log_io =
  io_now :: gotime
  io_rotated :: gotime
  io_fstat :: "goerr option"
  io_close :: "goerr option"
  io_remove :: "path \<Rightarrow> bool"
  io_stat :: "path \<Rightarrow> goerr option"
  io_rename :: "path \<Rightarrow> path \<Rightarrow> goerr option"
  io_open :: "goerr option"
  io_write_rot :: "(nat \<times> goerr) option"
  io_sync_rot :: "goerr option"
  io_write :: "(nat \<times> goerr) option"
  io_sync :: "goerr option"

type_synonym encoder = "string event \<Rightarrow> goerr + string"

definition open_append :: "path \<Rightarrow> files \<Rightarrow> files" where
  "open_append p fs = (case fs p of None \<Rightarrow> fs(p \<mapsto> []) | Some _ \<Rightarrow> fs)"

definition NewWithOptions :: "path \<Rightarrow> log_options \<Rightarrow> goerr option \<Rightarrow> files \<Rightarrow> (goerr + logger) \<times> files" where
  "NewWithOptions p opts open_err fs =
     (let maxBytes = (if lo_MaxBytes opts \<le> 0 then DefaultMaxBytes else lo_MaxBytes opts);
          maxBackups = (if lo_MaxBackups opts \<le> 0 then DefaultMaxBackups else nat (lo_MaxBackups opts))
      in case open_err of
           Some e \<Rightarrow> (Inl (Wrapf ''open event log: %w'' [] e), fs)
         | None \<Rightarrow> (Inr \<lparr>lg_path = p, lg_open = True, lg_maxBytes = maxBytes, lg_maxBackups = maxBackups\<rparr>,
                    open_append p fs))"

definition NewLogger :: "path \<Rightarrow> goerr option \<Rightarrow> files \<Rightarrow> (goerr + logger) \<times> files" where
  "NewLogger p open_err fs = NewWithOptions p \<lparr>lo_MaxBytes = 0, lo_MaxBackups = 0\<rparr> open_err fs"

text \<open>\<open>(*Logger).Close\<close>: closing a closed file is an error of the operating system layer.\<close>

definition CloseLogger :: "goerr option \<Rightarrow> logger \<Rightarrow> goerr option \<times> logger" where
  "CloseLogger close_err l =
     (if \<not> lg_open l then (Some (SysErr None ''file already closed''), l)
      else (close_err, l\<lparr>lg_open := False\<rparr>))"

text \<open>\<open>Path\<close>; a nil logger is \<open>None\<close>.\<close>

definition LoggerPath :: "logger option \<Rightarrow> path" where
  "LoggerPath l = (case l of None \<Rightarrow> [] | Some l \<Rightarrow> lg_path l)"

definition backupPath :: "path \<Rightarrow> nat \<Rightarrow> path" where
  "backupPath p n =
     (let e = Ext p; b = take (length p - length e) p
      in if e = [] then p @ ''.'' @ dec n else b @ ''.'' @ dec n @ e)"

text \<open>\<open>os.Stat(path)\<close> succeeds: the file is there and the call does not fail.\<close>

definition stat_ok :: "log_io \<Rightarrow> files \<Rightarrow> path \<Rightarrow> bool" where
  "stat_ok io fs p \<longleftrightarrow> fs p \<noteq> None \<and> io_stat io p = None"

definition remove_file :: "log_io \<Rightarrow> path \<Rightarrow> files \<Rightarrow> files" where
  "remove_file io p fs = (if io_remove io p then fs(p := None) else fs)"

definition rename_file :: "path \<Rightarrow> path \<Rightarrow> files \<Rightarrow> files" where
  "rename_file old new fs = (fs(new := fs old))(old := None)"

text \<open>The loop \<open>for i := l.maxBackups; i >= 1; i--\<close>.\<close>

fun rotate_backups :: "log_io \<Rightarrow> path \<Rightarrow> nat \<Rightarrow> nat \<Rightarrow> files \<Rightarrow> goerr option \<times> files" where
  "rotate_backups io p mx 0 fs = (None, fs)"
| "rotate_backups io p mx (Suc k) fs =
     (let i = Suc k; oldPath = backupPath p i
      in if i = mx then rotate_backups io p mx k (remove_file io oldPath fs)
         else
           (let newPath = backupPath p (i + 1)
            in if stat_ok io fs oldPath then
                 (case io_rename io oldPath newPath of
                    Some e \<Rightarrow> (Some (Wrapf ''rotate backup %s -> %s: %w'' [FStr oldPath, FStr newPath] e), fs)
                  | None \<Rightarrow> rotate_backups io p mx k (rename_file oldPath newPath fs))
               else rotate_backups io p mx k fs))"

definition append_file :: "path \<Rightarrow> string \<Rightarrow> files \<Rightarrow> files" where
  "append_file p d fs = fs(p \<mapsto> (case fs p of None \<Rightarrow> [] | Some c \<Rightarrow> c) @ d)"

text \<open>\<open>writeFile\<close>: all bytes, or the first \<open>n\<close> of them and an error.\<close>

definition write_file :: "(nat \<times> goerr) option \<Rightarrow> path \<Rightarrow> string \<Rightarrow> files \<Rightarrow> goerr option \<times> files" where
  "write_file res p d fs =
     (case res of None \<Rightarrow> (None, append_file p d fs)
      | Some (n, e) \<Rightarrow> (Some e, append_file p (take n d) fs))"

definition reopenWithErr :: "log_io \<Rightarrow> goerr \<Rightarrow> logger \<Rightarrow> files \<Rightarrow> goerr option \<times> logger \<times> files" where
  "reopenWithErr io cause l fs =
     (case io_open io of
        None \<Rightarrow> (Some cause, l\<lparr>lg_open := True\<rparr>, open_append (lg_path l) fs)
      | Some _ \<Rightarrow> (Some cause, l, fs))"

definition rotationEvent :: "log_io \<Rightarrow> logger \<Rightarrow> string event" where
  "rotationEvent io l = (zero_event [])\<lparr>ev_Time := io_rotated io, ev_Level := LevelInfo,
     ev_Component := ComponentRuntime, ev_Event := EventLogRotated, ev_Message := ''event log rotated'',
     ev_Details := [(''path'', VString (lg_path l)), (''max_bytes'', VInt (lg_maxBytes l)),
                    (''max_backups'', VInt (int (lg_maxBackups l)))]\<rparr>"

text \<open>The part of \<open>rotateIfNeeded\<close> after the new current file has been opened.\<close>

definition write_rotation_event ::
  "encoder \<Rightarrow> log_io \<Rightarrow> logger \<Rightarrow> files \<Rightarrow> goerr option \<times> logger \<times> files" where
  "write_rotation_event enc io l fs =
     (case enc (rotationEvent io l) of
        Inl e \<Rightarrow> (Some (Wrapf ''marshal rotation event: %w'' [] e), l, fs)
      | Inr payload \<Rightarrow>
          (case write_file (io_write_rot io) (lg_path l) (payload @ [CHR 0x0A]) fs of
             (Some e, fs1) \<Rightarrow> (Some (Wrapf ''write rotation event: %w'' [] e), l, fs1)
           | (None, fs1) \<Rightarrow>
               (case io_sync_rot io of
                  Some e \<Rightarrow> (Some (Wrapf ''sync rotation event: %w'' [] e), l, fs1)
                | None \<Rightarrow> (None, l, fs1))))"

definition file_size :: "files \<Rightarrow> path \<Rightarrow> int" where
  "file_size fs p = int (case fs p of None \<Rightarrow> 0 | Some c \<Rightarrow> length c)"

definition rotateIfNeeded ::
  "encoder \<Rightarrow> log_io \<Rightarrow> int \<Rightarrow> logger \<Rightarrow> files \<Rightarrow> goerr option \<times> logger \<times> files" where
  "rotateIfNeeded enc io nextWriteBytes l fs =
     (if lg_maxBytes l \<le> 0 \<or> lg_path l = [] then (None, l, fs)
      else if \<not> lg_open l then
        (Some (Wrapf ''stat event log: %w'' [] (SysErr None ''use of closed file'')), l, fs)
      else (case io_fstat io of
        Some e \<Rightarrow> (Some (Wrapf ''stat event log: %w'' [] e), l, fs)
      | None \<Rightarrow>
          if file_size fs (lg_path l) + nextWriteBytes \<le> lg_maxBytes l then (None, l, fs)
          else (case io_close io of
            Some e \<Rightarrow> (Some (Wrapf ''close event log before rotate: %w'' [] e), l\<lparr>lg_open := False\<rparr>, fs)
          | None \<Rightarrow>
              (let l1 = l\<lparr>lg_open := False\<rparr>
               in case rotate_backups io (lg_path l) (lg_maxBackups l) (lg_maxBackups l) fs of
                    (Some e, fs1) \<Rightarrow> reopenWithErr io e l1 fs1
                  | (None, fs1) \<Rightarrow>
                      (let cur = lg_path l; b1 = backupPath cur 1
                       in if stat_ok io fs1 cur \<and> io_rename io cur b1 \<noteq> None then
                            reopenWithErr io (Wrapf ''rotate current log: %w'' [] (the (io_rename io cur b1))) l1 fs1
                          else
                            (let fs2 = (if stat_ok io fs1 cur then rename_file cur b1 fs1 else fs1)
                             in case io_open io of
                                  Some e \<Rightarrow> (Some (Wrapf ''open rotated event log: %w'' [] e), l1, fs2)
                                | None \<Rightarrow>
                                    write_rotation_event enc io (l1\<lparr>lg_open := True\<rparr>) (open_append cur fs2)))))))"

text \<open>\<open>(*Logger).Write\<close>: defaults, encoding, rotation, append, sync.\<close>

definition with_defaults :: "log_io \<Rightarrow> string event \<Rightarrow> string event" where
  "with_defaults io e =
     (let e1 = (if ev_Time e = 0 then e\<lparr>ev_Time := io_now io\<rparr> else e);
          e2 = (if ev_Level e1 = [] then e1\<lparr>ev_Level := LevelInfo\<rparr> else e1)
      in if ev_Component e2 = [] then e2\<lparr>ev_Component := ComponentKernel\<rparr> else e2)"

definition Write ::
  "encoder \<Rightarrow> log_io \<Rightarrow> string event \<Rightarrow> logger \<Rightarrow> files \<Rightarrow> goerr option \<times> logger \<times> files" where
  "Write enc io event l fs =
     (case enc (with_defaults io event) of
        Inl e \<Rightarrow> (Some (Wrapf ''marshal event: %w'' [] e), l, fs)
      | Inr payload \<Rightarrow>
          (let data = payload @ [CHR 0x0A]
           in case rotateIfNeeded enc io (int (length data)) l fs of
                (Some e, l1, fs1) \<Rightarrow> (Some e, l1, fs1)
              | (None, l1, fs1) \<Rightarrow>
                  if \<not> lg_open l1 then
                    (Some (Wrapf ''append event: %w'' [] (SysErr None ''file already closed'')), l1, fs1)
                  else (case write_file (io_write io) (lg_path l1) data fs1 of
                    (Some e, fs2) \<Rightarrow> (Some (Wrapf ''append event: %w'' [] e), l1, fs2)
                  | (None, fs2) \<Rightarrow>
                      (case io_sync io of
                         Some e \<Rightarrow> (Some (Wrapf ''sync event log: %w'' [] e), l1, fs2)
                       | None \<Rightarrow> (None, l1, fs2)))))"

section \<open>Vocabulary of the properties\<close>

text \<open>No system call fails.\<close>

definition io_fault_free :: "log_io \<Rightarrow> bool" where
  "io_fault_free io \<longleftrightarrow> io_fstat io = None \<and> io_close io = None \<and> io_remove io = (\<lambda>_. True)
     \<and> io_stat io = (\<lambda>_. None) \<and> io_rename io = (\<lambda>_ _. None) \<and> io_open io = None
     \<and> io_write_rot io = None \<and> io_sync_rot io = None \<and> io_write io = None \<and> io_sync io = None"

definition content :: "files \<Rightarrow> path \<Rightarrow> string" where
  "content fs p = (case fs p of None \<Rightarrow> [] | Some c \<Rightarrow> c)"

text \<open>The retained bytes, oldest first: backups \<open>n\<close> down to 1, then the current file.\<close>

fun backup_stream :: "path \<Rightarrow> nat \<Rightarrow> files \<Rightarrow> string" where
  "backup_stream p 0 fs = []"
| "backup_stream p (Suc k) fs = content fs (backupPath p (Suc k)) @ backup_stream p k fs"

definition log_stream :: "logger \<Rightarrow> files \<Rightarrow> string" where
  "log_stream l fs = backup_stream (lg_path l) (lg_maxBackups l) fs @ content fs (lg_path l)"

definition needs_rotation :: "logger \<Rightarrow> files \<Rightarrow> int \<Rightarrow> bool" where
  "needs_rotation l fs n \<longleftrightarrow> file_size fs (lg_path l) + n > lg_maxBytes l"

text \<open>
  What the stream keeps when a line of \<open>n\<close> bytes is about to be written: all of it, or, when that line
  forces a rotation, all but the oldest backup, followed by the rotation line \<open>rl\<close>.
\<close>

definition stream_kept :: "logger \<Rightarrow> files \<Rightarrow> int \<Rightarrow> string \<Rightarrow> string" where
  "stream_kept l fs n rl =
     (if needs_rotation l fs n
      then drop (length (content fs (backupPath (lg_path l) (lg_maxBackups l)))) (log_stream l fs)
             @ rl @ [CHR 0x0A]
      else log_stream l fs)"

definition outside_log :: "logger \<Rightarrow> path \<Rightarrow> bool" where
  "outside_log l q \<longleftrightarrow> q \<noteq> lg_path l \<and> (\<forall>j. q \<noteq> backupPath (lg_path l) (Suc j))"

text \<open>A usable logger: what \<open>New\<close> returns and every fault-free \<open>Write\<close> keeps.\<close>

definition logger_ok :: "logger \<Rightarrow> files \<Rightarrow> bool" where
  "logger_ok l fs \<longleftrightarrow> lg_open l \<and> lg_path l \<noteq> [] \<and> 0 < lg_maxBytes l \<and> 1 \<le> lg_maxBackups l
     \<and> fs (lg_path l) \<noteq> None"

section \<open>Backup names\<close>

lemma backupPath_split:
  "\<exists>b e. p = b @ e \<and> (\<forall>n. backupPath p n = b @ ''.'' @ dec n @ e)"
proof (cases "Ext p = []")
  case True
  then show ?thesis by (intro exI [of _ p] exI [of _ "[]"]) (auto simp: backupPath_def Let_def)
next
  case False
  have "p = take (length p - length (Ext p)) p @ Ext p"
    using Ext_suffix [of p] by (metis suffix_take)
  with False show ?thesis
    by (intro exI [of _ "take (length p - length (Ext p)) p"] exI [of _ "Ext p"])
      (auto simp: backupPath_def Let_def)
qed

lemma backupPath_inj [simp]: "backupPath p m = backupPath p n \<longleftrightarrow> m = n"
  using backupPath_split [of p] by (auto dest: dec_inj)

lemma backupPath_neq [simp]: "backupPath p n \<noteq> p" "p \<noteq> backupPath p n"
proof -
  obtain b e where be: "p = b @ e" "backupPath p n = b @ ''.'' @ dec n @ e"
    using backupPath_split [of p] by auto
  have "length (backupPath p n) > length p" unfolding be(2) using be(1) by simp
  then show "backupPath p n \<noteq> p" "p \<noteq> backupPath p n" by auto
qed

section \<open>Rotation\<close>

lemma stat_ok_fault_free: "io_fault_free io \<Longrightarrow> stat_ok io fs p \<longleftrightarrow> fs p \<noteq> None"
  by (simp add: io_fault_free_def stat_ok_def)

text \<open>
  Below the oldest backup every file moves up by one: slot \<open>j + 1\<close> holds what slot \<open>j\<close> held, slot 1
  is free, and no file outside the backup names changes.
\<close>

lemma rotate_backups_shift:
  assumes io: "io_fault_free io" and "k < mx" and "fs (backupPath p (Suc k)) = None"
  shows "\<exists>fs'. rotate_backups io p mx k fs = (None, fs')
    \<and> (\<forall>j. fs' (backupPath p (Suc j)) =
          (if j = 0 then None else if j \<le> k then fs (backupPath p j) else fs (backupPath p (Suc j))))
    \<and> (\<forall>q. (\<forall>j. q \<noteq> backupPath p (Suc j)) \<longrightarrow> fs' q = fs q)"
  using assms(2,3)
proof (induction k arbitrary: fs)
  case 0
  then show ?case by auto
next
  case (Suc k)
  let ?b = "backupPath p"
  let ?fs1 = "if fs (?b (Suc k)) \<noteq> None then rename_file (?b (Suc k)) (?b (Suc (Suc k))) fs else fs"
  have step: "rotate_backups io p mx (Suc k) fs = rotate_backups io p mx k ?fs1"
    using Suc.prems(1) io
    by (simp add: Let_def stat_ok_fault_free) (auto simp: io_fault_free_def)
  have free: "?fs1 (?b (Suc k)) = None" by (auto simp: rename_file_def)
  have up: "?fs1 (?b (Suc (Suc k))) = fs (?b (Suc k))"
    using Suc.prems(2) by (auto simp: rename_file_def)
  have same: "?fs1 q = fs q" if "q \<noteq> ?b (Suc k)" "q \<noteq> ?b (Suc (Suc k))" for q
    using that by (auto simp: rename_file_def)
  have "k < mx" using Suc.prems(1) by simp
  from Suc.IH [of ?fs1, OF this free] obtain fs' where
    r: "rotate_backups io p mx k ?fs1 = (None, fs')" and
    sl: "\<forall>j. fs' (?b (Suc j)) = (if j = 0 then None else if j \<le> k then ?fs1 (?b j) else ?fs1 (?b (Suc j)))" and
    out: "\<forall>q. (\<forall>j. q \<noteq> ?b (Suc j)) \<longrightarrow> fs' q = ?fs1 q"
    by blast
  have "fs' (?b (Suc j)) =
      (if j = 0 then None else if j \<le> Suc k then fs (?b j) else fs (?b (Suc j)))" for j
  proof -
    consider "j = 0" | "1 \<le> j" "j \<le> k" | "j = Suc k" | "j > Suc k" by linarith
    then show ?thesis
    proof cases
      case 2
      then show ?thesis using sl same [of "?b j"] by simp
    next
      case 3
      then show ?thesis using sl up by simp
    next
      case 4
      then show ?thesis using sl same [of "?b (Suc j)"] by simp
    qed (use sl in simp)
  qed
  moreover have "fs' q = fs q" if "\<forall>j. q \<noteq> ?b (Suc j)" for q
    using that out same [of q] by simp
  ultimately show ?case using step r by auto
qed

lemma rotate_backups_all:
  assumes io: "io_fault_free io" and mx: "1 \<le> mx"
  shows "\<exists>fs'. rotate_backups io p mx mx fs = (None, fs')
    \<and> (\<forall>j. fs' (backupPath p (Suc j)) =
          (if j = 0 then None else if j < mx then fs (backupPath p j) else fs (backupPath p (Suc j))))
    \<and> (\<forall>q. (\<forall>j. q \<noteq> backupPath p (Suc j)) \<longrightarrow> fs' q = fs q)"
proof -
  obtain k where k: "mx = Suc k" using mx by (cases mx) auto
  let ?fs0 = "fs(backupPath p (Suc k) := None)"
  have step: "rotate_backups io p mx mx fs = rotate_backups io p mx k ?fs0"
    using io by (simp add: k Let_def remove_file_def io_fault_free_def)
  have "\<exists>fs'. rotate_backups io p mx k ?fs0 = (None, fs')
    \<and> (\<forall>j. fs' (backupPath p (Suc j)) =
          (if j = 0 then None else if j \<le> k then ?fs0 (backupPath p j) else ?fs0 (backupPath p (Suc j))))
    \<and> (\<forall>q. (\<forall>j. q \<noteq> backupPath p (Suc j)) \<longrightarrow> fs' q = ?fs0 q)"
    by (rule rotate_backups_shift [OF io]) (simp_all add: k)
  then obtain fs' where fs': "rotate_backups io p mx k ?fs0 = (None, fs')"
    "\<forall>j. fs' (backupPath p (Suc j)) =
          (if j = 0 then None else if j \<le> k then ?fs0 (backupPath p j) else ?fs0 (backupPath p (Suc j)))"
    "\<forall>q. (\<forall>j. q \<noteq> backupPath p (Suc j)) \<longrightarrow> fs' q = ?fs0 q"
    by blast
  then show ?thesis unfolding step by (intro exI [of _ fs']) (auto simp: k)
qed

text \<open>The files after a fault-free rotation, before the rotation event is written.\<close>

definition rotated_files :: "path \<Rightarrow> nat \<Rightarrow> files \<Rightarrow> files \<Rightarrow> bool" where
  "rotated_files p mx fs fs' \<longleftrightarrow>
     fs' p = Some [] \<and> fs' (backupPath p 1) = fs p
     \<and> (\<forall>j. 1 \<le> j \<and> j < mx \<longrightarrow> fs' (backupPath p (Suc j)) = fs (backupPath p j))
     \<and> (\<forall>j. j \<ge> mx \<longrightarrow> 1 \<le> j \<longrightarrow> fs' (backupPath p (Suc j)) = fs (backupPath p (Suc j)))
     \<and> (\<forall>q. q \<noteq> p \<longrightarrow> (\<forall>j. q \<noteq> backupPath p (Suc j)) \<longrightarrow> fs' q = fs q)"

lemma rotateIfNeeded_rotates:
  assumes io: "io_fault_free io" and ok: "logger_ok l fs" and "needs_rotation l fs n"
  shows "\<exists>fs'. rotated_files (lg_path l) (lg_maxBackups l) fs fs'
    \<and> rotateIfNeeded enc io n l fs = write_rotation_event enc io l fs'"
proof -
  let ?p = "lg_path l" and ?mx = "lg_maxBackups l"
  obtain fs1 where fs1: "rotate_backups io ?p ?mx ?mx fs = (None, fs1)"
    "\<forall>j. fs1 (backupPath ?p (Suc j)) =
        (if j = 0 then None else if j < ?mx then fs (backupPath ?p j) else fs (backupPath ?p (Suc j)))"
    "\<forall>q. (\<forall>j. q \<noteq> backupPath ?p (Suc j)) \<longrightarrow> fs1 q = fs q"
    using rotate_backups_all [OF io] ok by (metis logger_ok_def)
  let ?fs3 = "open_append ?p (rename_file ?p (backupPath ?p 1) fs1)"
  have cur: "fs1 ?p = fs ?p" "fs ?p \<noteq> None" using fs1(3) ok by (auto simp: logger_ok_def)
  have l: "l\<lparr>lg_open := True\<rparr> = l" using ok by (simp add: logger_ok_def)
  have "rotateIfNeeded enc io n l fs = write_rotation_event enc io l ?fs3"
    using assms cur fs1(1)
    by (auto simp: l rotateIfNeeded_def logger_ok_def needs_rotation_def io_fault_free_def Let_def stat_ok_def)
  moreover have "rotated_files ?p ?mx fs ?fs3"
    unfolding rotated_files_def
  proof (intro conjI allI impI)
    show "?fs3 ?p = Some []" by (simp add: open_append_def rename_file_def)
    show "?fs3 (backupPath ?p 1) = fs ?p"
      using cur by (simp add: open_append_def rename_file_def)
  next
    fix j assume "1 \<le> j \<and> j < ?mx"
    then show "?fs3 (backupPath ?p (Suc j)) = fs (backupPath ?p j)"
      using fs1(2) by (simp add: open_append_def rename_file_def)
  next
    fix j assume "?mx \<le> j" "1 \<le> j"
    then show "?fs3 (backupPath ?p (Suc j)) = fs (backupPath ?p (Suc j))"
      using fs1(2) by (simp add: open_append_def rename_file_def)
  next
    fix q assume "q \<noteq> ?p" "\<forall>j. q \<noteq> backupPath ?p (Suc j)"
    then show "?fs3 q = fs q"
      using fs1(3) by (auto simp: open_append_def rename_file_def)
  qed
  ultimately show ?thesis by blast
qed

lemma rotateIfNeeded_keeps:
  "io_fault_free io \<Longrightarrow> logger_ok l fs \<Longrightarrow> \<not> needs_rotation l fs n
   \<Longrightarrow> rotateIfNeeded enc io n l fs = (None, l, fs)"
  by (simp add: rotateIfNeeded_def logger_ok_def needs_rotation_def io_fault_free_def)

section \<open>The retained stream\<close>

lemma content_append [simp]:
  "content (append_file p d fs) q = (if q = p then content fs p @ d else content fs q)"
  by (auto simp: content_def append_file_def split: option.splits)

lemma backup_stream_append [simp]: "backup_stream p k (append_file p d fs) = backup_stream p k fs"
  by (induction k) simp_all

lemma log_stream_append: "log_stream l (append_file (lg_path l) d fs) = log_stream l fs @ d"
  by (simp add: log_stream_def)

lemma backup_stream_rotated:
  assumes "rotated_files p mx fs fs'" and "k < mx"
  shows "backup_stream p (Suc k) fs' = backup_stream p k fs @ content fs p"
  using assms(2)
proof (induction k)
  case 0
  then show ?case using assms(1) by (simp add: rotated_files_def content_def)
next
  case (Suc k)
  have "content fs' (backupPath p (Suc (Suc k))) = content fs (backupPath p (Suc k))"
    using assms(1) Suc.prems by (simp add: rotated_files_def content_def)
  with Suc show ?case by simp
qed

text \<open>A rotation drops the oldest backup from the front of the stream and nothing else.\<close>

lemma log_stream_rotated:
  assumes "rotated_files (lg_path l) (lg_maxBackups l) fs fs'" and "1 \<le> lg_maxBackups l"
  shows "log_stream l fs' =
    drop (length (content fs (backupPath (lg_path l) (lg_maxBackups l)))) (log_stream l fs)"
proof -
  obtain k where k: "lg_maxBackups l = Suc k" using assms(2) by (cases "lg_maxBackups l") auto
  have "content fs' (lg_path l) = []"
    using assms(1) by (simp add: rotated_files_def content_def)
  then show ?thesis
    using backup_stream_rotated [OF assms(1), of k] by (simp add: log_stream_def k)
qed

lemma write_rotation_event_ok:
  "io_fault_free io \<Longrightarrow> enc (rotationEvent io l) = Inr rl \<Longrightarrow>
   write_rotation_event enc io l fs = (None, l, append_file (lg_path l) (rl @ [CHR 0x0A]) fs)"
  by (simp add: write_rotation_event_def io_fault_free_def write_file_def)

text \<open>The files just before the event line is appended.\<close>

lemma rotateIfNeeded_ok:
  assumes io: "io_fault_free io" and ok: "logger_ok l fs" and rl: "enc (rotationEvent io l) = Inr rl"
  shows "\<exists>fs1. rotateIfNeeded enc io n l fs = (None, l, fs1) \<and> fs1 (lg_path l) \<noteq> None
    \<and> log_stream l fs1 =
        stream_kept l fs n rl
    \<and> (\<forall>q. outside_log l q \<longrightarrow> fs1 q = fs q)"
proof (cases "needs_rotation l fs n")
  case True
  from rotateIfNeeded_rotates [OF io ok this] obtain fs' where
    r: "rotated_files (lg_path l) (lg_maxBackups l) fs fs'" and
    eq: "rotateIfNeeded enc io n l fs = write_rotation_event enc io l fs'" by blast
  have "1 \<le> lg_maxBackups l" using ok by (simp add: logger_ok_def)
  note st = log_stream_rotated [OF r this]
  let ?fs1 = "append_file (lg_path l) (rl @ [CHR 0x0A]) fs'"
  have "rotateIfNeeded enc io n l fs = (None, l, ?fs1)"
    unfolding eq by (rule write_rotation_event_ok [of io enc l rl fs', OF io rl])
  moreover have "?fs1 (lg_path l) \<noteq> None" by (simp add: append_file_def)
  moreover have "log_stream l ?fs1 = stream_kept l fs n rl"
    using True st by (simp add: log_stream_append stream_kept_def)
  moreover have "\<forall>q. outside_log l q \<longrightarrow> ?fs1 q = fs q"
    using r by (simp add: rotated_files_def outside_log_def append_file_def)
  ultimately show ?thesis by blast
next
  case False
  then show ?thesis
    using rotateIfNeeded_keeps [OF io ok False] ok by (auto simp: logger_ok_def stream_kept_def)
qed

lemma Write_ok:
  assumes io: "io_fault_free io" and ok: "logger_ok l fs"
    and pl: "enc (with_defaults io e) = Inr pl" and rl: "enc (rotationEvent io l) = Inr rl"
  shows "\<exists>fs'. Write enc io e l fs = (None, l, fs') \<and> logger_ok l fs'
    \<and> log_stream l fs' =
        stream_kept l fs (int (length pl) + 1) rl @ pl @ [CHR 0x0A]
    \<and> (\<forall>q. outside_log l q \<longrightarrow> fs' q = fs q)"
proof -
  from rotateIfNeeded_ok [of io l fs enc rl "int (length pl) + 1", OF io ok rl] obtain fs1 where
    r: "rotateIfNeeded enc io (int (length pl) + 1) l fs = (None, l, fs1)" "fs1 (lg_path l) \<noteq> None" and
    st: "log_stream l fs1 =
        stream_kept l fs (int (length pl) + 1) rl" and
    out: "\<forall>q. outside_log l q \<longrightarrow> fs1 q = fs q"
    by blast
  let ?fs' = "append_file (lg_path l) (pl @ [CHR 0x0A]) fs1"
  have "lg_open l" using ok by (simp add: logger_ok_def)
  then have "Write enc io e l fs = (None, l, ?fs')"
    using io pl r(1) by (simp add: Write_def Let_def io_fault_free_def write_file_def add.commute)
  moreover have "logger_ok l ?fs'"
    using ok by (simp add: logger_ok_def append_file_def)
  moreover have "log_stream l ?fs' = log_stream l fs1 @ pl @ [CHR 0x0A]"
    by (simp add: log_stream_append)
  moreover have "\<forall>q. outside_log l q \<longrightarrow> ?fs' q = fs q"
    using out by (simp add: append_file_def outside_log_def)
  ultimately show ?thesis using st by (intro exI [of _ ?fs']) simp
qed

lemma NewWithOptions_ok:
  "p \<noteq> [] \<Longrightarrow> NewWithOptions p opts None fs = (r, fs') \<Longrightarrow> \<exists>l. r = Inr l \<and> lg_path l = p \<and> logger_ok l fs'"
  by (auto simp: NewWithOptions_def Let_def logger_ok_def open_append_def DefaultMaxBackups_def
      DefaultMaxBytes_def split: option.splits)

section \<open>Properties\<close>

text \<open>
  C26: a fault-free \<open>Write\<close> returns no error, keeps the logger usable and appends exactly one line.
  The retained byte stream (backups \<open>maxBackups\<close> to 1, then the current file) keeps everything it
  had, except that a rotation drops the oldest backup as a whole and inserts the rotation line before
  the new one; files that are neither the log nor one of its backups are untouched.
\<close>

theorem Write_appends_to_stream:
  assumes "io_fault_free io" and "logger_ok l fs"
    and "enc (with_defaults io e) = Inr pl" and "enc (rotationEvent io l) = Inr rl"
    and "Write enc io e l fs = (res, l', fs')"
  shows "res = None \<and> l' = l \<and> logger_ok l fs'
    \<and> log_stream l fs' =
        stream_kept l fs (int (length pl) + 1) rl @ pl @ [CHR 0x0A]
    \<and> (\<forall>q. outside_log l q \<longrightarrow> fs' q = fs q)"
  using Write_ok [of io l fs enc e pl rl, OF assms(1-4)] assms(5) by auto

definition quiet_io :: log_io where
  "quiet_io = \<lparr>io_now = 1, io_rotated = 1, io_fstat = None, io_close = None, io_remove = (\<lambda>_. True),
     io_stat = (\<lambda>_. None), io_rename = (\<lambda>_ _. None), io_open = None, io_write_rot = None,
     io_sync_rot = None, io_write = None, io_sync = None\<rparr>"

theorem Write_appends_to_stream_witness:
  "let l = \<lparr>lg_path = ''a.log'', lg_open = True, lg_maxBytes = 4, lg_maxBackups = 1\<rparr>;
       fs = [''a.log'' \<mapsto> ''xyz'', ''a.1.log'' \<mapsto> ''old'']
   in fst (Write (\<lambda>_. Inr ''{}'') quiet_io (zero_event []) l fs) = None
      \<and> log_stream l (snd (snd (Write (\<lambda>_. Inr ''{}'') quiet_io (zero_event []) l fs)))
          = ''xyz'' @ ''{}'' @ [CHR 0x0A] @ ''{}'' @ [CHR 0x0A]"
proof -
  let ?l = "\<lparr>lg_path = ''a.log'', lg_open = True, lg_maxBytes = 4, lg_maxBackups = 1\<rparr>"
  let ?fs = "[''a.log'' \<mapsto> ''xyz'', ''a.1.log'' \<mapsto> ''old'']"
  obtain r l' fs' where w: "Write (\<lambda>_. Inr ''{}'') quiet_io (zero_event []) ?l ?fs = (r, l', fs')"
    by (metis prod_cases3)
  have b1: "backupPath ''a.log'' (Suc 0) = ''a.1.log''"
    by (simp add: backupPath_def Ext_def Let_def dec.simps digit_char_def) code_simp
  have io: "io_fault_free quiet_io" by (simp add: io_fault_free_def quiet_io_def)
  have ok: "logger_ok ?l ?fs" by (simp add: logger_ok_def)
  have "r = None \<and> log_stream ?l fs' = stream_kept ?l ?fs 3 ''{}'' @ ''{}'' @ [CHR 0x0A]"
    using Write_appends_to_stream [OF io ok _ _ w, of "''{}''" "''{}''"] by simp
  moreover have "stream_kept ?l ?fs 3 ''{}'' = ''xyz{}'' @ [CHR 0x0A]"
    by (simp add: stream_kept_def needs_rotation_def file_size_def log_stream_def content_def b1)
  ultimately show ?thesis unfolding Let_def w by simp
qed

text \<open>
  A rotation whose reopen fails leaves the logger with a closed file, and from then on every
  \<open>Write\<close> fails before anything is written, whatever the later system calls return: the logger never
  recovers by itself.
\<close>

theorem failed_reopen_is_permanent:
  assumes "logger_ok l fs" and "needs_rotation l fs n"
    and "io_fstat io = None" and "io_close io = None" and "io_open io = Some e0"
    and "rotateIfNeeded enc io n l fs = (res, l1, fs1)"
  shows "res \<noteq> None \<and> \<not> lg_open l1
    \<and> (\<forall>io' e. fst (Write enc io' e l1 fs1) \<noteq> None \<and> snd (Write enc io' e l1 fs1) = (l1, fs1))"
proof -
  have l1: "res \<noteq> None \<and> l1 = l\<lparr>lg_open := False\<rparr>"
    using assms
    by (auto simp: rotateIfNeeded_def logger_ok_def needs_rotation_def Let_def reopenWithErr_def
        split: prod.splits option.splits if_splits)
  then have "\<not> lg_open l1" "lg_path l1 \<noteq> []" "0 < lg_maxBytes l1"
    using assms(1) by (auto simp: logger_ok_def)
  then show ?thesis
    using l1 by (auto simp: Write_def Let_def rotateIfNeeded_def split: sum.splits)
qed

theorem failed_reopen_witness:
  "let l = \<lparr>lg_path = ''a.log'', lg_open = True, lg_maxBytes = 2, lg_maxBackups = 1\<rparr>;
       io = quiet_io\<lparr>io_open := Some (SysErr None ''EMFILE'')\<rparr>;
       (res, l1, fs1) = rotateIfNeeded (\<lambda>_. Inr ''{}'') io 3 l [''a.log'' \<mapsto> ''x'']
   in res \<noteq> None \<and> fst (Write (\<lambda>_. Inr ''{}'') quiet_io (zero_event []) l1 fs1) \<noteq> None"
proof -
  let ?l = "\<lparr>lg_path = ''a.log'', lg_open = True, lg_maxBytes = 2, lg_maxBackups = 1\<rparr>"
  let ?io = "quiet_io\<lparr>io_open := Some (SysErr None ''EMFILE'')\<rparr>"
  obtain r l1 fs1 where
    w: "rotateIfNeeded (\<lambda>_. Inr ''{}'') ?io 3 ?l [''a.log'' \<mapsto> ''x''] = (r, l1, fs1)"
    by (metis prod_cases3)
  have h: "logger_ok ?l [''a.log'' \<mapsto> ''x'']" "needs_rotation ?l [''a.log'' \<mapsto> ''x''] 3"
    "io_fstat ?io = None" "io_close ?io = None" "io_open ?io = Some (SysErr None ''EMFILE'')"
    by (simp_all add: logger_ok_def needs_rotation_def file_size_def quiet_io_def)
  from failed_reopen_is_permanent [OF h w] show ?thesis unfolding Let_def w by simp
qed

end
