(* ===== verification/Event_Provider.thy ===== *)
theory Event_Provider
  imports Event_Log
begin

text \<open>
  Provider observability (\<open>src/src/internal/eventlog/provider.go\<close> and the display redaction of
  \<open>src/src/internal/eventlog/read.go\<close>): validation of a provider observation, its conversion to the
  durable event, and the redaction an operator sees. The contract of a redactor is the locale
  \<open>redactor\<close>; the lemmas show that an accepted observation carries no unsafe text at any depth of its
  details, that redaction removes unsafe text and is idempotent, and that redaction leaves every
  accepted event alone.
\<close>

section \<open>Vocabulary\<close>

abbreviation "ComponentProviderBoundary \<equiv> ''provider_boundary''"
abbreviation "ComponentProviderDiagnostic \<equiv> ''provider_diagnostic''"

abbreviation "EventProviderOperationStarted \<equiv> ''provider_operation_started''"
abbreviation "EventProviderOperationSucceeded \<equiv> ''provider_operation_succeeded''"
abbreviation "EventProviderOperationFailed \<equiv> ''provider_operation_failed''"
abbreviation "EventProviderOperationDegraded \<equiv> ''provider_operation_degraded''"
abbreviation "EventProviderOperationUnavailable \<equiv> ''provider_operation_unavailable''"
abbreviation "EventProviderDiagnosticReported \<equiv> ''provider_diagnostic_reported''"
abbreviation "EventProviderDiagnosticRejected \<equiv> ''provider_diagnostic_rejected''"

abbreviation "ProviderStatusStarted \<equiv> ''started''"
abbreviation "ProviderStatusSucceeded \<equiv> ''succeeded''"
abbreviation "ProviderStatusFailed \<equiv> ''failed''"
abbreviation "ProviderStatusDegraded \<equiv> ''degraded''"
abbreviation "ProviderStatusUnavailable \<equiv> ''unavailable''"
abbreviation "ProviderStatusRejected \<equiv> ''rejected''"

definition ProviderRedactedValue :: string where
  "ProviderRedactedValue = ''[redacted]''"

definition providerEventStatus :: "(string \<times> string) list" where
  "providerEventStatus =
     [(EventProviderOperationStarted, ProviderStatusStarted), (EventProviderOperationSucceeded, ProviderStatusSucceeded),
      (EventProviderOperationFailed, ProviderStatusFailed), (EventProviderOperationDegraded, ProviderStatusDegraded),
      (EventProviderOperationUnavailable, ProviderStatusUnavailable),
      (EventProviderDiagnosticRejected, ProviderStatusRejected)]"

definition providerStatuses :: "string list" where
  "providerStatuses = [ProviderStatusStarted, ProviderStatusSucceeded, ProviderStatusFailed, ProviderStatusDegraded, ProviderStatusUnavailable, ProviderStatusRejected]"

definition unsafeDetailMarkers :: "string list" where
  "unsafeDetailMarkers =
     [''raw_prompt'', ''prompt'', ''payload'', ''request_body'', ''response_body'', ''body'',
      ''credential'', ''credentials'', ''secret'', ''client_secret'', ''token'', ''access_token'',
      ''refresh_token'', ''password'', ''passwd'', ''api_key'', ''apikey'', ''private_key'',
      ''privatekey'', ''bearer'', ''authorization'', ''jwt'', ''oauth'', ''authority'',
      ''authority_ref'', ''authority-use-ref'', ''authority_use_ref'', ''use_ref'', ''handle'',
      ''socket'', ''session'', ''signer'', ''path'', ''filepath'', ''file_path'', ''absolute_path'']"

section \<open>Unsafe text\<close>

definition replace_separators :: "string \<Rightarrow> string" where
  "replace_separators =
     map (\<lambda>c. if c = CHR ''-'' \<or> c = CHR '' '' \<or> c = CHR ''.'' \<or> c = CHR '':'' then CHR ''_'' else c)"

definition UnsafeProviderText :: "string \<Rightarrow> bool" where
  "UnsafeProviderText text =
     (let normalized = ToLower (replace_separators text)
      in list_ex (\<lambda>marker. contains normalized (ToLower marker)) unsafeDetailMarkers)"

definition looksLikeProviderPrivatePath :: "string \<Rightarrow> bool" where
  "looksLikeProviderPrivatePath text =
     (case TrimSpace text of
        [] \<Rightarrow> False
      | trimmed \<Rightarrow> IsAbs trimmed \<or>
          (case trimmed of
             a # b # c # _ \<Rightarrow> is_latin1_letter a \<and> b = CHR '':'' \<and> (c = CHR 0x5C \<or> c = CHR ''/'')
           | _ \<Rightarrow> False))"

abbreviation unsafe_text :: "string \<Rightarrow> bool" where
  "unsafe_text v \<equiv> UnsafeProviderText v \<or> looksLikeProviderPrivatePath v"

section \<open>Validation\<close>

record provider_observation =
  ob_Level :: string
  ob_Component :: string
  ob_Event :: string
  ob_PluginID :: string
  ob_GenerationID :: uint64
  ob_CapabilityID :: string
  ob_OperationID :: string
  ob_CorrelationID :: string
  ob_Status :: string
  ob_DurationMS :: int
  ob_ErrorClass :: string
  ob_DegradedReason :: string
  ob_Message :: string
  ob_Details :: details

text \<open>\<open>providerPluginIDPattern\<close>, the same expression as the kernel's \<open>pluginIDPattern\<close>.\<close>

definition providerPluginIDPattern :: "string \<Rightarrow> bool" where
  "providerPluginIDPattern s =
     (case s of [] \<Rightarrow> False
      | c # cs \<Rightarrow> is_alnum c \<and> list_all (\<lambda>d. is_alnum d \<or> d = CHR ''.'' \<or> d = CHR ''_'' \<or> d = CHR ''-'') cs)"

definition validateSafeProviderText :: "string \<Rightarrow> string \<Rightarrow> goerr option" where
  "validateSafeProviderText name v =
     (if blank v then None
      else if has_control v then Some (Errorf ''%s contains control characters'' [FStr name])
      else if unsafe_text v then Some (Errorf ''unsafe provider %s'' [FStr name])
      else None)"

definition requireProviderField :: "string \<Rightarrow> string \<Rightarrow> goerr option" where
  "requireProviderField name v =
     (if blank v then Some (Errorf ''%s is required'' [FStr name])
      else validateSafeProviderText name v)"

definition validateProviderEventComponent :: "string \<Rightarrow> string \<Rightarrow> string \<Rightarrow> goerr option" where
  "validateProviderEventComponent component event status =
     (if event \<in> set [EventProviderOperationStarted, EventProviderOperationSucceeded,
           EventProviderOperationFailed, EventProviderOperationDegraded,
           EventProviderOperationUnavailable] then
        (if component \<noteq> ComponentProviderBoundary then
           Some (Errorf ''provider boundary event %q requires component %q'' [FStr event, FStr ComponentProviderBoundary])
         else if map_of providerEventStatus event \<noteq> Some status then
           Some (Errorf ''provider event %q requires status %q'' [FStr event, FStr (the (map_of providerEventStatus event))])
         else None)
      else if event = EventProviderDiagnosticReported then
        (if component \<noteq> ComponentProviderDiagnostic then
           Some (Errorf ''provider diagnostic event %q requires component %q'' [FStr event, FStr ComponentProviderDiagnostic])
         else None)
      else if event = EventProviderDiagnosticRejected then
        (if component \<noteq> ComponentProviderDiagnostic then
           Some (Errorf ''provider diagnostic event %q requires component %q'' [FStr event, FStr ComponentProviderDiagnostic])
         else if status \<noteq> ProviderStatusRejected then
           Some (Errorf ''provider event %q requires status %q'' [FStr event, FStr ProviderStatusRejected])
         else None)
      else Some (Errorf ''unknown provider event %q'' [FStr event]))"

text \<open>The first error of a sequence of checks (\<open>if err := ...; err != nil { return err }\<close>).\<close>

fun first_err :: "goerr option list \<Rightarrow> goerr option" where
  "first_err [] = None"
| "first_err (None # cs) = first_err cs"
| "first_err (Some e # cs) = Some e"

definition validateProviderObservation :: "provider_observation \<Rightarrow> goerr option" where
  "validateProviderObservation obs =
     (if \<not> providerPluginIDPattern (ob_PluginID obs) then Some (Errorf ''invalid plugin id %q'' [FStr (ob_PluginID obs)])
      else if ob_GenerationID obs = 0 then Some (err ''generation id is required'')
      else first_err
        [requireProviderField ''capability id'' (ob_CapabilityID obs),
         requireProviderField ''operation id'' (ob_OperationID obs),
         requireProviderField ''correlation id'' (ob_CorrelationID obs),
         validateSafeProviderText ''capability id'' (ob_CapabilityID obs),
         validateSafeProviderText ''operation id'' (ob_OperationID obs),
         validateSafeProviderText ''correlation id'' (ob_CorrelationID obs),
         validateSafeProviderText ''error class'' (ob_ErrorClass obs),
         validateSafeProviderText ''degraded reason'' (ob_DegradedReason obs),
         validateSafeProviderText ''message'' (ob_Message obs),
         (if ob_DurationMS obs < 0 then Some (err ''duration_ms must be non-negative'') else None),
         (if ob_Status obs \<notin> set providerStatuses then Some (Errorf ''unknown provider status %q'' [FStr (ob_Status obs)]) else None),
         validateProviderEventComponent (ob_Component obs) (ob_Event obs) (ob_Status obs)])"

text \<open>
  \<open>validateProviderDetailValue\<close> and \<open>safeProviderDetails\<close> call each other on nested lists and maps. The
  entries are checked in the order the \<open>range\<close> loop visits them.
\<close>

definition unsafe_detail :: "string \<Rightarrow> goerr" where
  "unsafe_detail key = Errorf ''unsafe provider detail value for key %q'' [FStr key]"

fun validateProviderDetailValue :: "string \<Rightarrow> any \<Rightarrow> goerr option"
  and validate_items :: "string \<Rightarrow> any list \<Rightarrow> goerr option"
  and validate_entries :: "(string \<times> any) list \<Rightarrow> goerr option" where
  "validateProviderDetailValue key VNil = None"
| "validateProviderDetailValue key (VBool _) = None"
| "validateProviderDetailValue key (VInt _) = None"
| "validateProviderDetailValue key (VFloat _) = None"
| "validateProviderDetailValue key (VString v) = (if unsafe_text v then Some (unsafe_detail key) else None)"
| "validateProviderDetailValue key (VStrings vs) =
     (if list_ex (\<lambda>v. unsafe_text v) vs then Some (unsafe_detail key) else None)"
| "validateProviderDetailValue key (VList vs) = validate_items key vs"
| "validateProviderDetailValue key (VMap m) = validate_entries m"
| "validateProviderDetailValue key VOther =
     Some (Errorf ''unsupported provider detail value for key %q'' [FStr key])"
| "validate_items key [] = None"
| "validate_items key (v # vs) =
     (case validateProviderDetailValue key v of Some e \<Rightarrow> Some e | None \<Rightarrow> validate_items key vs)"
| "validate_entries [] = None"
| "validate_entries ((k, v) # m) =
     (if UnsafeProviderText k then Some (Errorf ''unsafe provider detail key %q'' [FStr k])
      else (case validateProviderDetailValue k v of Some e \<Rightarrow> Some e | None \<Rightarrow> validate_entries m))"

text \<open>The copy \<open>safe\<close> has the same entries; a nil map and an empty map are the same value here.\<close>

definition safeProviderDetails :: "details \<Rightarrow> goerr + details" where
  "safeProviderDetails m = (case validate_entries m of Some e \<Rightarrow> Inl e | None \<Rightarrow> Inr m)"

definition ProviderEvent :: "provider_observation \<Rightarrow> goerr + string event" where
  "ProviderEvent obs =
     (case validateProviderObservation obs of
        Some e \<Rightarrow> Inl e
      | None \<Rightarrow>
          (case safeProviderDetails (ob_Details obs) of
             Inl e \<Rightarrow> Inl e
           | Inr details \<Rightarrow>
               Inr ((zero_event [])\<lparr>
                 ev_Level := (if ob_Level obs = [] then LevelInfo else ob_Level obs),
                 ev_Component := ob_Component obs, ev_Event := ob_Event obs,
                 ev_PluginID := ob_PluginID obs, ev_GenerationID := ob_GenerationID obs,
                 ev_CapabilityID := ob_CapabilityID obs, ev_OperationID := ob_OperationID obs,
                 ev_CorrelationID := ob_CorrelationID obs, ev_Status := ob_Status obs,
                 ev_DurationMS := ob_DurationMS obs, ev_ErrorClass := ob_ErrorClass obs,
                 ev_DegradedReason := ob_DegradedReason obs, ev_Message := ob_Message obs,
                 ev_Details := details\<rparr>)))"

section \<open>Redaction for display\<close>

definition isProviderObservationEvent :: "'e event \<Rightarrow> bool" where
  "isProviderObservationEvent e \<longleftrightarrow>
     ev_Component e \<in> set [ComponentProviderBoundary, ComponentProviderDiagnostic]
     \<or> ev_Event e \<in> set [EventProviderOperationStarted, EventProviderOperationSucceeded,
          EventProviderOperationFailed, EventProviderOperationDegraded,
          EventProviderOperationUnavailable, EventProviderDiagnosticReported,
          EventProviderDiagnosticRejected]"

definition redact :: "string \<Rightarrow> string" where
  "redact v = (if v = [] then [] else if unsafe_text v then ProviderRedactedValue else v)"

definition RedactForDisplay :: "string event \<Rightarrow> string event" where
  "RedactForDisplay e =
     (if \<not> isProviderObservationEvent e then e
      else e\<lparr>ev_SocketPath := redact (ev_SocketPath e), ev_CapabilityID := redact (ev_CapabilityID e),
             ev_OperationID := redact (ev_OperationID e), ev_CorrelationID := redact (ev_CorrelationID e),
             ev_ErrorClass := redact (ev_ErrorClass e), ev_DegradedReason := redact (ev_DegradedReason e),
             ev_Message := redact (ev_Message e), ev_Error := redact (ev_Error e),
             ev_Reason := redact (ev_Reason e),
             ev_Details := (if ev_Details e = [] then [] else
               (case safeProviderDetails (ev_Details e) of
                  Inr d \<Rightarrow> d | Inl _ \<Rightarrow> [(''redacted'', VBool True)]))\<rparr>)"

text \<open>What "safe at every depth" means for details.\<close>

fun safe_value :: "any \<Rightarrow> bool" and safe_entry :: "string \<times> any \<Rightarrow> bool" where
  "safe_value (VString v) \<longleftrightarrow> \<not> unsafe_text v"
| "safe_value (VStrings vs) \<longleftrightarrow> (\<forall>v \<in> set vs. \<not> unsafe_text v)"
| "safe_value (VList vs) \<longleftrightarrow> (\<forall>v \<in> set vs. safe_value v)"
| "safe_value (VMap m) \<longleftrightarrow> (\<forall>e \<in> set m. safe_entry e)"
| "safe_value VOther \<longleftrightarrow> False"
| "safe_value VNil \<longleftrightarrow> True"
| "safe_value (VBool _) \<longleftrightarrow> True"
| "safe_value (VInt _) \<longleftrightarrow> True"
| "safe_value (VFloat _) \<longleftrightarrow> True"
| "safe_entry (k, v) \<longleftrightarrow> \<not> UnsafeProviderText k \<and> safe_value v"

section \<open>Redactors\<close>

text \<open>
  A redactor replaces text a predicate calls unsafe by a marker that is itself safe. Everything a
  client of redaction relies on follows from that.
\<close>

locale redactor =
  fixes unsafe :: "string \<Rightarrow> bool"
    and marker :: string
    and red :: "string \<Rightarrow> string"
  assumes marker_safe: "\<not> unsafe marker"
    and red_unsafe: "unsafe v \<Longrightarrow> red v = marker"
    and red_safe: "\<not> unsafe v \<Longrightarrow> red v = v"
begin

lemma output_safe: "\<not> unsafe (red v)"
  using marker_safe by (cases "unsafe v") (simp_all add: red_unsafe red_safe)

lemma idempotent: "red (red v) = red v"
  using output_safe by (rule red_safe)

lemma unchanged_iff: "v \<noteq> marker \<Longrightarrow> red v = v \<longleftrightarrow> \<not> unsafe v"
  by (auto simp: red_safe dest: red_unsafe)

end

section \<open>Safe text\<close>

text \<open>Evaluation of the text predicates on literals by rewriting.\<close>

lemma markers_lower: "map ToLower unsafeDetailMarkers = unsafeDetailMarkers"
  by (simp add: unsafeDetailMarkers_def lower_byte_def byte_class_defs)

lemma UnsafeProviderText_eval:
  "UnsafeProviderText text \<longleftrightarrow> list_ex (contains (ToLower (replace_separators text))) unsafeDetailMarkers"
proof -
  have "list_ex (\<lambda>m. P (ToLower m)) unsafeDetailMarkers = list_ex P (map ToLower unsafeDetailMarkers)" for P
    by (simp add: list_ex_iff)
  then show ?thesis by (simp add: UnsafeProviderText_def Let_def markers_lower)
qed

lemmas unsafe_eval = UnsafeProviderText_eval looksLikeProviderPrivatePath_def replace_separators_def
  unsafeDetailMarkers_def lower_byte_def is_latin1_letter_def byte_class_defs
  TrimSpace_def space_encodings_def trim_enc.simps IsAbs_def

lemmas validation_eval = validateProviderObservation_def validateProviderEventComponent_def
  requireProviderField_def validateSafeProviderText_def providerPluginIDPattern_def blank_def
  providerStatuses_def unsafe_eval

lemma markers_nonempty: "\<forall>m \<in> set unsafeDetailMarkers. ToLower m \<noteq> [] \<and> is_lower (hd (ToLower m))"
  by (simp add: unsafeDetailMarkers_def lower_byte_def byte_class_defs)

lemma space_bytes_not_letters:
  "\<forall>c \<in> \<Union> (set ` set space_encodings). c \<noteq> CHR 0xAA \<and> c \<noteq> CHR 0xC4 \<and> \<not> is_lower c \<and> \<not> is_upper c"
  by (simp add: space_encodings_def byte_class_defs)

lemma blank_safe:
  assumes "blank v"
  shows "\<not> unsafe_text v"
proof -
  have v: "\<forall>c \<in> set v. c \<noteq> CHR 0xAA \<and> c \<noteq> CHR 0xC4 \<and> \<not> is_lower c \<and> \<not> is_upper c"
    using blank_bytes [OF assms] space_bytes_not_letters by blast
  let ?P = "\<lambda>c. c \<noteq> CHR 0xAA \<and> c \<noteq> CHR 0xC4 \<and> \<not> is_lower c \<and> \<not> is_upper c"
  let ?r = "replace_separators v"
  have us: "?P CHR ''_''" by (simp add: byte_class_defs)
  have r: "\<forall>c \<in> set ?r. ?P c"
  proof
    fix c assume "c \<in> set ?r"
    then obtain d where "d \<in> set v" and c: "c = d \<or> c = CHR ''_''"
      unfolding replace_separators_def set_map image_iff by metis
    then have "?P d" using v by blast
    with c us show "?P c" by metis
  qed
  then have "ToLower ?r = map lower_byte ?r" by (intro ToLower_map) blast+
  then have low: "\<forall>c \<in> set (ToLower ?r). \<not> is_lower c"
    using r by (simp add: lower_byte_def)
  have "\<not> contains (ToLower ?r) (ToLower m)" if "m \<in> set unsafeDetailMarkers" for m
  proof
    assume "contains (ToLower ?r) (ToLower m)"
    then have "set (ToLower m) \<subseteq> set (ToLower ?r)"
      by (auto simp: contains_iff sublist_def)
    moreover have "hd (ToLower m) \<in> set (ToLower m)" "is_lower (hd (ToLower m))"
      using markers_nonempty that by auto
    ultimately show False using low by blast
  qed
  then have "\<not> UnsafeProviderText v"
    by (auto simp: UnsafeProviderText_def Let_def list_ex_iff)
  moreover have "\<not> looksLikeProviderPrivatePath v"
    using assms by (simp add: looksLikeProviderPrivatePath_def blank_def)
  ultimately show ?thesis by simp
qed

lemma validateSafe_safe: "validateSafeProviderText name v = None \<Longrightarrow> \<not> unsafe_text v"
  by (cases "blank v") (auto simp: validateSafeProviderText_def blank_safe split: if_splits)

lemma validate_entries_safe:
  "validateProviderDetailValue key x = None \<longleftrightarrow> safe_value x"
  "validate_items key xs = None \<longleftrightarrow> (\<forall>v \<in> set xs. safe_value v)"
  "validate_entries m = None \<longleftrightarrow> (\<forall>e \<in> set m. safe_entry e)"
proof (induction key x and key xs and m rule:
    validateProviderDetailValue_validate_items_validate_entries.induct)
qed (auto simp: list_ex_iff split: option.splits)

lemma safeProviderDetails_iff:
  "safeProviderDetails m = Inr d \<longleftrightarrow> d = m \<and> (\<forall>e \<in> set m. safe_entry e)"
proof -
  have "validate_entries m = None \<longleftrightarrow> (\<forall>e \<in> set m. safe_entry e)"
    by (rule validate_entries_safe(3))
  then show ?thesis by (auto simp: safeProviderDetails_def split: option.splits)
qed

lemma first_err_None: "first_err cs = None \<longleftrightarrow> (\<forall>c \<in> set cs. c = None)"
  by (induction cs rule: first_err.induct) auto

interpretation pr: redactor "\<lambda>v. unsafe_text v" ProviderRedactedValue redact
proof
  show "\<not> unsafe_text ProviderRedactedValue" by (simp add: ProviderRedactedValue_def unsafe_eval)
next
  fix v :: string
  have "\<not> unsafe_text []" by (rule blank_safe) simp
  then show "unsafe_text v \<Longrightarrow> redact v = ProviderRedactedValue"
    by (auto simp: redact_def)
  show "\<not> unsafe_text v \<Longrightarrow> redact v = v" by (auto simp: redact_def)
qed

text \<open>The text fields redaction looks at, and the events whose displayed text is safe.\<close>

definition display_fields :: "string event \<Rightarrow> string list" where
  "display_fields e = [ev_SocketPath e, ev_CapabilityID e, ev_OperationID e, ev_CorrelationID e,
     ev_ErrorClass e, ev_DegradedReason e, ev_Message e, ev_Error e, ev_Reason e]"

definition display_safe :: "string event \<Rightarrow> bool" where
  "display_safe e \<longleftrightarrow> (\<forall>v \<in> set (display_fields e). \<not> unsafe_text v) \<and> (\<forall>d \<in> set (ev_Details e). safe_entry d)"

lemma empty_safe: "\<not> unsafe_text []"
  by (rule blank_safe) simp

lemma redacted_entry_safe: "safe_entry (''redacted'', VBool True)"
  by (simp add: unsafe_eval)

lemma RedactForDisplay_fixpoint: "display_safe e \<Longrightarrow> RedactForDisplay e = e"
  using safeProviderDetails_iff [of "ev_Details e" "ev_Details e"]
  by (simp add: RedactForDisplay_def display_safe_def display_fields_def pr.red_safe)

lemma RedactForDisplay_safe:
  "isProviderObservationEvent e \<Longrightarrow> display_safe (RedactForDisplay e)"
  using pr.output_safe redacted_entry_safe
  by (auto simp: RedactForDisplay_def display_safe_def display_fields_def safeProviderDetails_iff
      split: sum.splits)

lemma ProviderEvent_fields:
  assumes "ProviderEvent obs = Inr e"
  shows "validateProviderObservation obs = None"
    and "\<forall>d \<in> set (ob_Details obs). safe_entry d"
    and "ev_Details e = ob_Details obs" and "ev_SocketPath e = []" and "ev_Error e = []" and "ev_Reason e = []"
    and "ev_CapabilityID e = ob_CapabilityID obs" and "ev_OperationID e = ob_OperationID obs"
    and "ev_CorrelationID e = ob_CorrelationID obs" and "ev_ErrorClass e = ob_ErrorClass obs"
    and "ev_DegradedReason e = ob_DegradedReason obs" and "ev_Message e = ob_Message obs"
    and "ev_Component e = ob_Component obs" and "ev_Event e = ob_Event obs" and "ev_Status e = ob_Status obs"
    and "ev_PluginID e = ob_PluginID obs" and "ev_GenerationID e = ob_GenerationID obs"
    and "ev_DurationMS e = ob_DurationMS obs"
  using assms safeProviderDetails_iff
  by (auto simp: ProviderEvent_def zero_event_def split: option.splits sum.splits)

lemma accepted_fields_safe:
  assumes "validateProviderObservation obs = None"
  shows "\<not> unsafe_text (ob_CapabilityID obs)" and "\<not> unsafe_text (ob_OperationID obs)"
    and "\<not> unsafe_text (ob_CorrelationID obs)" and "\<not> unsafe_text (ob_ErrorClass obs)"
    and "\<not> unsafe_text (ob_DegradedReason obs)" and "\<not> unsafe_text (ob_Message obs)"
  using assms
  by (auto simp: validateProviderObservation_def first_err_None dest: validateSafe_safe split: if_splits)

section \<open>Properties\<close>

text \<open>
  C27: an observation \<open>ProviderEvent\<close> accepts is bound to a valid plugin id and a positive
  generation, names capability, operation and correlation, has a known status that fits its event, and
  carries no unsafe text in capability, operation, correlation, error class, degraded reason and message
  (socket path, reason and error stay empty) nor at any depth of its details; the operator display
  therefore shows it unchanged. Of the remaining text, component, event and status are constants of the
  schema, the plugin id only has to fit its pattern, and the level is taken over as it is, the default
  for an empty one apart: neither is checked for unsafe text.
\<close>

theorem accepted_observation_is_safe:
  assumes "ProviderEvent obs = Inr e"
  shows "display_safe e \<and> RedactForDisplay e = e
    \<and> ev_SocketPath e = [] \<and> ev_Reason e = [] \<and> ev_Error e = []
    \<and> ev_Level e = (if ob_Level obs = [] then LevelInfo else ob_Level obs) \<and> ev_PluginID e = ob_PluginID obs
    \<and> providerPluginIDPattern (ev_PluginID e) \<and> ev_GenerationID e \<noteq> 0
    \<and> \<not> blank (ev_CapabilityID e) \<and> \<not> blank (ev_OperationID e) \<and> \<not> blank (ev_CorrelationID e)
    \<and> 0 \<le> ev_DurationMS e \<and> ev_Status e \<in> set providerStatuses \<and> isProviderObservationEvent e
    \<and> validateProviderEventComponent (ev_Component e) (ev_Event e) (ev_Status e) = None"
proof -
  note f = ProviderEvent_fields [OF assms]
  have safe: "display_safe e"
    using accepted_fields_safe [OF f(1)] f empty_safe by (simp add: display_safe_def display_fields_def)
  moreover have "providerPluginIDPattern (ob_PluginID obs) \<and> ob_GenerationID obs \<noteq> 0
      \<and> \<not> blank (ob_CapabilityID obs) \<and> \<not> blank (ob_OperationID obs) \<and> \<not> blank (ob_CorrelationID obs)
      \<and> 0 \<le> ob_DurationMS obs \<and> ob_Status obs \<in> set providerStatuses"
    using f(1)
    by (auto simp: validateProviderObservation_def first_err_None requireProviderField_def split: if_splits)
  moreover have fits: "validateProviderEventComponent (ob_Component obs) (ob_Event obs) (ob_Status obs) = None"
    using f(1) by (auto simp: validateProviderObservation_def first_err_None split: if_splits)
  then have "isProviderObservationEvent e"
    using f by (auto simp: validateProviderEventComponent_def isProviderObservationEvent_def split: if_splits)
  moreover have "ev_Level e = (if ob_Level obs = [] then LevelInfo else ob_Level obs)"
    using assms by (auto simp: ProviderEvent_def split: option.splits sum.splits)
  ultimately show ?thesis using f fits RedactForDisplay_fixpoint by simp
qed

definition sample_observation :: provider_observation where
  "sample_observation = \<lparr>ob_Level = [], ob_Component = ComponentProviderDiagnostic,
     ob_Event = EventProviderDiagnosticReported, ob_PluginID = ''mail'', ob_GenerationID = 3,
     ob_CapabilityID = ''send'', ob_OperationID = ''op'', ob_CorrelationID = ''c1'',
     ob_Status = ''degraded'', ob_DurationMS = 12, ob_ErrorClass = ''slow'',
     ob_DegradedReason = [], ob_Message = [], ob_Details = [(''n'', VInt 2)]\<rparr>"

theorem accepted_observation_witness:
  "\<exists>e. ProviderEvent sample_observation = Inr e \<and> RedactForDisplay e = e \<and> ev_GenerationID e = 3"
proof -
  have v: "validateProviderObservation sample_observation = None"
    by (simp add: sample_observation_def validation_eval)
  have d: "safeProviderDetails (ob_Details sample_observation) = Inr (ob_Details sample_observation)"
    by (simp add: sample_observation_def safeProviderDetails_def unsafe_eval)
  then obtain e where e: "ProviderEvent sample_observation = Inr e"
    using v by (simp add: ProviderEvent_def)
  show ?thesis
    using accepted_observation_is_safe [OF e] ProviderEvent_fields(17) [OF e] e
    by (simp add: sample_observation_def)
qed

text \<open>
  The level is the gap: an observation whose level is unsafe text is accepted, and the display shows it.
\<close>

theorem unsafe_level_is_accepted:
  "\<exists>e. ProviderEvent (sample_observation\<lparr>ob_Level := ''bearer abc''\<rparr>) = Inr e
     \<and> unsafe_text (ev_Level e) \<and> RedactForDisplay e = e"
proof -
  let ?o = "sample_observation\<lparr>ob_Level := ''bearer abc''\<rparr>"
  have v: "validateProviderObservation ?o = None" by (simp add: sample_observation_def validation_eval)
  have d: "safeProviderDetails (ob_Details ?o) = Inr (ob_Details ?o)"
    by (simp add: sample_observation_def safeProviderDetails_def unsafe_eval)
  then obtain e where e: "ProviderEvent ?o = Inr e" and l: "ev_Level e = ''bearer abc''"
    using v by (simp add: ProviderEvent_def)
  have "display_safe e"
    using ProviderEvent_fields [OF e] accepted_fields_safe [OF v] empty_safe by (simp add: display_safe_def display_fields_def)
  moreover have "unsafe_text ''bearer abc''" by (simp add: unsafe_eval)
  ultimately show ?thesis using e l RedactForDisplay_fixpoint by auto
qed

text \<open>
  C28: whatever a provider event contains, the copy the operator sees has no unsafe text in the
  redacted fields and no unsafe entry at any depth of its details, and redacting again changes
  nothing; an event that is not a provider observation is displayed as it is.
\<close>

theorem RedactForDisplay_removes_unsafe:
  "(isProviderObservationEvent e \<longrightarrow> display_safe (RedactForDisplay e))
   \<and> (\<not> isProviderObservationEvent e \<longrightarrow> RedactForDisplay e = e)
   \<and> RedactForDisplay (RedactForDisplay e) = RedactForDisplay e"
proof (cases "isProviderObservationEvent e")
  case True
  then show ?thesis using RedactForDisplay_safe RedactForDisplay_fixpoint by blast
next
  case False
  then show ?thesis by (simp add: RedactForDisplay_def)
qed

theorem RedactForDisplay_removes_unsafe_witness:
  "let e = (zero_event [] :: string event)\<lparr>ev_Component := ComponentProviderBoundary, ev_Message := ''Bearer abc''\<rparr>
   in isProviderObservationEvent e \<and> display_safe (RedactForDisplay e)
      \<and> ev_Message (RedactForDisplay e) = ProviderRedactedValue"
proof -
  let ?e = "(zero_event [] :: string event)\<lparr>ev_Component := ComponentProviderBoundary, ev_Message := ''Bearer abc''\<rparr>"
  have p: "isProviderObservationEvent ?e" by (simp add: isProviderObservationEvent_def)
  have "UnsafeProviderText ''Bearer abc''" by (simp add: unsafe_eval)
  then have "ev_Message (RedactForDisplay ?e) = ProviderRedactedValue"
    using p by (simp add: RedactForDisplay_def redact_def)
  then show ?thesis
    using p RedactForDisplay_removes_unsafe [of ?e] unfolding Let_def by blast
qed

end
