(* ===== verification/Provider_Bundle.thy ===== *)
theory Provider_Bundle
  imports Event_Provider Plugin_Id
begin

text \<open>
  Declared provider bundle metadata (\<open>src/src/internal/providerbundle/metadata.go\<close>): digests,
  statuses, \<open>Validate\<close>, the core and admin projections and their redaction. The lemmas show what
  validated metadata guarantees, and that the admin projection shows no secret-like text and no
  absolute host path.
\<close>

section \<open>Definitions\<close>

type_synonym bundle_status = string

abbreviation "ProviderBundleStatusDeclaredValid \<equiv> ''declared_valid''"
abbreviation "ProviderBundleStatusDeclaredUnavailable \<equiv> ''declared_unavailable''"
abbreviation "ProviderBundleStatusDeclaredInvalid \<equiv> ''declared_invalid''"

record bundle_digest =
  dg_Algorithm :: string
  dg_Value :: string

record bundle_asset =
  as_Path :: path
  as_Digest :: bundle_digest

record bundle_metadata =
  bm_PluginID :: string
  bm_PluginGeneration :: int64
  bm_BundleRootPath :: path
  bm_ManifestPath :: path
  bm_LuaAssets :: "bundle_asset list"
  bm_ManifestDigest :: bundle_digest
  bm_SchemaVersion :: string
  bm_ValidationStatus :: bundle_status
  bm_RedactedErrorCode :: string
  bm_RedactedErrorMessage :: string
  bm_ObservedAt :: gotime
  bm_SubstrateEventCorrelation :: string

record core_dto =
  cd_Kind :: string
  cd_Name :: string
  cd_PluginID :: string
  cd_PluginGeneration :: int64
  cd_LuaAssetDigests :: "bundle_digest list"
  cd_ManifestDigest :: bundle_digest
  cd_SchemaVersion :: string
  cd_ValidationStatus :: bundle_status
  cd_ObservedAt :: gotime
  cd_SubstrateEventCorrelation :: string

record admin_dto =
  ad_Kind :: string
  ad_Name :: string
  ad_PluginID :: string
  ad_PluginGeneration :: int64
  ad_BundleRootPath :: path
  ad_ManifestPath :: path
  ad_LuaAssets :: "bundle_asset list"
  ad_ManifestDigest :: bundle_digest
  ad_SchemaVersion :: string
  ad_ValidationStatus :: bundle_status
  ad_ErrorCode :: string
  ad_ErrorMessage :: string
  ad_ObservedAt :: gotime
  ad_SubstrateEventCorrelation :: string

text \<open>
  The pattern \<open>secretLike\<close>. Its alternatives are sequences of letters and of the optional separator
  \<open>[ _-]?\<close>; \<open>(?i)\<close> is matching after simple case folding.
\<close>

datatype pat_item = Lit char | OptSep

definition is_sep :: "char \<Rightarrow> bool" where
  "is_sep c \<longleftrightarrow> c = CHR '' '' \<or> c = CHR ''_'' \<or> c = CHR ''-''"

fun match_here :: "pat_item list \<Rightarrow> string \<Rightarrow> bool" where
  "match_here [] s = True"
| "match_here (Lit c # ps) s = (case s of [] \<Rightarrow> False | d # s' \<Rightarrow> d = c \<and> match_here ps s')"
| "match_here (OptSep # ps) s =
     (match_here ps s \<or> (case s of [] \<Rightarrow> False | d # s' \<Rightarrow> is_sep d \<and> match_here ps s'))"

fun match_somewhere :: "pat_item list \<Rightarrow> string \<Rightarrow> bool" where
  "match_somewhere ps [] = match_here ps []"
| "match_somewhere ps (c # s) = (match_here ps (c # s) \<or> match_somewhere ps s)"

definition lits :: "string \<Rightarrow> pat_item list" where
  "lits w = map Lit w"

definition secretLike :: "pat_item list list" where
  "secretLike =
     [lits ''secret'', lits ''token'', lits ''password'', lits ''passwd'',
      lits ''private'' @ [OptSep] @ lits ''key'', lits ''api'' @ [OptSep] @ lits ''key'',
      lits ''bearer'', lits ''credential'',
      lits ''authority'' @ [OptSep] @ lits ''use'' @ [OptSep] @ lits ''ref'',
      lits ''authority'' @ [OptSep] @ lits ''ref'',
      lits ''socket'', lits ''handle'', lits ''signer'', lits ''session'']"

definition containsSecretLike :: "string \<Rightarrow> bool" where
  "containsSecretLike s \<longleftrightarrow> list_ex (\<lambda>ps. match_somewhere ps (SimpleFold s)) secretLike"

definition is_hex :: "char \<Rightarrow> bool" where
  "is_hex c \<longleftrightarrow> is_digit c \<or> in_range 97 102 c \<or> in_range 65 70 c"

definition hexDigest64 :: "string \<Rightarrow> bool" where
  "hexDigest64 s \<longleftrightarrow> length s = 64 \<and> list_all is_hex s"

text \<open>\<open>cloneAssets\<close> and \<open>Clone\<close> copy slices; values are immutable here, so both are the identity.\<close>

definition cloneAssets :: "bundle_asset list \<Rightarrow> bundle_asset list" where
  "cloneAssets xs = xs"

definition CloneMetadata :: "bundle_metadata \<Rightarrow> bundle_metadata" where
  "CloneMetadata m = m\<lparr>bm_LuaAssets := cloneAssets (bm_LuaAssets m)\<rparr>"

definition LuaAssetPaths :: "bundle_metadata \<Rightarrow> path list" where
  "LuaAssetPaths m = map as_Path (bm_LuaAssets m)"

definition validatePluginID :: "string \<Rightarrow> goerr option" where
  "validatePluginID pluginID =
     (if pluginID = [] then Some (err ''plugin id is required'')
      else if \<not> pluginIDPattern pluginID then
        Some (Errorf ''invalid plugin id %q: use only letters, digits, dot, underscore, and dash, and start with a letter or digit'' [FStr pluginID])
      else None)"

definition ValidateDigest :: "bundle_digest \<Rightarrow> goerr option" where
  "ValidateDigest d =
     (if ToLower (TrimSpace (dg_Algorithm d)) \<noteq> ''sha256'' then Some (err ''digest algorithm must be sha256'')
      else if \<not> hexDigest64 (TrimSpace (dg_Value d)) then Some (err ''digest value must be 64 hex characters'')
      else None)"

definition ValidateStatus :: "bundle_status \<Rightarrow> goerr option" where
  "ValidateStatus s =
     (if s = ProviderBundleStatusDeclaredValid \<or> s = ProviderBundleStatusDeclaredUnavailable
         \<or> s = ProviderBundleStatusDeclaredInvalid
      then None else Some (Errorf ''invalid provider bundle validation status %q'' [FStr s]))"

text \<open>The loop over the assets, from index \<open>i\<close>.\<close>

fun validate_assets :: "nat \<Rightarrow> bundle_asset list \<Rightarrow> goerr option" where
  "validate_assets i [] = None"
| "validate_assets i (a # as) =
     (if blank (as_Path a) then Some (Errorf ''lua asset %d path is required'' [FInt (int i)])
      else (case ValidateDigest (as_Digest a) of
              Some e \<Rightarrow> Some (Wrapf ''lua asset %d digest: %w'' [FInt (int i)] e)
            | None \<Rightarrow> validate_assets (Suc i) as))"

text \<open>\<open>expectedGeneration ...int64\<close> is the list of the variadic arguments.\<close>

definition ValidateMetadata :: "bundle_metadata \<Rightarrow> int64 list \<Rightarrow> goerr option" where
  "ValidateMetadata m expected =
     (case validatePluginID (bm_PluginID m) of Some e \<Rightarrow> Some e | None \<Rightarrow>
      if sint (bm_PluginGeneration m) \<le> 0 then Some (err ''plugin generation must be positive'')
      else if length expected > 1 then Some (err ''expected generation accepts at most one value'')
      else if length expected = 1 \<and> bm_PluginGeneration m \<noteq> expected ! 0 then
        Some (Errorf ''stale provider bundle metadata generation %d does not match expected generation %d''
          [FWord (bm_PluginGeneration m), FWord (expected ! 0)])
      else if blank (bm_BundleRootPath m) then Some (err ''bundle root path is required'')
      else if blank (bm_ManifestPath m) then Some (err ''manifest path is required'')
      else (case ValidateDigest (bm_ManifestDigest m) of
        Some e \<Rightarrow> Some (Wrapf ''manifest digest: %w'' [] e)
      | None \<Rightarrow>
      (case ValidateStatus (bm_ValidationStatus m) of Some e \<Rightarrow> Some e | None \<Rightarrow>
      if blank (bm_SchemaVersion m) then Some (err ''schema version is required'')
      else if bm_ObservedAt m = 0 then Some (err ''observed time is required'')
      else if blank (bm_SubstrateEventCorrelation m) then Some (err ''substrate event correlation id is required'')
      else if containsSecretLike (bm_RedactedErrorCode m) \<or> containsSecretLike (bm_RedactedErrorMessage m) then
        Some (err ''redacted error fields must not contain secret-like material'')
      else validate_assets 0 (bm_LuaAssets m))))"

definition RedactSecretLike :: "string \<Rightarrow> string" where
  "RedactSecretLike s = (if containsSecretLike s then ''[redacted]'' else s)"

definition RedactAdminString :: "string \<Rightarrow> bool \<Rightarrow> string" where
  "RedactAdminString s redactPaths =
     (if RedactSecretLike s = ''[redacted]'' then ''[redacted]''
      else if \<not> redactPaths \<or> s = [] \<or> \<not> IsAbs s then s
      else (let base = Base s
            in if base = ''.'' \<or> base = ''/'' \<or> RedactSecretLike base = ''[redacted]''
               then ''[redacted-path]'' else ''[redacted-path]/'' @ base))"

definition CoreDTO :: "bundle_metadata \<Rightarrow> core_dto" where
  "CoreDTO m =
     \<lparr>cd_Kind = ''declared_provider_bundle_metadata'', cd_Name = ''declared_provider_bundle_metadata'',
      cd_PluginID = bm_PluginID m, cd_PluginGeneration = bm_PluginGeneration m,
      cd_LuaAssetDigests = map as_Digest (cloneAssets (bm_LuaAssets m)),
      cd_ManifestDigest = bm_ManifestDigest m, cd_SchemaVersion = bm_SchemaVersion m,
      cd_ValidationStatus = bm_ValidationStatus m, cd_ObservedAt = bm_ObservedAt m,
      cd_SubstrateEventCorrelation = RedactSecretLike (bm_SubstrateEventCorrelation m)\<rparr>"

definition AdminDTO :: "bundle_metadata \<Rightarrow> bool \<Rightarrow> admin_dto" where
  "AdminDTO m redactPaths =
     \<lparr>ad_Kind = ''declared_provider_bundle_metadata_admin'', ad_Name = ''declared_provider_bundle_metadata'',
      ad_PluginID = RedactSecretLike (bm_PluginID m), ad_PluginGeneration = bm_PluginGeneration m,
      ad_BundleRootPath = RedactAdminString (bm_BundleRootPath m) redactPaths,
      ad_ManifestPath = RedactAdminString (bm_ManifestPath m) redactPaths,
      ad_LuaAssets = map (\<lambda>a. a\<lparr>as_Path := RedactAdminString (as_Path a) redactPaths\<rparr>)
                       (cloneAssets (bm_LuaAssets m)),
      ad_ManifestDigest = bm_ManifestDigest m, ad_SchemaVersion = RedactSecretLike (bm_SchemaVersion m),
      ad_ValidationStatus = bm_ValidationStatus m, ad_ErrorCode = RedactSecretLike (bm_RedactedErrorCode m),
      ad_ErrorMessage = RedactSecretLike (bm_RedactedErrorMessage m), ad_ObservedAt = bm_ObservedAt m,
      ad_SubstrateEventCorrelation = RedactSecretLike (bm_SubstrateEventCorrelation m)\<rparr>"

section \<open>Secret-like text\<close>

text \<open>A pattern without a slash cannot match across one.\<close>

lemma match_here_slash: "Lit slash \<notin> set ps \<Longrightarrow> match_here ps (a @ slash # b) \<Longrightarrow> match_here ps a"
proof (induction ps a rule: match_here.induct)
  case (2 c ps s)
  then show ?case by (cases s) auto
next
  case (3 ps s)
  then show ?case by (cases s) (auto simp: is_sep_def)
qed simp

lemma match_here_empty: "match_here ps [] \<Longrightarrow> match_here ps s"
  by (induction ps "[] :: string" rule: match_here.induct) auto

lemma match_here_mono: "match_here ps s \<Longrightarrow> match_somewhere ps s"
  by (cases s) auto

lemma match_somewhere_slash:
  "Lit slash \<notin> set ps \<Longrightarrow> match_somewhere ps (a @ slash # b) \<Longrightarrow> match_somewhere ps a \<or> match_somewhere ps b"
proof (induction a)
  case Nil
  then have "match_here ps [] \<or> match_somewhere ps b"
    using match_here_slash [of ps "[]" b] by auto
  then show ?case by auto
next
  case (Cons c a)
  then show ?case using match_here_slash [of ps "c # a" b] by auto
qed

lemma SimpleFold_slash: "SimpleFold (a @ slash # b) = SimpleFold a @ slash # SimpleFold b"
proof (induction a rule: SimpleFold.induct)
  case (2 c s)
  have pre: "has_prefix (s @ slash # b) ws \<longleftrightarrow> has_prefix s ws" if "slash \<notin> set ws" for ws
    using that
  proof (induction s ws rule: has_prefix.induct)
    case (2 p ps)
    then show ?case by auto
  qed auto
  have len: "length ws \<le> length s" if "has_prefix s ws" for ws
    using that by (simp add: has_prefix_iff prefix_length_le)
  consider (k) "c = CHR 0xE2" "has_prefix s [CHR 0x84, CHR 0xAA]" | (s) "c = CHR 0xC5" "has_prefix s [CHR 0xBF]"
    | (n) "\<not> (c = CHR 0xE2 \<and> has_prefix s [CHR 0x84, CHR 0xAA])" "\<not> (c = CHR 0xC5 \<and> has_prefix s [CHR 0xBF])"
    by blast
  then show ?case
  proof cases
    case k
    then show ?thesis using "2.IH"(1) len [OF k(2)] by (simp add: pre)
  next
    case s
    then show ?thesis using "2.IH"(2) len [OF s(2)] by (simp add: pre)
  next
    case n
    then have "SimpleFold ((c # s) @ slash # b) = lower_byte c # SimpleFold (s @ slash # b)"
      "SimpleFold (c # s) = lower_byte c # SimpleFold s" by (auto simp: pre)
    then show ?thesis using "2.IH"(3) [OF n] by (simp only: append_Cons)
  qed
qed (simp add: lower_byte_def byte_class_defs)

lemma secretLike_no_slash: "ps \<in> set secretLike \<Longrightarrow> Lit slash \<notin> set ps"
  by (auto simp: secretLike_def lits_def)

lemma containsSecretLike_slash:
  assumes "containsSecretLike (a @ slash # b)"
  shows "containsSecretLike a \<or> containsSecretLike b"
proof -
  obtain ps where ps: "ps \<in> set secretLike" "match_somewhere ps (SimpleFold a @ slash # SimpleFold b)"
    using assms unfolding containsSecretLike_def SimpleFold_slash list_ex_iff by blast
  then have "match_somewhere ps (SimpleFold a) \<or> match_somewhere ps (SimpleFold b)"
    using match_somewhere_slash [OF secretLike_no_slash [OF ps(1)]] by blast
  then show ?thesis using ps(1) unfolding containsSecretLike_def list_ex_iff by blast
qed

lemmas secret_eval = containsSecretLike_def secretLike_def lits_def is_sep_def lower_byte_def byte_class_defs

lemma markers_not_secret:
  "\<not> containsSecretLike ''[redacted]''" "\<not> containsSecretLike ''[redacted-path]''" "\<not> containsSecretLike []"
  by (simp_all add: secret_eval)

interpretation sr: redactor containsSecretLike "''[redacted]''" RedactSecretLike
  by unfold_locales (simp_all add: markers_not_secret RedactSecretLike_def)

lemma RedactAdminString_not_secret: "\<not> containsSecretLike (RedactAdminString s r)"
proof (cases "RedactSecretLike s = ''[redacted]'' \<or> \<not> r \<or> s = [] \<or> \<not> IsAbs s")
  case True
  then show ?thesis
    using sr.output_safe [of s] by (auto simp: RedactAdminString_def markers_not_secret sr.red_unsafe)
next
  case False
  have "\<not> containsSecretLike (''[redacted-path]/'' @ b)" if "RedactSecretLike b \<noteq> ''[redacted]''" for b
    using containsSecretLike_slash [of "''[redacted-path]''" b] that markers_not_secret sr.red_unsafe by auto
  with False show ?thesis
    by (simp add: RedactAdminString_def Let_def markers_not_secret)
qed

lemma RedactAdminString_not_abs: "\<not> IsAbs (RedactAdminString s True)"
  by (simp add: RedactAdminString_def Let_def IsAbs_def)

lemma validate_assets_ok:
  "validate_assets i as = None \<longleftrightarrow> (\<forall>a \<in> set as. \<not> blank (as_Path a) \<and> ValidateDigest (as_Digest a) = None)"
  by (induction i as rule: validate_assets.induct) (auto split: option.splits)

lemma validatePluginID_kernel: "validatePluginID s = ValidatePluginID s"
  by (simp add: validatePluginID_def ValidatePluginID_def)

lemma match_here_lits: "match_here ps s \<Longrightarrow> Lit c \<in> set ps \<Longrightarrow> c \<in> set s"
proof (induction ps s rule: match_here.induct)
  case (2 d ps s)
  then show ?case by (cases s) auto
next
  case (3 ps s)
  then show ?case by (cases s) auto
qed simp

lemma match_somewhere_lits: "match_somewhere ps s \<Longrightarrow> Lit c \<in> set ps \<Longrightarrow> c \<in> set s"
  by (induction s) (auto dest: match_here_lits)

text \<open>Every alternative of the pattern has a letter that is not a hexadecimal digit.\<close>

lemma secretLike_letter: "ps \<in> set secretLike \<Longrightarrow> Lit (CHR ''r'') \<in> set ps \<or> Lit (CHR ''t'') \<in> set ps \<or> Lit (CHR ''s'') \<in> set ps
   \<or> Lit (CHR ''p'') \<in> set ps \<or> Lit (CHR ''h'') \<in> set ps"
  by (auto simp: secretLike_def lits_def)

lemma in_range_enum: "in_range lo hi c \<Longrightarrow> c \<in> set (map char_of [lo..<Suc hi])"
  unfolding in_range_def set_map set_upt by (intro image_eqI [of _ _ "of_char c"]) simp_all

lemma hex_lower: "is_hex c \<Longrightarrow> lower_byte c \<in> set ''0123456789abcdef''"
proof -
  assume "is_hex c"
  then have "c \<in> set (map char_of ([48..<58] @ [97..<103] @ [65..<71::nat]))"
    using in_range_enum [of 48 57 c] in_range_enum [of 97 102 c] in_range_enum [of 65 70 c]
    by (auto simp: is_hex_def is_digit_def)
  moreover have "list_all (\<lambda>c. lower_byte c \<in> set ''0123456789abcdef'') (map char_of ([48..<58] @ [97..<103] @ [65..<71::nat]))"
    by code_simp
  ultimately show ?thesis unfolding list_all_iff by (rule bspec [rotated])
qed

lemma hexDigest64_not_secret:
  assumes "hexDigest64 v"
  shows "\<not> containsSecretLike v"
proof
  assume "containsSecretLike v"
  then obtain ps where ps: "ps \<in> set secretLike" "match_somewhere ps (SimpleFold v)"
    unfolding containsSecretLike_def list_ex_iff by blast
  have h: "list_all is_hex v" using assms by (simp add: hexDigest64_def)
  then have "SimpleFold v = map lower_byte v"
  proof (induction v rule: SimpleFold.induct)
    case (2 c s)
    have "c \<noteq> CHR 0xE2" "c \<noteq> CHR 0xC5" using "2.prems" by (auto simp: is_hex_def byte_class_defs)
    then show ?case using "2.IH"(3) "2.prems" by simp
  qed simp
  then have "set (SimpleFold v) \<subseteq> lower_byte ` {c. is_hex c}" using h by (auto simp: list_all_iff)
  then have "set (SimpleFold v) \<subseteq> set ''0123456789abcdef''" using hex_lower by blast
  then show False using secretLike_letter [OF ps(1)] match_somewhere_lits [OF ps(2)] by fastforce
qed

section \<open>Properties\<close>

text \<open>
  C31: what the admin projection shows. Whatever the metadata holds, its constant fields, the paths, the
  plugin id, the schema version, the error fields and the correlation contain no secret-like text, and
  with path redaction on (the default) neither the bundle root, the manifest nor any asset is shown with
  an absolute host path. The rest of its text, the digests and the status, is copied unredacted; for
  metadata that \<open>Validate\<close> accepts these are a known status and SHA-256 digests, which are not
  secret-like either (digest values up to surrounding white space).
\<close>

theorem AdminDTO_is_safe:
  "let d = AdminDTO m r; paths = ad_BundleRootPath d # ad_ManifestPath d # map as_Path (ad_LuaAssets d);
       digests = ad_ManifestDigest d # map as_Digest (ad_LuaAssets d)
   in (\<forall>v \<in> set (paths @ [ad_Kind d, ad_Name d, ad_PluginID d, ad_SchemaVersion d, ad_ErrorCode d, ad_ErrorMessage d,
                ad_SubstrateEventCorrelation d]). \<not> containsSecretLike v)
      \<and> (r \<longrightarrow> (\<forall>v \<in> set paths. \<not> IsAbs v))
      \<and> digests = bm_ManifestDigest m # map as_Digest (bm_LuaAssets m) \<and> ad_ValidationStatus d = bm_ValidationStatus m
      \<and> (\<forall>gs. ValidateMetadata m gs = None \<longrightarrow> \<not> containsSecretLike (ad_ValidationStatus d)
           \<and> (\<forall>g \<in> set digests. ToLower (TrimSpace (dg_Algorithm g)) = ''sha256''
                \<and> hexDigest64 (TrimSpace (dg_Value g)) \<and> \<not> containsSecretLike (TrimSpace (dg_Value g))))"
proof -
  let ?d = "AdminDTO m r"
  let ?paths = "ad_BundleRootPath ?d # ad_ManifestPath ?d # map as_Path (ad_LuaAssets ?d)"
  let ?digests = "ad_ManifestDigest ?d # map as_Digest (ad_LuaAssets ?d)"
  have kind: "\<not> containsSecretLike ''declared_provider_bundle_metadata_admin''"
    "\<not> containsSecretLike ''declared_provider_bundle_metadata''" by (simp_all add: secret_eval)
  have texts: "\<forall>v \<in> set (?paths @ [ad_Kind ?d, ad_Name ?d, ad_PluginID ?d, ad_SchemaVersion ?d, ad_ErrorCode ?d,
      ad_ErrorMessage ?d, ad_SubstrateEventCorrelation ?d]). \<not> containsSecretLike v"
    using RedactAdminString_not_secret sr.output_safe kind by (auto simp: AdminDTO_def)
  have abs: "r \<longrightarrow> (\<forall>v \<in> set ?paths. \<not> IsAbs v)"
    using RedactAdminString_not_abs by (auto simp: AdminDTO_def)
  have copied: "?digests = bm_ManifestDigest m # map as_Digest (bm_LuaAssets m)" "ad_ValidationStatus ?d = bm_ValidationStatus m"
    by (simp_all add: AdminDTO_def cloneAssets_def)
  have dg: "ToLower (TrimSpace (dg_Algorithm g)) = ''sha256'' \<and> hexDigest64 (TrimSpace (dg_Value g))"
    if "ValidateDigest g = None" for g using that unfolding ValidateDigest_def by (simp split: if_splits)
  have st: "\<not> containsSecretLike s" if "ValidateStatus s = None" for s
    using that by (auto simp: ValidateStatus_def secret_eval split: if_splits)
  have "\<not> containsSecretLike (ad_ValidationStatus ?d) \<and> (\<forall>g \<in> set ?digests. ToLower (TrimSpace (dg_Algorithm g)) = ''sha256''
      \<and> hexDigest64 (TrimSpace (dg_Value g)) \<and> \<not> containsSecretLike (TrimSpace (dg_Value g)))"
    if "ValidateMetadata m gs = None" for gs
  proof -
    have "ValidateDigest (bm_ManifestDigest m) = None" "ValidateStatus (bm_ValidationStatus m) = None"
      "validate_assets 0 (bm_LuaAssets m) = None"
      using that unfolding ValidateMetadata_def by (auto split: option.splits if_splits)
    then show ?thesis unfolding copied using st dg hexDigest64_not_secret by (auto simp: validate_assets_ok)
  qed
  then show ?thesis using texts abs copied unfolding Let_def by blast
qed

definition sample_digest :: bundle_digest where
  "sample_digest = \<lparr>dg_Algorithm = ''sha256'', dg_Value = replicate 64 (CHR ''a'')\<rparr>"

definition sample_metadata :: bundle_metadata where
  "sample_metadata = \<lparr>bm_PluginID = ''echo'', bm_PluginGeneration = 1, bm_BundleRootPath = ''/srv/b'',
     bm_ManifestPath = ''/srv/b/m'', bm_LuaAssets = [\<lparr>as_Path = ''/srv/b/x'', as_Digest = sample_digest\<rparr>],
     bm_ManifestDigest = sample_digest, bm_SchemaVersion = ''v'',
     bm_ValidationStatus = ProviderBundleStatusDeclaredValid, bm_RedactedErrorCode = [],
     bm_RedactedErrorMessage = [], bm_ObservedAt = 1, bm_SubstrateEventCorrelation = ''c''\<rparr>"

theorem AdminDTO_is_safe_witness:
  "\<not> IsAbs (ad_BundleRootPath (AdminDTO sample_metadata True))"
  using AdminDTO_is_safe [of sample_metadata True] by (simp add: Let_def)

text \<open>
  Metadata that \<open>Validate\<close> accepts for an expected generation is bound to exactly that positive
  generation and to an identifier the kernel accepts too; its manifest and every asset carry a
  64-digit SHA-256 digest, and its error fields carry no secret-like text.
\<close>

theorem ValidateMetadata_guarantees:
  assumes "ValidateMetadata m [g] = None"
  shows "bm_PluginGeneration m = g \<and> 0 < sint g \<and> ValidatePluginID (bm_PluginID m) = None
    \<and> ValidateStatus (bm_ValidationStatus m) = None
    \<and> (\<forall>d \<in> set (bm_ManifestDigest m # map as_Digest (bm_LuaAssets m)).
          ToLower (TrimSpace (dg_Algorithm d)) = ''sha256'' \<and> hexDigest64 (TrimSpace (dg_Value d)))
    \<and> RedactSecretLike (bm_RedactedErrorCode m) = bm_RedactedErrorCode m
    \<and> RedactSecretLike (bm_RedactedErrorMessage m) = bm_RedactedErrorMessage m"
proof -
  have dg: "ToLower (TrimSpace (dg_Algorithm d)) = ''sha256'' \<and> hexDigest64 (TrimSpace (dg_Value d))"
    if "ValidateDigest d = None" for d
    using that unfolding ValidateDigest_def by (simp split: if_splits)
  have "validatePluginID (bm_PluginID m) = None" "0 < sint (bm_PluginGeneration m)"
    "bm_PluginGeneration m = g" "ValidateDigest (bm_ManifestDigest m) = None"
    "ValidateStatus (bm_ValidationStatus m) = None" "\<not> containsSecretLike (bm_RedactedErrorCode m)"
    "\<not> containsSecretLike (bm_RedactedErrorMessage m)" "validate_assets 0 (bm_LuaAssets m) = None"
    using assms unfolding ValidateMetadata_def by (auto split: option.splits if_splits)
  then show ?thesis by (simp add: dg validatePluginID_kernel validate_assets_ok sr.red_safe)
qed

theorem ValidateMetadata_guarantees_witness:
  "ValidateMetadata sample_metadata [1] = None \<and> bm_PluginGeneration sample_metadata = 1"
proof -
  have nb: "\<not> blank ''v''" "\<not> blank ''c''" "\<not> blank ''/srv/b''" "\<not> blank ''/srv/b/m''" "\<not> blank ''/srv/b/x''"
    by (rule not_blank_graph; simp add: graph_byte_def in_range_def)+
  have t: "TrimSpace ''sha256'' = ''sha256''" "TrimSpace (replicate 64 CHR ''a'') = replicate 64 CHR ''a''"
    by (rule TrimSpace_graph; simp add: graph_byte_def in_range_def)+
  have d: "ValidateDigest sample_digest = None"
    by (simp add: ValidateDigest_def sample_digest_def t hexDigest64_def is_hex_def list_all_iff
        lower_byte_def byte_class_defs)
  have "ValidateMetadata sample_metadata [1] = None"
    by (simp add: ValidateMetadata_def sample_metadata_def nb d markers_not_secret ValidateStatus_def
        validatePluginID_def pluginIDPattern_def id_char_def byte_class_defs)
  then show ?thesis using ValidateMetadata_guarantees by blast
qed

end
