(* ===== verification/Plugin_Api.thy ===== *)
theory Plugin_Api
  imports Go_Text
begin

text \<open>
  The RPC interface between kernel and plugin: method names, statuses and messages
  (\<open>src/src/pkg/plugin/plugin.go\<close>, re-exported by \<open>src/src/test/testpluginapi\<close>), the environment the
  kernel hands to a plugin process, and what a \<open>net/rpc\<close> call can come back with.
\<close>

abbreviation "MethodAuth \<equiv> ''TestPlugin.Auth''"
abbreviation "MethodCapabilities \<equiv> ''TestPlugin.Capabilities''"
abbreviation "MethodHeartbeat \<equiv> ''TestPlugin.Heartbeat''"
abbreviation "MethodShutdown \<equiv> ''TestPlugin.Shutdown''"
abbreviation "MethodEcho \<equiv> ''TestPlugin.Echo''"
abbreviation "MethodSleep \<equiv> ''TestPlugin.Sleep''"
abbreviation "MethodCrash \<equiv> ''TestPlugin.Crash''"

type_synonym status = string

abbreviation "StatusStarting \<equiv> ''starting''"
abbreviation "StatusHealthy \<equiv> ''healthy''"
abbreviation "StatusDegraded \<equiv> ''degraded''"
abbreviation "StatusOverloaded \<equiv> ''overloaded''"
abbreviation "StatusUnhealthy \<equiv> ''unhealthy''"

record auth_response =
  ar_PluginID :: string
  ar_Version :: string
  ar_GenerationID :: uint64

record capabilities_response =
  cr_PluginID :: string
  cr_Version :: string
  cr_GenerationID :: uint64
  cr_Capabilities :: "string list"

record heartbeat_response =
  hr_PluginID :: string
  hr_Version :: string
  hr_GenerationID :: uint64
  hr_UptimeSeconds :: int
  hr_Status :: status
  hr_CurrentWorkCount :: int
  hr_LastSuccessfulUnixSec :: int
  hr_RecentErrorCount :: int

definition zero_heartbeat :: heartbeat_response where
  "zero_heartbeat = \<lparr>hr_PluginID = [], hr_Version = [], hr_GenerationID = 0, hr_UptimeSeconds = 0,
     hr_Status = [], hr_CurrentWorkCount = 0, hr_LastSuccessfulUnixSec = 0, hr_RecentErrorCount = 0\<rparr>"

text \<open>The outcome of \<open>client.Call\<close> raced against the call timeout.\<close>

datatype 'r rpc_outcome = Reply 'r | CallErr goerr | CallTimeout

abbreviation "EnvSocket \<equiv> ''RPC_PLUGIN_SYSTEM_PLUGIN_SOCKET''"
abbreviation "EnvPluginID \<equiv> ''RPC_PLUGIN_SYSTEM_PLUGIN_ID''"
abbreviation "EnvGeneration \<equiv> ''RPC_PLUGIN_SYSTEM_PLUGIN_GENERATION''"
abbreviation "EnvAuthFile \<equiv> ''RPC_PLUGIN_SYSTEM_AUTH_TOKEN_FILE''"
abbreviation "BehaviorConfigEnv \<equiv> ''RPC_PLUGIN_SYSTEM_TEST_BEHAVIOR_FILE''"
abbreviation "ShutdownMarkerEnv \<equiv> ''RPC_PLUGIN_SYSTEM_TEST_SHUTDOWN_MARKER_FILE''"

end
