(* ===== verification/Manager.thy ===== *)
theory Manager
  imports Auth_Token Host_Runtime Provider_Bundle Plugin_Api
begin

text \<open>
  The plugin manager (\<open>src/src/internal/kernel/manager.go\<close>): configuration, state and every operation
  on it. The manager record extends a record of the part of the world it acts on: the files of its
  runtime directory, the child processes it has started and not yet reaped, its open connections and
  the events handed to its event log. A pointer to an \<open>rpcClient\<close> is a number that is never reused,
  so pointer comparison is equality.

  Every call whose result the code does not determine (random bytes, system calls, RPC replies) takes
  its result from an environment record of the operation. An operation that waits for an RPC reply
  without holding a lock takes what other goroutines do to the manager meanwhile as a function
  argument, the interference; the lifecycle operations hold \<open>lifecycleMu\<close> and detach client and
  process before they wait, which theory \<open>Manager_Interleaving\<close> relates to fine-grained steps.
\<close>

section \<open>Data\<close>

record plugin_state =
  st_PluginID :: string
  st_GenerationID :: uint64
  st_Healthy :: bool
  st_Capabilities :: "string list"
  st_SocketPath :: path
  st_PID :: int
  st_Declared :: "admin_dto option"

definition zero_state :: plugin_state where
  "zero_state = \<lparr>st_PluginID = [], st_GenerationID = 0, st_Healthy = False, st_Capabilities = [],
     st_SocketPath = [], st_PID = 0, st_Declared = None\<rparr>"

record core_state =
  cs_PluginID :: string
  cs_GenerationID :: uint64
  cs_Healthy :: bool
  cs_Declared :: "core_dto option"

record config =
  cf_RuntimeDir :: path
  cf_PluginPath :: path
  cf_PluginID :: string
  cf_DialTimeout :: duration
  cf_CallTimeout :: duration
  cf_HeartbeatEvery :: duration
  cf_EventLogPath :: path
  cf_Metadata :: "bundle_metadata option"
  cf_Refresh :: "(int64 \<rightharpoonup> bundle_metadata) option"
  cf_DisableRedaction :: bool

text \<open>A started \<open>exec.Cmd\<close>: program, environment and process id.\<close>

record cmd =
  cmd_Path :: path
  cmd_Env :: "string list"
  cmd_Pid :: int

type_synonym kevent = "goerr option event"
type_synonym client = nat

record world =
  w_files :: "path \<Rightarrow> string option"
  w_procs :: "int set"
  w_conns :: "client set"
  w_next :: client
  w_log :: "kevent list"

record manager = world +
  mg_cfg :: config
  mg_state :: plugin_state
  mg_cmd :: "cmd option"
  mg_client :: "client option"
  mg_rpcEpoch :: uint64
  mg_closed :: bool
  mg_closedCh :: bool       \<comment> \<open>\<open>closedCh\<close> has been closed\<close>
  mg_closeDone :: bool      \<comment> \<open>\<open>closeOnce\<close> has run\<close>
  mg_closeErr :: "goerr option"

abbreviation mg_gen :: "manager \<Rightarrow> uint64" where "mg_gen m \<equiv> st_GenerationID (mg_state m)"
abbreviation mg_healthy :: "manager \<Rightarrow> bool" where "mg_healthy m \<equiv> st_Healthy (mg_state m)"
abbreviation mg_pid :: "manager \<Rightarrow> int" where "mg_pid m \<equiv> st_PID (mg_state m)"
abbreviation mg_id :: "manager \<Rightarrow> string" where "mg_id m \<equiv> cf_PluginID (mg_cfg m)"

definition mg_socket :: "manager \<Rightarrow> path" where
  "mg_socket m = SocketPath (cf_RuntimeDir (mg_cfg m)) (mg_id m)"

definition mg_auth :: "manager \<Rightarrow> path" where
  "mg_auth m = AuthPath (cf_RuntimeDir (mg_cfg m)) (mg_id m)"

section \<open>Event log\<close>

text \<open>
  \<open>logEvent\<close> discards the result of \<open>Write\<close>, so the manager's behaviour does not depend on it; the
  model records the events in the order they are handed to the log.
\<close>

definition logEvent :: "kevent \<Rightarrow> manager \<Rightarrow> manager" where
  "logEvent e m = m\<lparr>w_log := w_log m @ [e]\<rparr>"

definition kev :: "manager \<Rightarrow> string \<Rightarrow> string \<Rightarrow> string \<Rightarrow> uint64 \<Rightarrow> int \<Rightarrow> path \<Rightarrow> string \<Rightarrow> kevent" where
  "kev m lvl cmpn ev gen pid sock msg = (zero_event None)\<lparr>ev_Level := lvl, ev_Component := cmpn,
     ev_Event := ev, ev_PluginID := mg_id m, ev_GenerationID := gen, ev_PID := pid,
     ev_SocketPath := sock, ev_Message := msg\<rparr>"

section \<open>Snapshots\<close>

definition generationBoundProviderBundleMetadata :: "manager \<Rightarrow> plugin_state \<Rightarrow> bundle_metadata option" where
  "generationBoundProviderBundleMetadata m state =
     (let bound = (\<lambda>md. bm_PluginID md = st_PluginID state \<and> bm_PluginGeneration md = st_GenerationID state);
          fallback = (case cf_Metadata (mg_cfg m) of
              None \<Rightarrow> None
            | Some md \<Rightarrow> if bound (CloneMetadata md) then Some (CloneMetadata md) else None)
      in case cf_Refresh (mg_cfg m) of
           None \<Rightarrow> fallback
         | Some byGeneration \<Rightarrow>
             (case byGeneration (st_GenerationID state) of
                None \<Rightarrow> fallback
              | Some md \<Rightarrow> if bound (CloneMetadata md) then Some (CloneMetadata md) else fallback))"

definition providerBundleAdminDTO :: "manager \<Rightarrow> plugin_state \<Rightarrow> admin_dto option" where
  "providerBundleAdminDTO m state =
     (case generationBoundProviderBundleMetadata m state of
        None \<Rightarrow> None
      | Some md \<Rightarrow> Some (AdminDTO md (\<not> cf_DisableRedaction (mg_cfg m))))"

definition providerBundleCoreDTO :: "manager \<Rightarrow> plugin_state \<Rightarrow> core_dto option" where
  "providerBundleCoreDTO m state =
     (case generationBoundProviderBundleMetadata m state of None \<Rightarrow> None | Some md \<Rightarrow> Some (CoreDTO md))"

definition StateOf :: "manager \<Rightarrow> plugin_state" where
  "StateOf m = (mg_state m)\<lparr>st_Declared := providerBundleAdminDTO m (mg_state m)\<rparr>"

definition CoreStateOf :: "manager \<Rightarrow> core_state" where
  "CoreStateOf m = \<lparr>cs_PluginID = st_PluginID (mg_state m), cs_GenerationID = mg_gen m,
     cs_Healthy = mg_healthy m, cs_Declared = providerBundleCoreDTO m (mg_state m)\<rparr>"

section \<open>Construction\<close>

definition cloneRefresh :: "(int64 \<rightharpoonup> bundle_metadata) option \<Rightarrow> (int64 \<rightharpoonup> bundle_metadata) option" where
  "cloneRefresh r = map_option (\<lambda>by. map_option CloneMetadata \<circ> by) r"

definition default_duration :: "duration \<Rightarrow> duration \<Rightarrow> duration" where
  "default_duration d x = (if x = 0 then d else x)"

definition with_config_defaults :: "config \<Rightarrow> config" where
  "with_config_defaults cfg =
     cfg\<lparr>cf_DialTimeout := default_duration (3 * second) (cf_DialTimeout cfg),
         cf_CallTimeout := default_duration (2 * second) (cf_CallTimeout cfg),
         cf_HeartbeatEvery := default_duration (2 * second) (cf_HeartbeatEvery cfg),
         cf_Metadata := map_option CloneMetadata (cf_Metadata cfg),
         cf_Refresh := cloneRefresh (cf_Refresh cfg)\<rparr>"

definition fresh_manager :: "config \<Rightarrow> world \<Rightarrow> manager" where
  "fresh_manager cfg w = \<lparr>w_files = w_files w, w_procs = w_procs w, w_conns = w_conns w, w_next = w_next w,
     w_log = w_log w, mg_cfg = cfg, mg_state = zero_state, mg_cmd = None, mg_client = None,
     mg_rpcEpoch = 0, mg_closed = False, mg_closedCh = False, mg_closeDone = False, mg_closeErr = None\<rparr>"

text \<open>\<open>New\<close>; \<open>log_open\<close> is the outcome of opening the event log. \<open>EnsureDir\<close> changes \<open>fs\<close> even when a later step fails.\<close>

definition New :: "sys_env \<Rightarrow> goerr option \<Rightarrow> config \<Rightarrow> world \<Rightarrow> fstree \<Rightarrow> (goerr + manager) \<times> fstree" where
  "New env log_open cfg w fs =
     (if cf_RuntimeDir cfg = [] \<or> cf_PluginPath cfg = [] \<or> cf_PluginID cfg = [] \<or> cf_EventLogPath cfg = [] then
        (Inl (err ''runtime dir, plugin path, plugin id, and event log path are required''), fs)
      else (case ValidateExecutable env fs (cf_PluginPath cfg) of
        Some e \<Rightarrow> (Inl e, fs)
      | None \<Rightarrow>
          (case EnsureDir env (cf_RuntimeDir cfg) fs of
             (Some e, fs1) \<Rightarrow> (Inl e, fs1)
           | (None, fs1) \<Rightarrow>
               (case log_open of
                  Some e \<Rightarrow> (Inl (Wrapf ''open event log: %w'' [] e), fs1)
                | None \<Rightarrow>
                    (let m = fresh_manager (with_config_defaults cfg) w
                     in (Inr (logEvent
                          ((kev m LevelInfo ComponentKernel EventManagerInitialized 0 0 (mg_socket m)
                             ''manager initialized'')
                           \<lparr>ev_Details := [(''plugin_path'', VString (cf_PluginPath cfg)),
                                           (''runtime_dir'', VString (cf_RuntimeDir cfg))]\<rparr>) m), fs1))))))"

section \<open>Runtime artifacts\<close>

text \<open>\<open>os.Remove\<close>: \<open>rm p\<close> is a failure of the call on an existing file.\<close>

type_synonym remove_env = "path \<Rightarrow> goerr option"

definition os_Remove :: "remove_env \<Rightarrow> path \<Rightarrow> manager \<Rightarrow> goerr option \<times> manager" where
  "os_Remove rm p m =
     (if w_files m p = None then (Some (SysErr (Some OsErrNotExist) ''remove''), m)
      else (case rm p of Some e \<Rightarrow> (Some e, m) | None \<Rightarrow> (None, m\<lparr>w_files := (w_files m)(p := None)\<rparr>)))"

fun remove_loop :: "remove_env \<Rightarrow> path list \<Rightarrow> string list \<Rightarrow> (string \<times> goerr) list \<Rightarrow> manager
   \<Rightarrow> string list \<times> (string \<times> goerr) list \<times> manager" where
  "remove_loop rm [] removed failed m = (removed, failed, m)"
| "remove_loop rm (p # ps) removed failed m =
     (case os_Remove rm p m of
        (Some e, m1) \<Rightarrow>
          if \<not> os_is_not_exist e then remove_loop rm ps removed (failed @ [(p, e)]) m1
          else remove_loop rm ps removed failed m1
      | (None, m1) \<Rightarrow> remove_loop rm ps (removed @ [p]) failed m1)"

definition cleanupOwnsRuntimeArtifacts :: "uint64 \<Rightarrow> manager \<Rightarrow> bool" where
  "cleanupOwnsRuntimeArtifacts generation m \<longleftrightarrow>
     (if mg_gen m = generation then True else mg_pid m = 0 \<and> st_SocketPath (mg_state m) = [])"

definition cleanupRuntimeArtifacts :: "remove_env \<Rightarrow> uint64 \<Rightarrow> manager \<Rightarrow> manager" where
  "cleanupRuntimeArtifacts rm generation m =
     (let socketPath = mg_socket m; authPath = mg_auth m
      in if generation \<noteq> 0 \<and> \<not> cleanupOwnsRuntimeArtifacts generation m then
           logEvent ((kev m LevelDebug ComponentRuntime EventRuntimeCleanup generation 0 socketPath
               ''stale runtime artifact cleanup skipped'')
             \<lparr>ev_Details := [(''current_generation'', VInt (uint (st_GenerationID (StateOf m))))]\<rparr>) m
         else
           (case remove_loop rm [socketPath, authPath] [] [] m of
              (removed, failed, m1) \<Rightarrow>
                if failed \<noteq> [] then
                  logEvent ((kev m LevelWarn ComponentRuntime EventRuntimeCleanupFailed generation 0 socketPath
                      ''runtime artifact cleanup had failures'')
                    \<lparr>ev_Details := [(''removed'', VStrings removed),
                                    (''failed'', VMap (map (\<lambda>(p, e). (p, VOther)) failed))]\<rparr>) m1
                else
                  logEvent ((kev m LevelInfo ComponentRuntime EventRuntimeCleanup generation 0 socketPath
                      ''runtime artifacts cleaned up'')
                    \<lparr>ev_Details := [(''removed'', VStrings removed)]\<rparr>) m1))"

definition rollbackGeneration :: "uint64 \<Rightarrow> manager \<Rightarrow> manager" where
  "rollbackGeneration generation m =
     (if mg_gen m = generation
      then m\<lparr>mg_state := zero_state\<lparr>st_PluginID := mg_id m, st_GenerationID := generation - 1\<rparr>\<rparr>
      else m)"

section \<open>RPC client\<close>

text \<open>\<open>(*rpcClient).close\<close>: the connection is closed whatever \<open>Close\<close> returns.\<close>

definition close_client :: "client option \<Rightarrow> manager \<Rightarrow> manager" where
  "close_client c m = (case c of None \<Rightarrow> m | Some k \<Rightarrow> m\<lparr>w_conns := w_conns m - {k}\<rparr>)"

definition isRPCPoisonError :: "goerr option \<Rightarrow> bool" where
  "isRPCPoisonError e =
     (case e of
        None \<Rightarrow> False
      | Some e \<Rightarrow>
          if err_is e RpcErrShutdown \<or> err_is e IoEOF \<or> err_is e IoErrUnexpectedEOF \<or> err_is e NetErrClosed
          then True else err_as_net e)"

text \<open>The section of \<open>poisonClient\<close> under the lock.\<close>

definition poison_detach :: "client \<Rightarrow> manager \<Rightarrow> manager" where
  "poison_detach c m =
     (if mg_client m = Some c then m\<lparr>mg_client := None, mg_state := (mg_state m)\<lparr>st_Healthy := False\<rparr>\<rparr> else m)"

definition poisonClient :: "client option \<Rightarrow> uint64 \<Rightarrow> string \<Rightarrow> string \<Rightarrow> goerr option \<Rightarrow> manager \<Rightarrow> manager" where
  "poisonClient client generation method reason cause m =
     (case client of
        None \<Rightarrow> m
      | Some c \<Rightarrow>
          (let state = StateOf m; m1 = poison_detach c m;
               m2 = logEvent ((kev m LevelWarn ComponentRPC EventRPCPoisoned generation (st_PID state)
                   (st_SocketPath state) ''rpc client poisoned and detached'')
                 \<lparr>ev_Method := method, ev_Reason := reason, ev_Error := cause\<rparr>) m1
           in close_client (Some c) m2))"

text \<open>The condition under which \<open>call\<close> rejects a reply.\<close>

definition stale_response :: "client \<Rightarrow> uint64 \<Rightarrow> uint64 \<Rightarrow> manager \<Rightarrow> bool" where
  "stale_response client generation epoch m \<longleftrightarrow>
     generation \<noteq> mg_gen m
     \<or> (epoch \<noteq> 0 \<and> (mg_closed m \<or> mg_client m \<noteq> Some client \<or> mg_rpcEpoch m \<noteq> epoch))"

text \<open>
  \<open>call\<close>. \<open>intf\<close> is what other goroutines do between the start of the call and the moment its outcome
  is taken from the channel or the timer.
\<close>

definition call ::
  "(manager \<Rightarrow> manager) \<Rightarrow> client option \<Rightarrow> uint64 \<Rightarrow> uint64 \<Rightarrow> string \<Rightarrow> 'r rpc_outcome \<Rightarrow> manager
   \<Rightarrow> (goerr + 'r) \<times> manager" where
  "call intf client generation epoch method outcome m =
     (case client of
        None \<Rightarrow> (Inl (err ''rpc client unavailable''), m)
      | Some c \<Rightarrow>
          (let state = StateOf m;
               ev = (\<lambda>lvl name msg. (kev m lvl ComponentRPC name generation (st_PID state)
                       (st_SocketPath state) msg)\<lparr>ev_Method := method\<rparr>);
               m1 = intf (logEvent (ev LevelDebug EventRPCStarted ''rpc call started'') m)
           in case outcome of
                CallErr e \<Rightarrow>
                  (let m2 = (if isRPCPoisonError (Some e)
                             then poisonClient client generation method ''rpc transport failure'' (Some e) m1
                             else m1)
                   in (Inl e, logEvent ((ev LevelWarn EventRPCFailed ''rpc call failed'')\<lparr>ev_Error := Some e\<rparr>) m2))
              | Reply r \<Rightarrow>
                  if stale_response c generation epoch m1 then
                    (let e = Errorf ''stale response rejected: generation=%d current=%d epoch=%d current_epoch=%d''
                               [FWord generation, FWord (mg_gen m1), FWord epoch, FWord (mg_rpcEpoch m1)]
                     in (Inl e, logEvent ((ev LevelWarn EventRPCFailed ''stale rpc response rejected'')
                                  \<lparr>ev_Error := Some e\<rparr>) m1))
                  else (Inr r, logEvent (ev LevelDebug EventRPCSucceeded ''rpc call succeeded'') m1)
              | CallTimeout \<Rightarrow>
                  (let e = Errorf ''rpc timeout calling %s'' [FStr method];
                       m2 = poisonClient client generation method ''rpc timeout'' (Some e) m1
                   in (Inl e, logEvent ((ev LevelError EventRPCTimeout ''rpc call timed out'')
                                \<lparr>ev_Error := Some e\<rparr>) m2))))"

section \<open>Starting a plugin\<close>

text \<open>
  The outcomes one start depends on: removals, random bytes, writing the token file (a failed write may
  leave the first bytes of the token), the kernel's own environment variables, the spawned process id,
  what the plugin does to the files of the runtime directory while it boots, the dial attempts (time
  taken, and whether it connected), the peer credentials, the replies of the plugin, and what waiting for
  the process returns when the start has to be undone.
\<close>

record start_env =
  se_remove :: remove_env
  se_rand :: reader
  se_write_auth :: "(nat option \<times> goerr) option"
  se_getenv :: "string \<Rightarrow> string"
  se_spawn :: "goerr + int"
  se_boot :: "(path \<Rightarrow> string option) \<Rightarrow> path \<Rightarrow> string option"
  se_dial :: "nat \<Rightarrow> nat \<times> bool"
  se_cred :: cred_env
  se_auth :: "string \<Rightarrow> auth_response rpc_outcome"
  se_caps :: "capabilities_response rpc_outcome"
  se_wait :: "goerr option"

text \<open>
  The loop of \<open>dial\<close>: attempt \<open>k\<close> takes \<open>fst (att k)\<close> nanoseconds, a failed attempt is followed by a
  sleep of 50 ms. The result is the number of the attempt that connected.
\<close>

function dial_loop :: "(nat \<Rightarrow> nat \<times> bool) \<Rightarrow> gotime \<Rightarrow> gotime \<Rightarrow> nat \<Rightarrow> nat option" where
  "dial_loop att deadline now k =
     (if now < deadline then
        if snd (att k) then Some k
        else dial_loop att deadline (now + int (fst (att k)) + 50 * millisecond) (Suc k)
      else None)"
  by pat_completeness auto
termination
  by (relation "measure (\<lambda>(att, deadline, now, k). nat (deadline - now))") auto

declare dial_loop.simps [simp del]

definition new_client :: "manager \<Rightarrow> client \<times> manager" where
  "new_client m = (w_next m, m\<lparr>w_next := Suc (w_next m), w_conns := insert (w_next m) (w_conns m)\<rparr>)"

definition dial :: "(nat \<Rightarrow> nat \<times> bool) \<Rightarrow> path \<Rightarrow> uint64 \<Rightarrow> manager \<Rightarrow> (goerr + client) \<times> manager" where
  "dial att socketPath generation m =
     (let ev = (\<lambda>lvl name msg. kev m lvl ComponentRPC name generation 0 socketPath msg);
          m1 = logEvent (ev LevelInfo EventPluginDialStarted ''dialing plugin socket'') m
      in case dial_loop att (cf_DialTimeout (mg_cfg m)) 0 0 of
           Some _ \<Rightarrow>
             (let (c, m2) = new_client (logEvent (ev LevelInfo EventPluginDialSucceeded
                    ''plugin socket dial succeeded'') m1)
              in (Inr c, m2))
         | None \<Rightarrow>
             (let e = Errorf ''dial plugin socket timeout: %s'' [FStr socketPath]
              in (Inl e, logEvent ((ev LevelError EventPluginDialFailed ''plugin socket dial timed out'')
                           \<lparr>ev_Error := Some e\<rparr>) m1)))"

definition verifyPeerCred :: "cred_env \<Rightarrow> client option \<Rightarrow> int \<Rightarrow> uint64 \<Rightarrow> manager \<Rightarrow> goerr option \<times> manager" where
  "verifyPeerCred env client wantPID generation m =
     (if client = None then (Some (err ''peercred verification requires connected unix socket''), m)
      else (case ReadPeerCred env of
        Inl e \<Rightarrow> (Some (Wrapf ''read peer credentials: %w'' [] e), m)
      | Inr cred \<Rightarrow>
          if pc_PID cred \<noteq> wantPID then
            (Some (Errorf ''peer pid mismatch: got %d want %d'' [FInt (pc_PID cred), FInt wantPID]), m)
          else (None, logEvent ((kev m LevelInfo ComponentAuth EventPeerCredVerified generation wantPID
                  (mg_socket m) ''plugin peer credentials verified'')
                \<lparr>ev_Details := [(''peer_uid'', VInt (uint (pc_UID cred))),
                                (''peer_gid'', VInt (uint (pc_GID cred)))]\<rparr>) m)))"

text \<open>After \<open>Wait\<close> returned without a real failure the process is gone and reaped.\<close>

definition reap :: "cmd option \<Rightarrow> manager \<Rightarrow> manager" where
  "reap c m = (case c of None \<Rightarrow> m | Some c \<Rightarrow> m\<lparr>w_procs := w_procs m - {cmd_Pid c}\<rparr>)"

definition real_failure :: "goerr option \<Rightarrow> bool" where
  "real_failure e = (case e of None \<Rightarrow> False | Some e \<Rightarrow> \<not> err_is e OsErrProcessDone)"

text \<open>
  \<open>cleanupFailedStart\<close> discards what \<open>Process.Kill\<close> and \<open>Process.Wait\<close> return. \<open>we\<close> is the result of
  \<open>Wait\<close>: where it is a real failure the process is not known to have ended and counts as left behind,
  and the rest of the clean-up goes on all the same. The result of \<open>Kill\<close> has no other effect than on
  how \<open>Wait\<close> ends.
\<close>

definition cleanupFailedStart ::
  "remove_env \<Rightarrow> goerr option \<Rightarrow> cmd option \<Rightarrow> client option \<Rightarrow> uint64 \<Rightarrow> string \<Rightarrow> goerr option \<Rightarrow> manager
   \<Rightarrow> manager" where
  "cleanupFailedStart rm we c client generation reason cause m =
     (let m0 = close_client client m;
          m1 = (if real_failure we then m0 else reap c m0);
          pid = (case c of None \<Rightarrow> 0 | Some c \<Rightarrow> cmd_Pid c);
          m2 = rollbackGeneration generation m1;
          m3 = logEvent ((kev m LevelError ComponentKernel EventPluginStartFailed generation pid (mg_socket m)
                 ''plugin start failed and was cleaned up'')\<lparr>ev_Reason := reason, ev_Error := cause\<rparr>) m2
      in cleanupRuntimeArtifacts rm generation m3)"

text \<open>The first critical section: refuse, or reserve the next generation.\<close>

definition start_reserve :: "manager \<Rightarrow> (goerr + uint64) \<times> manager" where
  "start_reserve m =
     (if mg_closed m then (Inl (err ''manager closed''), m)
      else if mg_cmd m \<noteq> None \<or> mg_client m \<noteq> None then (Inl (err ''plugin already started''), m)
      else (let generation = mg_gen m + 1
            in (Inr generation, m\<lparr>mg_state := zero_state\<lparr>st_PluginID := mg_id m,
                  st_GenerationID := generation, st_SocketPath := mg_socket m\<rparr>\<rparr>)))"

text \<open>Events of a start that carry the process id.\<close>

definition start_ev :: "manager \<Rightarrow> uint64 \<Rightarrow> int \<Rightarrow> string \<Rightarrow> string \<Rightarrow> string \<Rightarrow> string \<Rightarrow> kevent" where
  "start_ev m generation pid lvl cmpn name msg = kev m lvl cmpn name generation pid (mg_socket m) msg"

text \<open>Stale artifacts are removed, a fresh token is created and written to the token file.\<close>

definition start_token :: "start_env \<Rightarrow> uint64 \<Rightarrow> manager \<Rightarrow> (goerr + string) \<times> manager" where
  "start_token env generation m =
     (let m1 = snd (os_Remove (se_remove env) (mg_auth m) (snd (os_Remove (se_remove env) (mg_socket m) m)));
          m2 = logEvent ((start_ev m generation 0 LevelInfo ComponentKernel EventPluginStartRequested
                  ''starting plugin process'')
                \<lparr>ev_Details := [(''plugin_path'', VString (cf_PluginPath (mg_cfg m)))]\<rparr>) m1
      in case NewToken (se_rand env) of
           Inl e \<Rightarrow>
             (Inl e, logEvent ((start_ev m generation 0 LevelError ComponentAuth EventPluginStartFailed
                 ''failed to create bootstrap token'')\<lparr>ev_Error := Some e\<rparr>) (rollbackGeneration generation m2))
         | Inr token \<Rightarrow>
             (case se_write_auth env of
                Some (k, e) \<Rightarrow>
                  (let wrapped = Wrapf ''write auth token file: %w'' [] e;
                       m3 = (case k of None \<Rightarrow> m2
                             | Some n \<Rightarrow> m2\<lparr>w_files := (w_files m2)(mg_auth m \<mapsto> take n token)\<rparr>)
                   in (Inl wrapped, logEvent ((start_ev m generation 0 LevelError ComponentAuth
                         EventPluginStartFailed ''failed to write bootstrap token file'')
                         \<lparr>ev_Error := Some wrapped\<rparr>) (rollbackGeneration generation m3)))
              | None \<Rightarrow> (Inr token, m2\<lparr>w_files := (w_files m2)(mg_auth m \<mapsto> token)\<rparr>)))"

definition plugin_env :: "(string \<Rightarrow> string) \<Rightarrow> uint64 \<Rightarrow> manager \<Rightarrow> string list" where
  "plugin_env getenv generation m =
     [EnvSocket @ ''='' @ mg_socket m, EnvPluginID @ ''='' @ mg_id m,
      EnvGeneration @ ''='' @ dec (unat generation), EnvAuthFile @ ''='' @ mg_auth m]
     @ (if getenv BehaviorConfigEnv \<noteq> [] then [BehaviorConfigEnv @ ''='' @ getenv BehaviorConfigEnv] else [])
     @ (if getenv ShutdownMarkerEnv \<noteq> [] then [ShutdownMarkerEnv @ ''='' @ getenv ShutdownMarkerEnv] else [])"

definition start_spawn :: "start_env \<Rightarrow> uint64 \<Rightarrow> manager \<Rightarrow> (goerr + cmd) \<times> manager" where
  "start_spawn env generation m =
     (case se_spawn env of
        Inl e \<Rightarrow>
          (let wrapped = Wrapf ''start plugin: %w'' [] e
           in (Inl wrapped, logEvent ((start_ev m generation 0 LevelError ComponentKernel EventPluginStartFailed
                 ''plugin process failed to start'')\<lparr>ev_Error := Some wrapped\<rparr>) (rollbackGeneration generation m)))
      | Inr pid \<Rightarrow>
          (Inr \<lparr>cmd_Path = cf_PluginPath (mg_cfg m), cmd_Env = plugin_env (se_getenv env) generation m, cmd_Pid = pid\<rparr>,
           m\<lparr>w_procs := insert pid (w_procs m), w_files := se_boot env (w_files m)\<rparr>))"

definition start_connect :: "start_env \<Rightarrow> uint64 \<Rightarrow> cmd \<Rightarrow> manager \<Rightarrow> (goerr + client) \<times> manager" where
  "start_connect env generation c m =
     (case dial (se_dial env) (mg_socket m) generation m of
        (Inl e, m1) \<Rightarrow> (Inl e, cleanupFailedStart (se_remove env) (se_wait env) (Some c) None generation ''dial failure'' (Some e) m1)
      | (Inr client, m1) \<Rightarrow>
          (case verifyPeerCred (se_cred env) (Some client) (cmd_Pid c) generation m1 of
             (Some e, m2) \<Rightarrow>
               (let m3 = logEvent ((start_ev m generation (cmd_Pid c) LevelError ComponentAuth EventAuthFailed
                       ''plugin peer credentials verification failed'')\<lparr>ev_Error := Some e\<rparr>) m2
                in (Inl e, cleanupFailedStart (se_remove env) (se_wait env) (Some c) (Some client) generation
                      ''peer credential mismatch'' (Some e) m3))
           | (None, m2) \<Rightarrow> (Inr client, m2)))"

text \<open>Log a failure of the handshake with component \<open>cmpn\<close> and event \<open>name\<close>, then clean up.\<close>

definition start_abort ::
  "start_env \<Rightarrow> uint64 \<Rightarrow> cmd \<Rightarrow> client \<Rightarrow> string \<Rightarrow> string \<Rightarrow> string \<Rightarrow> string \<Rightarrow> goerr \<Rightarrow> manager \<Rightarrow> manager" where
  "start_abort env generation c client cmpn name msg reason e m =
     cleanupFailedStart (se_remove env) (se_wait env) (Some c) (Some client) generation reason (Some e)
       (logEvent ((start_ev m generation (cmd_Pid c) LevelError cmpn name msg)\<lparr>ev_Error := Some e\<rparr>) m)"

definition id_mismatch :: "string \<Rightarrow> manager \<Rightarrow> goerr" where
  "id_mismatch got m = Errorf ''plugin id mismatch: got %q want %q'' [FStr got, FStr (mg_id m)]"

definition gen_mismatch :: "uint64 \<Rightarrow> uint64 \<Rightarrow> goerr" where
  "gen_mismatch got want = Errorf ''generation mismatch: got %d want %d'' [FWord got, FWord want]"

definition start_authenticate ::
  "start_env \<Rightarrow> uint64 \<Rightarrow> string \<Rightarrow> cmd \<Rightarrow> client \<Rightarrow> manager \<Rightarrow> goerr option \<times> manager" where
  "start_authenticate env generation token c client m =
     (let abort = start_abort env generation c client ComponentAuth EventAuthFailed;
          m1 = logEvent (start_ev m generation (cmd_Pid c) LevelInfo ComponentAuth EventAuthStarted
                 ''authenticating plugin bootstrap token'') m
      in case call id (Some client) generation 0 MethodAuth (se_auth env token) m1 of
           (Inl e, m2) \<Rightarrow>
             (let wrapped = Wrapf ''auth rpc: %w'' [] e
              in (Some wrapped, abort ''plugin authentication failed'' ''auth rpc failure'' wrapped m2))
         | (Inr authResp, m2) \<Rightarrow>
             if ar_PluginID authResp \<noteq> mg_id m then
               (let e = id_mismatch (ar_PluginID authResp) m
                in (Some e, abort ''plugin authentication returned wrong plugin id'' ''auth plugin id mismatch'' e m2))
             else if ar_GenerationID authResp \<noteq> generation then
               (let e = gen_mismatch (ar_GenerationID authResp) generation
                in (Some e, abort ''plugin authentication returned wrong generation'' ''auth generation mismatch'' e m2))
             else
               (let m3 = logEvent (start_ev m generation (cmd_Pid c) LevelInfo ComponentAuth EventAuthSucceeded
                           ''plugin authentication succeeded'') m2
                in (None, snd (os_Remove (se_remove env) (mg_auth m) m3))))"

definition start_capabilities ::
  "start_env \<Rightarrow> uint64 \<Rightarrow> cmd \<Rightarrow> client \<Rightarrow> manager \<Rightarrow> (goerr + capabilities_response) \<times> manager" where
  "start_capabilities env generation c client m =
     (let abort = start_abort env generation c client ComponentKernel EventCapabilitiesFailed;
          m1 = logEvent (start_ev m generation (cmd_Pid c) LevelInfo ComponentKernel EventCapabilitiesStarted
                 ''loading plugin capabilities'') m
      in case call id (Some client) generation 0 MethodCapabilities (se_caps env) m1 of
           (Inl e, m2) \<Rightarrow>
             (let wrapped = Wrapf ''capabilities rpc: %w'' [] e
              in (Inl wrapped, abort ''loading plugin capabilities failed'' ''capabilities rpc failure'' wrapped m2))
         | (Inr caps, m2) \<Rightarrow>
             if cr_PluginID caps \<noteq> mg_id m then
               (let e = id_mismatch (cr_PluginID caps) m
                in (Inl e, abort ''capabilities returned wrong plugin id'' ''capabilities plugin id mismatch'' e m2))
             else if cr_GenerationID caps \<noteq> generation then
               (let e = gen_mismatch (cr_GenerationID caps) generation
                in (Inl e, abort ''capabilities returned wrong generation'' ''capabilities generation mismatch'' e m2))
             else if ''__capabilities_error__'' \<in> set (cr_Capabilities caps) then
               (let e = err ''capabilities rpc: capabilities failure requested''
                in (Inl e, abort ''plugin requested synthetic capabilities failure''
                      ''capabilities sentinel failure'' e m2))
             else (Inr caps, m2))"

text \<open>The second critical section: attach process and client, publish the healthy state.\<close>

definition start_commit :: "cmd \<Rightarrow> client \<Rightarrow> capabilities_response \<Rightarrow> path \<Rightarrow> manager \<Rightarrow> manager" where
  "start_commit c client caps socketPath m =
     m\<lparr>mg_cmd := Some c, mg_client := Some client,
       mg_state := zero_state\<lparr>st_PluginID := cr_PluginID caps, st_GenerationID := cr_GenerationID caps,
         st_Healthy := True, st_Capabilities := cr_Capabilities caps, st_SocketPath := socketPath,
         st_PID := cmd_Pid c\<rparr>\<rparr>"

definition start_announce :: "cmd \<Rightarrow> capabilities_response \<Rightarrow> path \<Rightarrow> manager \<Rightarrow> manager" where
  "start_announce c caps socketPath m =
     (let ev = (\<lambda>name msg. (zero_event None)\<lparr>ev_Level := LevelInfo, ev_Component := ComponentKernel,
                  ev_Event := name, ev_PluginID := cr_PluginID caps, ev_GenerationID := cr_GenerationID caps,
                  ev_PID := cmd_Pid c, ev_SocketPath := socketPath, ev_Message := msg\<rparr>);
          m1 = logEvent ((ev EventCapabilitiesLoaded ''plugin capabilities loaded'')
                 \<lparr>ev_Details := [(''capabilities'', VStrings (cr_Capabilities caps))]\<rparr>) m
      in logEvent (ev EventPluginStarted (''plugin started and healthy, capabilities=['' @
           join_with (CHR '' '') (cr_Capabilities caps) @ '']'')) m1)"

definition startLocked :: "start_env \<Rightarrow> manager \<Rightarrow> goerr option \<times> manager" where
  "startLocked env m =
     (case start_reserve m of (Inl e, m1) \<Rightarrow> (Some e, m1) | (Inr generation, m1) \<Rightarrow>
      (case start_token env generation m1 of (Inl e, m2) \<Rightarrow> (Some e, m2) | (Inr token, m2) \<Rightarrow>
      (case start_spawn env generation m2 of (Inl e, m3) \<Rightarrow> (Some e, m3) | (Inr c, m3) \<Rightarrow>
      (case start_connect env generation c m3 of (Inl e, m4) \<Rightarrow> (Some e, m4) | (Inr client, m4) \<Rightarrow>
      (case start_authenticate env generation token c client m4 of (Some e, m5) \<Rightarrow> (Some e, m5) | (None, m5) \<Rightarrow>
      (case start_capabilities env generation c client m5 of (Inl e, m6) \<Rightarrow> (Some e, m6) | (Inr caps, m6) \<Rightarrow>
        (None, start_announce c caps (mg_socket m) (start_commit c client caps (mg_socket m) m6))))))))"

definition Start :: "start_env \<Rightarrow> manager \<Rightarrow> goerr option \<times> manager" where
  "Start env m = startLocked env m"

section \<open>Stopping a plugin\<close>

text \<open>
  How waiting for the process ends: within the grace period of 250 ms with the result of \<open>Wait\<close>, or
  not, and then with the results of sending SIGKILL and of the following \<open>Wait\<close>.
\<close>

datatype wait_outcome = Exited "goerr option" | GraceExpired "goerr option" "goerr option"

text \<open>\<open>ke_exit\<close> is what the plugin does to the files while it shuts down.\<close>

record stop_env =
  ke_shutdown :: "unit rpc_outcome"
  ke_exit :: "(path \<Rightarrow> string option) \<Rightarrow> path \<Rightarrow> string option"
  ke_wait :: wait_outcome
  ke_remove :: remove_env

text \<open>The critical section of \<open>stopCurrent\<close>: detach client and process, advance the epoch.\<close>

definition stop_detach :: "bool \<Rightarrow> manager \<Rightarrow> goerr + manager" where
  "stop_detach markClosed m =
     (if mg_closed m then Inl (err ''manager closed'')
      else Inr (m\<lparr>mg_rpcEpoch := mg_rpcEpoch m + 1, mg_client := None, mg_cmd := None,
                  mg_state := (mg_state m)\<lparr>st_Healthy := False, st_PID := 0\<rparr>,
                  mg_closed := (if markClosed then True else mg_closed m)\<rparr>))"

text \<open>The graceful part: ask the plugin to shut down over the detached client, then close it.\<close>

definition stop_graceful ::
  "unit rpc_outcome \<Rightarrow> client option \<Rightarrow> uint64 \<Rightarrow> int \<Rightarrow> path \<Rightarrow> manager \<Rightarrow> manager" where
  "stop_graceful outcome client generation pid socketPath m =
     (case client of
        None \<Rightarrow> m
      | Some c \<Rightarrow>
          (let ev = (\<lambda>lvl name msg. (kev m lvl ComponentKernel name generation pid socketPath msg)
                       \<lparr>ev_Method := MethodShutdown\<rparr>);
               m1 = logEvent (ev LevelInfo EventShutdownRequested ''requesting graceful shutdown'') m;
               m3 = (case call id (Some c) generation 0 MethodShutdown outcome m1 of
                       (Inl e, m2) \<Rightarrow> logEvent ((ev LevelWarn EventShutdownFailed ''graceful shutdown failed'')
                                       \<lparr>ev_Error := Some e\<rparr>) m2
                     | (Inr _, m2) \<Rightarrow> logEvent (ev LevelInfo EventShutdownSucceeded
                                       ''graceful shutdown succeeded'') m2)
           in close_client (Some c) m3))"

definition stop_finish ::
  "remove_env \<Rightarrow> uint64 \<Rightarrow> int \<Rightarrow> path \<Rightarrow> string \<Rightarrow> string \<Rightarrow> string \<Rightarrow> string \<Rightarrow> manager \<Rightarrow> goerr option \<times> manager" where
  "stop_finish rm generation pid socketPath reason lvl name msg m =
     (None, cleanupRuntimeArtifacts rm generation
        (logEvent ((kev m lvl ComponentKernel name generation pid socketPath msg)\<lparr>ev_Reason := reason\<rparr>) m))"

definition stopCurrent :: "stop_env \<Rightarrow> bool \<Rightarrow> string \<Rightarrow> manager \<Rightarrow> goerr option \<times> manager" where
  "stopCurrent env markClosed reason m =
     (case stop_detach markClosed m of
        Inl e \<Rightarrow> (Some e, m)
      | Inr m1 \<Rightarrow>
          (let generation = mg_gen m; socketPath = st_SocketPath (mg_state m); pid = mg_pid m;
               m2 = logEvent ((kev m LevelWarn ComponentKernel EventKillRequested generation pid socketPath
                       ''stopping plugin process'')\<lparr>ev_Reason := reason\<rparr>) m1;
               m3 = stop_graceful (ke_shutdown env) (mg_client m) generation pid socketPath m2;
               stopped = stop_finish (ke_remove env) generation pid socketPath reason LevelInfo EventPluginStopped
                           ''plugin process stopped'';
               killed = stop_finish (ke_remove env) generation pid socketPath reason LevelWarn EventPluginKilled
                           ''plugin process killed after grace period''
           in case mg_cmd m of
                None \<Rightarrow> stopped m3
              | Some c \<Rightarrow>
                  (let m4 = m3\<lparr>w_files := ke_exit env (w_files m3)\<rparr>
                   in case ke_wait env of
                        Exited we \<Rightarrow>
                          if real_failure we then (Some (Wrapf ''wait plugin exit: %w'' [] (the we)), m4)
                          else stopped (reap (Some c) m4)
                      | GraceExpired se we \<Rightarrow>
                          if real_failure se then (Some (Wrapf ''kill plugin: %w'' [] (the se)), m4)
                          else if real_failure we then (Some (Wrapf ''wait plugin exit after kill: %w'' [] (the we)), m4)
                          else killed (reap (Some c) m4))))"

definition Kill :: "stop_env \<Rightarrow> manager \<Rightarrow> goerr option \<times> manager" where
  "Kill env m = stopCurrent env False ''kill requested'' m"

text \<open>\<open>Close\<close>; \<open>log_close\<close> is what closing the event log returns.\<close>

definition Close :: "stop_env \<Rightarrow> goerr option \<Rightarrow> manager \<Rightarrow> goerr option \<times> manager" where
  "Close env log_close m =
     (if mg_closeDone m then (mg_closeErr m, m)
      else
        (let (e, m1) = stopCurrent env True ''manager close'' m;
             m2 = (if \<not> mg_closed m1 then m1\<lparr>mg_closed := True, mg_rpcEpoch := mg_rpcEpoch m1 + 1\<rparr> else m1);
             m3 = cleanupRuntimeArtifacts (ke_remove env) 0 (m2\<lparr>mg_closedCh := True\<rparr>);
             e1 = (if e = None then log_close else e)
         in (e1, m3\<lparr>mg_closeErr := e1, mg_closeDone := True\<rparr>)))"

definition Restart :: "stop_env \<Rightarrow> start_env \<Rightarrow> manager \<Rightarrow> goerr option \<times> manager" where
  "Restart kenv senv m =
     (if mg_closed m then (Some (err ''manager closed''), m)
      else
        (let ev = (\<lambda>lvl name msg. kev m lvl ComponentKernel name (mg_gen m) (mg_pid m)
                      (st_SocketPath (mg_state m)) msg);
             m1 = logEvent (ev LevelWarn EventRestartRequested ''restart requested'') m
         in case stopCurrent kenv False ''restart requested'' m1 of
              (Some e, m2) \<Rightarrow>
                (Some e, logEvent ((ev LevelError EventRestartFailed ''restart failed during stop phase'')
                   \<lparr>ev_Error := Some e\<rparr>) m2)
            | (None, m2) \<Rightarrow>
                (case startLocked senv m2 of
                   (Some e, m3) \<Rightarrow>
                     (Some e, logEvent ((ev LevelError EventRestartFailed ''restart failed during start phase'')
                        \<lparr>ev_Error := Some e\<rparr>) m3)
                 | (None, m3) \<Rightarrow>
                     (let state = StateOf m3
                      in (None, logEvent ((zero_event None)\<lparr>ev_Level := LevelInfo, ev_Component := ComponentKernel,
                           ev_Event := EventRestartSucceeded, ev_PluginID := st_PluginID state,
                           ev_GenerationID := st_GenerationID state, ev_PID := st_PID state,
                           ev_SocketPath := st_SocketPath state, ev_Message := ''restart succeeded''\<rparr>) m3)))))"

section \<open>Calls\<close>

text \<open>\<open>he_wait\<close> and \<open>he_commit\<close>: interference while the call waits, and between its return and the update.\<close>

record heartbeat_env =
  he_outcome :: "heartbeat_response rpc_outcome"
  he_wait :: "manager \<Rightarrow> manager"
  he_commit :: "manager \<Rightarrow> manager"

definition stale_heartbeat :: "client \<Rightarrow> uint64 \<Rightarrow> uint64 \<Rightarrow> manager \<Rightarrow> bool" where
  "stale_heartbeat client generation epoch m \<longleftrightarrow>
     mg_closed m \<or> mg_client m \<noteq> Some client \<or> mg_rpcEpoch m \<noteq> epoch \<or> mg_gen m \<noteq> generation"

text \<open>
  \<open>Heartbeat\<close>; the response is returned next to an error. The reply of a call that failed is the zero
  response, that of a stale one is what the plugin sent.
\<close>

definition Heartbeat :: "heartbeat_env \<Rightarrow> manager \<Rightarrow> (heartbeat_response \<times> goerr option) \<times> manager" where
  "Heartbeat env m =
     (let generation = mg_gen m; epoch = mg_rpcEpoch m;
          ev = (\<lambda>lvl name msg. (kev m lvl ComponentKernel name generation (mg_pid m)
                  (st_SocketPath (mg_state m)) msg)\<lparr>ev_Method := MethodHeartbeat\<rparr>)
      in if mg_closed m then ((zero_heartbeat, Some (err ''manager closed'')), m)
         else (case mg_client m of
           None \<Rightarrow> ((zero_heartbeat, Some (err ''plugin not started'')), m)
         | Some client \<Rightarrow>
             (case call (he_wait env) (Some client) generation epoch MethodHeartbeat (he_outcome env) m of
                (Inl e, m1) \<Rightarrow>
                  ((case he_outcome env of Reply out \<Rightarrow> out | _ \<Rightarrow> zero_heartbeat, Some e),
                   logEvent ((ev LevelWarn EventHeartbeatFailed ''heartbeat failed'')\<lparr>ev_Error := Some e\<rparr>) m1)
              | (Inr out, m1) \<Rightarrow>
                  (let healthy = (hr_Status out = StatusHealthy); m2 = he_commit env m1
                   in if stale_heartbeat client generation epoch m2 then
                        ((out, Some (Errorf ''stale heartbeat rejected: generation=%d epoch=%d''
                                 [FWord generation, FWord epoch])), m2)
                      else
                        (let wasHealthy = mg_healthy m2;
                             m3 = m2\<lparr>mg_state := (mg_state m2)\<lparr>st_Healthy := healthy\<rparr>\<rparr>
                         in ((out, None),
                             if healthy then
                               (if \<not> wasHealthy
                                then logEvent (ev LevelInfo EventHeartbeatHealthy ''heartbeat transitioned to healthy'') m3
                                else m3)
                             else logEvent ((ev LevelWarn EventHeartbeatUnhealthy ''heartbeat returned unhealthy status'')
                                    \<lparr>ev_Reason := hr_Status out\<rparr>) m3))))))"

text \<open>The common shape of \<open>Echo\<close>, \<open>Sleep\<close> and \<open>Crash\<close>: snapshot, refuse or call.\<close>

definition plugin_call ::
  "(manager \<Rightarrow> manager) \<Rightarrow> string \<Rightarrow> 'r rpc_outcome \<Rightarrow> manager \<Rightarrow> (goerr + 'r) \<times> manager" where
  "plugin_call intf method outcome m =
     (if mg_closed m then (Inl (err ''manager closed''), m)
      else (case mg_client m of
        None \<Rightarrow> (Inl (err ''plugin not started''), m)
      | Some client \<Rightarrow> call intf (Some client) (mg_gen m) (mg_rpcEpoch m) method outcome m))"

definition Echo :: "(manager \<Rightarrow> manager) \<Rightarrow> (string \<Rightarrow> string rpc_outcome) \<Rightarrow> string \<Rightarrow> manager
   \<Rightarrow> (goerr + string) \<times> manager" where
  "Echo intf plugin message m = plugin_call intf MethodEcho (plugin message) m"

definition Sleep :: "(manager \<Rightarrow> manager) \<Rightarrow> (duration \<Rightarrow> unit rpc_outcome) \<Rightarrow> duration \<Rightarrow> manager
   \<Rightarrow> (goerr + unit) \<times> manager" where
  "Sleep intf plugin d m = plugin_call intf MethodSleep (plugin d) m"

definition Crash :: "(manager \<Rightarrow> manager) \<Rightarrow> (int \<Rightarrow> unit rpc_outcome) \<Rightarrow> int \<Rightarrow> manager
   \<Rightarrow> (goerr + unit) \<times> manager" where
  "Crash intf plugin code m = plugin_call intf MethodCrash (plugin code) m"

section \<open>Monitoring\<close>

text \<open>
  One tick of \<open>MonitorLoop\<close> (\<open>src/src/internal/kernel/monitor.go\<close>); the boolean says whether the loop
  goes on. \<open>mt_closed\<close> is interference before \<open>closedCh\<close> is polled.
\<close>

record tick_env =
  mt_heartbeat :: heartbeat_env
  mt_closed :: "manager \<Rightarrow> manager"
  mt_stop :: stop_env
  mt_start :: start_env

definition monitor_tick :: "tick_env \<Rightarrow> manager \<Rightarrow> bool \<times> manager" where
  "monitor_tick env m =
     (case Heartbeat (mt_heartbeat env) m of
        ((_, None), m1) \<Rightarrow> (True, m1)
      | ((_, Some e), m1) \<Rightarrow>
          (let m2 = mt_closed env m1
           in if mg_closedCh m2 then (False, m2)
              else
                (let m3 = logEvent ((kev m LevelWarn ComponentKernel EventHeartbeatFailed 0 0 []
                            ''monitor observed heartbeat failure and will restart plugin'')
                          \<lparr>ev_Error := Some e, ev_Reason := ''monitor loop heartbeat check''\<rparr>) m2
                 in case Restart (mt_stop env) (mt_start env) m3 of
                      (None, m4) \<Rightarrow> (True, m4)
                    | (Some re, m4) \<Rightarrow>
                        (True, logEvent ((kev m LevelError ComponentKernel EventRestartFailed 0 0 []
                            ''monitor restart attempt failed'')
                          \<lparr>ev_Error := Some re, ev_Reason := ''monitor loop heartbeat recovery''\<rparr>) m4))))"

text \<open>The loop over the ticks that arrive before the context is cancelled.\<close>

fun monitor_loop :: "tick_env list \<Rightarrow> manager \<Rightarrow> manager" where
  "monitor_loop [] m = m"
| "monitor_loop (t # ts) m = (case monitor_tick t m of (True, m1) \<Rightarrow> monitor_loop ts m1 | (False, m1) \<Rightarrow> m1)"

text \<open>\<open>time.NewTicker\<close> panics when the interval is not positive, which ends the process: the result is then \<open>None\<close>.\<close>

definition MonitorLoop :: "tick_env list \<Rightarrow> manager \<Rightarrow> manager option" where
  "MonitorLoop ticks m = (if cf_HeartbeatEvery (mg_cfg m) \<le> 0 then None else Some (monitor_loop ticks m))"

end
