(* ===== verification/Manager_Lemmas.thy ===== *)
theory Manager_Lemmas
  imports Manager
begin

text \<open>
  What each manager operation does, up to the event log and the files. The \<open>core\<close> of a manager is the
  manager without those two: logging and removing files leave it alone, so every operation is described
  by one equation on cores, and the properties in the following theories are derived from these.
\<close>

section \<open>The core of a manager\<close>

definition core :: "manager \<Rightarrow> manager" where
  "core m = m\<lparr>w_files := Map.empty, w_log := []\<rparr>"

lemma core_sel [simp]:
  "mg_cfg (core m) = mg_cfg m" "mg_state (core m) = mg_state m" "mg_cmd (core m) = mg_cmd m"
  "mg_client (core m) = mg_client m" "mg_rpcEpoch (core m) = mg_rpcEpoch m" "mg_closed (core m) = mg_closed m"
  "mg_closedCh (core m) = mg_closedCh m" "mg_closeDone (core m) = mg_closeDone m"
  "mg_closeErr (core m) = mg_closeErr m" "w_procs (core m) = w_procs m" "w_conns (core m) = w_conns m"
  "w_next (core m) = w_next m"
  by (simp_all add: core_def)

lemma core_upd [simp]:
  "core (m\<lparr>mg_state := s\<rparr>) = (core m)\<lparr>mg_state := s\<rparr>" "core (m\<lparr>mg_cmd := c\<rparr>) = (core m)\<lparr>mg_cmd := c\<rparr>"
  "core (m\<lparr>mg_client := k\<rparr>) = (core m)\<lparr>mg_client := k\<rparr>"
  "core (m\<lparr>mg_rpcEpoch := e\<rparr>) = (core m)\<lparr>mg_rpcEpoch := e\<rparr>"
  "core (m\<lparr>mg_closed := b\<rparr>) = (core m)\<lparr>mg_closed := b\<rparr>"
  "core (m\<lparr>mg_closedCh := b\<rparr>) = (core m)\<lparr>mg_closedCh := b\<rparr>"
  "core (m\<lparr>mg_closeDone := b\<rparr>) = (core m)\<lparr>mg_closeDone := b\<rparr>"
  "core (m\<lparr>mg_closeErr := r\<rparr>) = (core m)\<lparr>mg_closeErr := r\<rparr>"
  "core (m\<lparr>w_procs := ps\<rparr>) = (core m)\<lparr>w_procs := ps\<rparr>" "core (m\<lparr>w_conns := cs\<rparr>) = (core m)\<lparr>w_conns := cs\<rparr>"
  "core (m\<lparr>w_next := n\<rparr>) = (core m)\<lparr>w_next := n\<rparr>"
  "core (m\<lparr>w_files := fs\<rparr>) = core m" "core (m\<lparr>w_log := l\<rparr>) = core m"
  by (simp_all add: core_def)

text \<open>Every component but files and log can be read off the core.\<close>

lemma core_selD:
  assumes "core x = y"
  shows "mg_cfg x = mg_cfg y" "mg_state x = mg_state y" "mg_cmd x = mg_cmd y" "mg_client x = mg_client y"
    "mg_rpcEpoch x = mg_rpcEpoch y" "mg_closed x = mg_closed y" "mg_closedCh x = mg_closedCh y"
    "mg_closeDone x = mg_closeDone y" "mg_closeErr x = mg_closeErr y" "w_procs x = w_procs y"
    "w_conns x = w_conns y" "w_next x = w_next y"
  using assms by auto

text \<open>Two managers with the same core agree on everything but files and log.\<close>

lemma core_eqD:
  assumes "core m' = core m"
  shows "mg_cfg m' = mg_cfg m" "mg_state m' = mg_state m" "mg_cmd m' = mg_cmd m" "mg_client m' = mg_client m"
    "mg_rpcEpoch m' = mg_rpcEpoch m" "mg_closed m' = mg_closed m" "mg_closedCh m' = mg_closedCh m"
    "mg_closeDone m' = mg_closeDone m" "mg_closeErr m' = mg_closeErr m" "w_procs m' = w_procs m"
    "w_conns m' = w_conns m" "w_next m' = w_next m"
  using core_selD [OF assms] by simp_all

lemma core_core [simp]: "core (core m) = core m"
  by (simp add: core_def)

lemma core_same [simp]:
  "(core m)\<lparr>w_procs := w_procs m\<rparr> = core m" "(core m)\<lparr>w_conns := w_conns m\<rparr> = core m"
  "(core m)\<lparr>w_next := w_next m\<rparr> = core m"
  by (cases m, simp add: core_def)+

lemma mg_paths_core [simp]: "mg_socket (core m) = mg_socket m" "mg_auth (core m) = mg_auth m"
  by (simp_all add: mg_socket_def mg_auth_def)

lemma mg_paths_cfg: "mg_cfg m' = mg_cfg m \<Longrightarrow> mg_socket m' = mg_socket m \<and> mg_auth m' = mg_auth m"
  by (simp add: mg_socket_def mg_auth_def)

lemma logEvent_core [simp]: "core (logEvent e m) = core m"
  by (simp add: logEvent_def)

lemma logEvent_files [simp]: "w_files (logEvent e m) = w_files m"
  by (simp add: logEvent_def)

lemmas logEvent_sel [simp] = core_eqD [OF logEvent_core]

section \<open>Files\<close>

lemma os_Remove_core [simp]: "core (snd (os_Remove rm p m)) = core m"
  by (simp add: os_Remove_def split: option.splits)

lemmas os_Remove_sel [simp] = core_eqD [OF os_Remove_core]

lemma os_Remove_other: "q \<noteq> p \<Longrightarrow> w_files (snd (os_Remove rm p m)) q = w_files m q"
  by (simp add: os_Remove_def split: option.splits)

lemma os_Remove_gone: "rm p = None \<Longrightarrow> w_files (snd (os_Remove rm p m)) p = None"
  by (simp add: os_Remove_def)

lemma remove_loop_core: "remove_loop rm ps removed failed m = (r, f, m') \<Longrightarrow> core m' = core m"
proof (induction rm ps removed failed m rule: remove_loop.induct)
  case (2 rm p ps removed failed m)
  obtain e m1 where e: "os_Remove rm p m = (e, m1)" by (cases "os_Remove rm p m")
  then have "core m1 = core m" using os_Remove_core [of rm p m] by simp
  with 2 e show ?case by (cases e) (auto split: if_splits)
qed simp

lemma remove_loop_files:
  "remove_loop rm ps removed failed m = (r, f, m')
   \<Longrightarrow> w_files m' q = (if q \<in> set ps \<and> rm q = None then None else w_files m q)"
proof (induction rm ps removed failed m rule: remove_loop.induct)
  case (2 rm p ps removed failed m)
  obtain e m1 where e: "os_Remove rm p m = (e, m1)" by (cases "os_Remove rm p m")
  have "w_files m1 q = (if q = p \<and> rm q = None then None else w_files m q)"
    using e by (cases "rm p") (auto simp: os_Remove_def split: if_splits)
  with 2 e show ?case by (cases e) (auto split: if_splits)
qed simp

lemma cleanup_core [simp]: "core (cleanupRuntimeArtifacts rm g m) = core m"
  by (auto simp: cleanupRuntimeArtifacts_def Let_def dest: remove_loop_core split: prod.splits
      simp del: remove_loop.simps)

lemmas cleanup_sel [simp] = core_eqD [OF cleanup_core]

text \<open>An owner's cleanup removes exactly the two artifacts, where removal works.\<close>

lemma cleanup_files:
  assumes "g = 0 \<or> cleanupOwnsRuntimeArtifacts g m"
  shows "w_files (cleanupRuntimeArtifacts rm g m) q
    = (if q \<in> {mg_socket m, mg_auth m} \<and> rm q = None then None else w_files m q)"
  using assms
  by (auto simp: cleanupRuntimeArtifacts_def Let_def remove_loop_files split: prod.splits
      simp del: remove_loop.simps)

lemma cleanup_skipped:
  "g \<noteq> 0 \<Longrightarrow> \<not> cleanupOwnsRuntimeArtifacts g m \<Longrightarrow> w_files (cleanupRuntimeArtifacts rm g m) = w_files m"
  by (simp add: cleanupRuntimeArtifacts_def Let_def)

section \<open>Clients and calls\<close>

lemma close_client_core [simp]:
  "core (close_client c m) = (core m)\<lparr>w_conns := w_conns m - set_option c\<rparr>"
  by (cases c) (simp_all add: close_client_def core_def)

lemma close_client_sel [simp]:
  "mg_state (close_client c m) = mg_state m" "mg_cfg (close_client c m) = mg_cfg m"
  "w_procs (close_client c m) = w_procs m"
  by (simp_all add: close_client_def split: option.splits)

lemma close_client_files [simp]: "w_files (close_client c m) = w_files m"
  by (simp add: close_client_def split: option.splits)

lemma reap_core [simp]:
  "core (reap c m) = (core m)\<lparr>w_procs := w_procs m - cmd_Pid ` set_option c\<rparr>"
  by (cases c) (simp_all add: reap_def core_def)

lemma reap_sel [simp]: "mg_state (reap c m) = mg_state m" "mg_cfg (reap c m) = mg_cfg m"
  by (simp_all add: reap_def split: option.splits)

lemma reap_files [simp]: "w_files (reap c m) = w_files m"
  by (simp add: reap_def split: option.splits)

text \<open>A client that is poisoned: detached if it is the current one, and closed.\<close>

definition poisoned :: "client \<Rightarrow> manager \<Rightarrow> manager" where
  "poisoned c m = (poison_detach c m)\<lparr>w_conns := w_conns m - {c}\<rparr>"

fun poisons :: "'r rpc_outcome \<Rightarrow> bool" where
  "poisons (Reply _) = False"
| "poisons (CallErr e) = isRPCPoisonError (Some e)"
| "poisons CallTimeout = True"

lemma poisonClient_core [simp]: "core (poisonClient (Some c) g meth reason cause m) = poisoned c (core m)"
  by (simp add: poisonClient_def poisoned_def poison_detach_def Let_def)

lemma poisonClient_files [simp]: "w_files (poisonClient c g meth reason cause m) = w_files m"
  by (simp add: poisonClient_def poison_detach_def Let_def split: option.splits)

lemma call_core:
  "core (snd (call intf (Some c) g ep meth out m))
   = (let m1 = core (intf (logEvent ((kev m LevelDebug ComponentRPC EventRPCStarted g (st_PID (StateOf m))
          (st_SocketPath (StateOf m)) ''rpc call started'')\<lparr>ev_Method := meth\<rparr>) m))
      in if poisons out then poisoned c m1 else m1)"
  by (simp add: call_def Let_def split: rpc_outcome.splits)

lemma call_id_core:
  "core (snd (call id (Some c) g ep meth out m)) = (if poisons out then poisoned c (core m) else core m)"
  by (simp add: call_core Let_def)

lemma call_id_files [simp]: "w_files (snd (call id (Some c) g ep meth out m)) = w_files m"
  by (simp add: call_def Let_def split: rpc_outcome.splits)

lemma call_id_accepts:
  "call id (Some c) g ep meth out m = (Inr v, m') \<longleftrightarrow>
     out = Reply v \<and> \<not> stale_response c g ep m \<and> m' = snd (call id (Some c) g ep meth out m)"
  by (auto simp: call_def Let_def stale_response_def split: rpc_outcome.splits)

lemma poisoned_detached: "mg_client m \<noteq> Some c \<Longrightarrow> poisoned c m = m\<lparr>w_conns := w_conns m - {c}\<rparr>"
  by (simp add: poisoned_def poison_detach_def)

section \<open>The phases of a start\<close>

definition rolled_back :: "uint64 \<Rightarrow> manager \<Rightarrow> plugin_state" where
  "rolled_back g m = zero_state\<lparr>st_PluginID := mg_id m, st_GenerationID := g - 1\<rparr>"

lemma rollback_core:
  "mg_gen m = g \<Longrightarrow> core (rollbackGeneration g m) = (core m)\<lparr>mg_state := rolled_back g m\<rparr>"
  by (simp add: rollbackGeneration_def rolled_back_def)

lemma rollback_files [simp]: "w_files (rollbackGeneration g m) = w_files m"
  by (simp add: rollbackGeneration_def)

lemma rolled_back_core [simp]: "rolled_back g (core m) = rolled_back g m"
  by (simp add: rolled_back_def)

text \<open>
  What a failed start leaves: the previous generation, nothing attached that was not attached before,
  the client of the attempt gone, and its process too unless waiting for it failed.
\<close>

definition unreaped :: "goerr option \<Rightarrow> int \<Rightarrow> int set \<Rightarrow> int set" where
  "unreaped we pid ps = (if real_failure we then ps else ps - {pid})"

lemma cleanupFailedStart_core:
  assumes "mg_gen m = g"
  shows "core (cleanupFailedStart rm we (Some c) k g reason cause m)
    = (core m)\<lparr>mg_state := rolled_back g m, w_procs := unreaped we (cmd_Pid c) (w_procs m), w_conns := w_conns m - set_option k\<rparr>"
proof -
  have "mg_gen (reap (Some c) (close_client k m)) = g" "mg_gen (close_client k m) = g" using assms by simp_all
  note r = this [THEN rollback_core]
  show ?thesis by (cases "real_failure we") (simp_all add: cleanupFailedStart_def Let_def r rolled_back_def unreaped_def)
qed

lemma start_reserve_cases:
  "start_reserve m = (r, m') \<Longrightarrow>
     (mg_closed m \<and> r = Inl (err ''manager closed'') \<and> m' = m)
     \<or> (\<not> mg_closed m \<and> (mg_cmd m \<noteq> None \<or> mg_client m \<noteq> None) \<and> r = Inl (err ''plugin already started'') \<and> m' = m)
     \<or> (\<not> mg_closed m \<and> mg_cmd m = None \<and> mg_client m = None \<and> r = Inr (mg_gen m + 1)
        \<and> m' = m\<lparr>mg_state := zero_state\<lparr>st_PluginID := mg_id m, st_GenerationID := mg_gen m + 1,
             st_SocketPath := mg_socket m\<rparr>\<rparr>)"
  by (auto simp: start_reserve_def Let_def split: if_splits)

lemma start_token_ok:
  assumes "start_token env g m = (Inr t, m')"
  shows "NewToken (se_rand env) = Inr t \<and> se_write_auth env = None \<and> core m' = core m
    \<and> w_files m' (mg_auth m) = Some t"
  using assms by (auto simp: start_token_def Let_def split: sum.splits option.splits)

lemma start_token_fail:
  assumes "start_token env g m = (Inl e, m')" and "mg_gen m = g"
  shows "core m' = (core m)\<lparr>mg_state := rolled_back g m\<rparr>
    \<and> \<not> ((\<exists>t. NewToken (se_rand env) = Inr t) \<and> se_write_auth env = None)"
  using assms
  by (auto simp: start_token_def Let_def rollback_core rolled_back_def split: sum.splits option.splits)

lemma start_spawn_ok:
  assumes "start_spawn env g m = (Inr c, m')"
  shows "se_spawn env = Inr (cmd_Pid c) \<and> cmd_Path c = cf_PluginPath (mg_cfg m)
    \<and> cmd_Env c = plugin_env (se_getenv env) g m
    \<and> core m' = (core m)\<lparr>w_procs := insert (cmd_Pid c) (w_procs m)\<rparr>"
  using assms by (auto simp: start_spawn_def Let_def split: sum.splits)

lemma start_spawn_fail:
  assumes "start_spawn env g m = (Inl e, m')" and "mg_gen m = g"
  shows "core m' = (core m)\<lparr>mg_state := rolled_back g m\<rparr> \<and> w_files m' = w_files m \<and> (\<exists>x. se_spawn env = Inl x)"
  using assms by (auto simp: start_spawn_def Let_def rollback_core split: sum.splits)

lemma new_client_core: "core (snd (new_client m)) = (core m)\<lparr>w_next := Suc (w_next m), w_conns := insert (w_next m) (w_conns m)\<rparr>"
  by (simp add: new_client_def)

lemma dial_ok:
  assumes "dial att sp g m = (Inr k, m')"
  shows "k = w_next m \<and> (\<exists>n. dial_loop att (cf_DialTimeout (mg_cfg m)) 0 0 = Some n)
    \<and> core m' = (core m)\<lparr>w_next := Suc (w_next m), w_conns := insert (w_next m) (w_conns m)\<rparr>
    \<and> w_files m' = w_files m"
  using assms by (auto simp: dial_def Let_def new_client_def split: option.splits)

lemma dial_fail: "dial att sp g m = (Inl e, m') \<Longrightarrow> core m' = core m \<and> w_files m' = w_files m"
  by (auto simp: dial_def Let_def new_client_def split: option.splits)

lemma verifyPeerCred_core:
  "core (snd (verifyPeerCred env k pid g m)) = core m" "w_files (snd (verifyPeerCred env k pid g m)) = w_files m"
  by (simp_all add: verifyPeerCred_def split: sum.splits)

lemma verifyPeerCred_ok:
  "fst (verifyPeerCred env k pid g m) = None \<Longrightarrow> \<exists>cred. ReadPeerCred env = Inr cred \<and> pc_PID cred = pid"
  by (auto simp: verifyPeerCred_def split: sum.splits if_splits)

lemma start_connect_ok:
  assumes "start_connect env g c m = (Inr k, m')"
  shows "k = w_next m \<and> (\<exists>n. dial_loop (se_dial env) (cf_DialTimeout (mg_cfg m)) 0 0 = Some n)
    \<and> (\<exists>cred. ReadPeerCred (se_cred env) = Inr cred \<and> pc_PID cred = cmd_Pid c)
    \<and> core m' = (core m)\<lparr>w_next := Suc (w_next m), w_conns := insert (w_next m) (w_conns m)\<rparr>"
proof -
  obtain m1 where d: "dial (se_dial env) (mg_socket m) g m = (Inr k, m1)"
    and v: "verifyPeerCred (se_cred env) (Some k) (cmd_Pid c) g m1 = (None, m')"
    using assms by (auto simp: start_connect_def Let_def split: prod.splits sum.splits option.splits)
  show ?thesis
    using dial_ok [OF d] v verifyPeerCred_core(1) [of "se_cred env" "Some k" "cmd_Pid c" g m1]
      verifyPeerCred_ok [of "se_cred env" "Some k" "cmd_Pid c" g m1] by simp
qed

text \<open>The core after a start that is undone.\<close>

definition undone :: "uint64 \<Rightarrow> goerr option \<Rightarrow> int \<Rightarrow> client set \<Rightarrow> client \<Rightarrow> manager \<Rightarrow> manager" where
  "undone g we pid ks n m =
     (core m)\<lparr>mg_state := rolled_back g m, w_procs := unreaped we pid (w_procs m), w_conns := ks, w_next := n\<rparr>"

lemma cleanup_undone:
  assumes "core m1 = (core m)\<lparr>w_next := n, w_conns := ks\<rparr>" and "mg_gen m = g"
  shows "core (cleanupFailedStart rm we (Some c) k g reason cause m1) = undone g we (cmd_Pid c) (ks - set_option k) n m"
proof -
  have s: "mg_state m1 = mg_state m" "mg_cfg m1 = mg_cfg m" "w_procs m1 = w_procs m" "w_conns m1 = ks"
    using core_selD [OF assms(1)] by simp_all
  have "core (cleanupFailedStart rm we (Some c) k g reason cause m1)
      = (core m1)\<lparr>mg_state := rolled_back g m1, w_procs := unreaped we (cmd_Pid c) (w_procs m1), w_conns := w_conns m1 - set_option k\<rparr>"
    by (rule cleanupFailedStart_core) (simp add: s assms(2))
  also have "\<dots> = undone g we (cmd_Pid c) (ks - set_option k) n m"
    unfolding undone_def assms(1) s by (simp add: rolled_back_def s)
  finally show ?thesis .
qed

lemma start_connect_fail:
  assumes "start_connect env g c m = (Inl e, m')" and "mg_gen m = g" and "\<forall>k \<in> w_conns m. k < w_next m"
  shows "\<exists>n \<ge> w_next m. core m' = undone g (se_wait env) (cmd_Pid c) (w_conns m) n m"
proof -
  obtain r m1 where d: "dial (se_dial env) (mg_socket m) g m = (r, m1)" by (cases "dial (se_dial env) (mg_socket m) g m")
  show ?thesis
  proof (cases r)
    case (Inl e')
    then have "core m1 = (core m)\<lparr>w_next := w_next m, w_conns := w_conns m\<rparr>" using dial_fail d by simp
    from cleanup_undone [OF this assms(2), of "se_remove env" "se_wait env" c None "''dial failure''" "Some e'"] show ?thesis
      using assms(1) d Inl by (auto simp: start_connect_def)
  next
    case (Inr k)
    have m1: "core m1 = (core m)\<lparr>w_next := Suc (w_next m), w_conns := insert k (w_conns m)\<rparr>" and k: "k = w_next m"
      using dial_ok [OF d [unfolded Inr]] by simp_all
    obtain e' m2 where v: "verifyPeerCred (se_cred env) (Some k) (cmd_Pid c) g m1 = (Some e', m2)"
      using assms(1) d Inr by (auto simp: start_connect_def Let_def split: prod.splits option.splits)
    let ?m3 = "logEvent ((start_ev m g (cmd_Pid c) LevelError ComponentAuth EventAuthFailed
        ''plugin peer credentials verification failed'')\<lparr>ev_Error := Some e'\<rparr>) m2"
    have "core ?m3 = (core m)\<lparr>w_next := Suc (w_next m), w_conns := insert k (w_conns m)\<rparr>"
      using verifyPeerCred_core(1) [of "se_cred env" "Some k" "cmd_Pid c" g m1] v m1 by simp
    from cleanup_undone [OF this assms(2), of "se_remove env" "se_wait env" c "Some k" "''peer credential mismatch''" "Some e'"]
    have "core m' = undone g (se_wait env) (cmd_Pid c) (insert k (w_conns m) - {k}) (Suc (w_next m)) m"
      using assms(1) d Inr v by (auto simp: start_connect_def Let_def)
    moreover have "insert k (w_conns m) - {k} = w_conns m" using assms(3) k by auto
    ultimately show ?thesis by (intro exI [of _ "Suc (w_next m)"]) simp
  qed
qed

lemma call_detached_core:
  assumes "mg_client m = None"
  shows "core (snd (call id (Some k) g ep meth out m))
    = (core m)\<lparr>w_next := w_next m, w_conns := w_conns m - (if poisons out then {k} else {})\<rparr>"
  using assms by (simp add: call_id_core poisoned_detached)

lemma start_abort_core:
  assumes "core m1 = (core m)\<lparr>w_next := n, w_conns := ks\<rparr>" and "mg_gen m = g"
  shows "core (start_abort env g c k cmpn name msg reason e m1) = undone g (se_wait env) (cmd_Pid c) (ks - {k}) n m"
  unfolding start_abort_def using assms by (subst cleanup_undone [where m = m and n = n and ks = ks]) simp_all

lemma start_authenticate_ok:
  assumes "start_authenticate env g t c k m = (None, m')" and "mg_client m = None"
  shows "core m' = core m \<and> (\<exists>r. se_auth env t = Reply r \<and> ar_PluginID r = mg_id m \<and> ar_GenerationID r = g)
    \<and> (se_remove env (mg_auth m) = None \<longrightarrow> w_files m' (mg_auth m) = None)"
proof -
  let ?m1 = "logEvent (start_ev m g (cmd_Pid c) LevelInfo ComponentAuth EventAuthStarted
                 ''authenticating plugin bootstrap token'') m"
  obtain r m2 where call: "call id (Some k) g 0 MethodAuth (se_auth env t) ?m1 = (Inr r, m2)"
    and r: "ar_PluginID r = mg_id m" "ar_GenerationID r = g"
    and m': "core m' = core m2" "se_remove env (mg_auth m) = None \<longrightarrow> w_files m' (mg_auth m) = None"
    using assms(1)
    by (auto simp: start_authenticate_def Let_def os_Remove_gone split: prod.splits sum.splits if_splits)
  have reply: "se_auth env t = Reply r" using call_id_accepts [THEN iffD1, OF call] by simp
  have "core m2 = core m"
    using call_detached_core [of ?m1 k g 0 MethodAuth "se_auth env t"] assms(2) call reply by simp
  with m' r reply show ?thesis by auto
qed

lemma start_authenticate_fail:
  assumes "start_authenticate env g t c k m = (Some e, m')" and "mg_client m = None" and "mg_gen m = g"
  shows "core m' = undone g (se_wait env) (cmd_Pid c) (w_conns m - {k}) (w_next m) m"
proof -
  let ?m1 = "logEvent (start_ev m g (cmd_Pid c) LevelInfo ComponentAuth EventAuthStarted
                 ''authenticating plugin bootstrap token'') m"
  let ?out = "se_auth env t"
  obtain r m2 where call: "call id (Some k) g 0 MethodAuth ?out ?m1 = (r, m2)" by (cases "call id (Some k) g 0 MethodAuth ?out ?m1")
  have m2: "core m2 = (core m)\<lparr>w_next := w_next m, w_conns := w_conns m - (if poisons ?out then {k} else {})\<rparr>"
    using call_detached_core [of ?m1 k g 0 MethodAuth ?out] assms(2) call by simp
  have ks: "w_conns m - (if poisons ?out then {k} else {}) - {k} = w_conns m - {k}" by auto
  show ?thesis
    using assms(1) start_abort_core [OF m2 assms(3), unfolded ks] call
    by (auto simp: start_authenticate_def Let_def split: sum.splits if_splits)
qed

lemma start_capabilities_ok:
  assumes "start_capabilities env g c k m = (Inr caps, m')" and "mg_client m = None"
  shows "core m' = core m \<and> w_files m' = w_files m \<and> se_caps env = Reply caps \<and> cr_PluginID caps = mg_id m
    \<and> cr_GenerationID caps = g \<and> ''__capabilities_error__'' \<notin> set (cr_Capabilities caps)"
proof -
  let ?m1 = "logEvent (start_ev m g (cmd_Pid c) LevelInfo ComponentKernel EventCapabilitiesStarted
                 ''loading plugin capabilities'') m"
  have call: "call id (Some k) g 0 MethodCapabilities (se_caps env) ?m1 = (Inr caps, m')"
    and r: "cr_PluginID caps = mg_id m" "cr_GenerationID caps = g" "''__capabilities_error__'' \<notin> set (cr_Capabilities caps)"
    using assms(1) by (auto simp: start_capabilities_def Let_def split: prod.splits sum.splits if_splits)
  have reply: "se_caps env = Reply caps" using call_id_accepts [THEN iffD1, OF call] by simp
  have "core m' = core m" "w_files m' = w_files m"
    using call_detached_core [of ?m1 k g 0 MethodCapabilities "se_caps env"] assms(2) call reply
      call_id_files [of k g 0 MethodCapabilities "se_caps env" ?m1] by simp_all
  with r reply show ?thesis by simp
qed

lemma start_capabilities_fail:
  assumes "start_capabilities env g c k m = (Inl e, m')" and "mg_client m = None" and "mg_gen m = g"
  shows "core m' = undone g (se_wait env) (cmd_Pid c) (w_conns m - {k}) (w_next m) m"
proof -
  let ?m1 = "logEvent (start_ev m g (cmd_Pid c) LevelInfo ComponentKernel EventCapabilitiesStarted
                 ''loading plugin capabilities'') m"
  let ?out = "se_caps env"
  obtain r m2 where call: "call id (Some k) g 0 MethodCapabilities ?out ?m1 = (r, m2)"
    by (cases "call id (Some k) g 0 MethodCapabilities ?out ?m1")
  have m2: "core m2 = (core m)\<lparr>w_next := w_next m, w_conns := w_conns m - (if poisons ?out then {k} else {})\<rparr>"
    using call_detached_core [of ?m1 k g 0 MethodCapabilities ?out] assms(2) call by simp
  have ks: "w_conns m - (if poisons ?out then {k} else {}) - {k} = w_conns m - {k}" by auto
  show ?thesis
    using assms(1) start_abort_core [OF m2 assms(3), unfolded ks] call
    by (auto simp: start_capabilities_def Let_def split: sum.splits if_splits)
qed

section \<open>A whole start\<close>

definition reserved :: "manager \<Rightarrow> manager" where
  "reserved m = m\<lparr>mg_state := zero_state\<lparr>st_PluginID := mg_id m, st_GenerationID := mg_gen m + 1,
     st_SocketPath := mg_socket m\<rparr>\<rparr>"

definition idle :: "manager \<Rightarrow> bool" where
  "idle m \<longleftrightarrow> \<not> mg_closed m \<and> mg_cmd m = None \<and> mg_client m = None"

lemma start_reserve_Inr: "start_reserve m = (Inr g, m1) \<longleftrightarrow> idle m \<and> g = mg_gen m + 1 \<and> m1 = reserved m"
  by (auto simp: start_reserve_def idle_def reserved_def Let_def)

lemma reserved_sel [simp]:
  "mg_gen (reserved m) = mg_gen m + 1" "mg_cfg (reserved m) = mg_cfg m" "mg_client (reserved m) = mg_client m"
  "mg_socket (reserved m) = mg_socket m" "mg_auth (reserved m) = mg_auth m" "w_conns (reserved m) = w_conns m"
  "w_next (reserved m) = w_next m" "w_procs (reserved m) = w_procs m"
  by (simp_all add: reserved_def mg_socket_def mg_auth_def)

lemma reserved_rolled: "rolled_back (mg_gen m + 1) (reserved m) = zero_state\<lparr>st_PluginID := mg_id m, st_GenerationID := mg_gen m\<rparr>"
  by (simp add: rolled_back_def)

definition healthy_state :: "cmd \<Rightarrow> capabilities_response \<Rightarrow> path \<Rightarrow> plugin_state" where
  "healthy_state c caps sp = zero_state\<lparr>st_PluginID := cr_PluginID caps, st_GenerationID := cr_GenerationID caps,
     st_Healthy := True, st_Capabilities := cr_Capabilities caps, st_SocketPath := sp, st_PID := cmd_Pid c\<rparr>"

lemma start_commit_core:
  "core (start_announce c caps sp' (start_commit c k caps sp m))
   = (core m)\<lparr>mg_cmd := Some c, mg_client := Some k, mg_state := healthy_state c caps sp\<rparr>"
  by (simp add: start_announce_def start_commit_def healthy_state_def Let_def)

lemma start_commit_files [simp]: "w_files (start_announce c caps sp' (start_commit c k caps sp m)) = w_files m"
  by (simp add: start_announce_def start_commit_def Let_def)

text \<open>Everything a successful start has checked, and the core it leaves.\<close>

definition started :: "start_env \<Rightarrow> manager \<Rightarrow> string \<Rightarrow> cmd \<Rightarrow> capabilities_response \<Rightarrow> bool" where
  "started env m t c caps \<longleftrightarrow>
     NewToken (se_rand env) = Inr t \<and> se_write_auth env = None
     \<and> (\<exists>n. dial_loop (se_dial env) (cf_DialTimeout (mg_cfg m)) 0 0 = Some n)
     \<and> se_spawn env = Inr (cmd_Pid c) \<and> cmd_Path c = cf_PluginPath (mg_cfg m)
     \<and> cmd_Env c = plugin_env (se_getenv env) (mg_gen m + 1) m
     \<and> (\<exists>cred. ReadPeerCred (se_cred env) = Inr cred \<and> pc_PID cred = cmd_Pid c)
     \<and> (\<exists>r. se_auth env t = Reply r \<and> ar_PluginID r = mg_id m \<and> ar_GenerationID r = mg_gen m + 1)
     \<and> se_caps env = Reply caps \<and> cr_PluginID caps = mg_id m \<and> cr_GenerationID caps = mg_gen m + 1
     \<and> ''__capabilities_error__'' \<notin> set (cr_Capabilities caps)"

lemma plugin_env_core: "core m' = core m \<Longrightarrow> plugin_env ge g m' = plugin_env ge g m"
  using mg_paths_cfg [of m' m] core_eqD(1) [of m' m] by (simp add: plugin_env_def)

lemma startLocked_ok:
  assumes "startLocked env m = (None, m')"
  shows "\<exists>t c caps. idle m \<and> started env m t c caps
    \<and> core m' = (core m)\<lparr>mg_cmd := Some c, mg_client := Some (w_next m),
        mg_state := healthy_state c caps (mg_socket m), w_procs := insert (cmd_Pid c) (w_procs m),
        w_next := Suc (w_next m), w_conns := insert (w_next m) (w_conns m)\<rparr>
    \<and> (se_remove env (mg_auth m) = None \<longrightarrow> w_files m' (mg_auth m) = None)"
proof -
  obtain g m1 t m2 c m3 k m4 m5 caps m6 where
    r: "start_reserve m = (Inr g, m1)" and t: "start_token env g m1 = (Inr t, m2)"
    and s: "start_spawn env g m2 = (Inr c, m3)" and d: "start_connect env g c m3 = (Inr k, m4)"
    and a: "start_authenticate env g t c k m4 = (None, m5)" and cp: "start_capabilities env g c k m5 = (Inr caps, m6)"
    and m': "m' = start_announce c caps (mg_socket m) (start_commit c k caps (mg_socket m) m6)"
    using assms by (auto simp: startLocked_def split: prod.splits sum.splits option.splits)
  have m1: "idle m" "g = mg_gen m + 1" "m1 = reserved m" using r by (simp_all add: start_reserve_Inr)
  note T = start_token_ok [OF t, unfolded m1]
  note S = start_spawn_ok [OF s]
  note D = start_connect_ok [OF d]
  have c2: "core m2 = core (reserved m)" using T by simp
  have c3: "core m3 = (core (reserved m))\<lparr>w_procs := insert (cmd_Pid c) (w_procs m)\<rparr>"
    using S c2 core_eqD(10) [OF c2] by simp
  have c4: "core m4 = (core m3)\<lparr>w_next := Suc (w_next m3), w_conns := insert (w_next m3) (w_conns m3)\<rparr>"
    using D by simp
  have cfg: "mg_cfg m3 = mg_cfg m" "mg_cfg m4 = mg_cfg m" "mg_client m4 = None" "w_next m3 = w_next m" "w_conns m3 = w_conns m"
    using D core_selD [OF c3] core_selD [OF c4] m1(1) by (simp_all add: idle_def)
  note A = start_authenticate_ok [OF a cfg(3)]
  have m5: "mg_client m5 = None" "mg_cfg m5 = mg_cfg m" using A core_eqD [of m5 m4] cfg by simp_all
  note C = start_capabilities_ok [OF cp m5(1)]
  have paths: "mg_auth m4 = mg_auth m" using mg_paths_cfg [OF cfg(2)] by simp
  have env: "plugin_env (se_getenv env) g m2 = plugin_env (se_getenv env) (mg_gen m + 1) m"
    using plugin_env_core [OF c2] m1(2) by (simp add: plugin_env_def)
  have "core m6 = (core (reserved m))\<lparr>w_procs := insert (cmd_Pid c) (w_procs m), w_next := Suc (w_next m),
      w_conns := insert (w_next m) (w_conns m)\<rparr>"
    using C A D c3 cfg by simp
  then have "core m' = (core m)\<lparr>mg_cmd := Some c, mg_client := Some (w_next m),
        mg_state := healthy_state c caps (mg_socket m), w_procs := insert (cmd_Pid c) (w_procs m),
        w_next := Suc (w_next m), w_conns := insert (w_next m) (w_conns m)\<rparr>"
    unfolding m' start_commit_core using D cfg by (simp add: reserved_def)
  moreover have "started env m t c caps"
    unfolding started_def using T S D A C env m1(2) cfg m5 core_eqD(1) [OF c2] by simp
  moreover have "se_remove env (mg_auth m) = None \<longrightarrow> w_files m' (mg_auth m) = None"
    unfolding m' using A C paths by simp
  ultimately show ?thesis using m1(1) by (intro exI [of _ t] exI [of _ c] exI [of _ caps]) simp
qed

text \<open>The core a failed start leaves: the old generation, and the processes \<open>ps\<close>.\<close>

definition abandoned :: "int set \<Rightarrow> client \<Rightarrow> manager \<Rightarrow> manager" where
  "abandoned ps n m =
     (core m)\<lparr>mg_state := zero_state\<lparr>st_PluginID := mg_id m, st_GenerationID := mg_gen m\<rparr>, w_procs := ps, w_next := n\<rparr>"

lemma undone_abandoned:
  assumes "core m1 = (core (reserved m))\<lparr>w_procs := insert pid (w_procs m), w_next := n1, w_conns := ks1\<rparr>"
    and "core m' = undone (mg_gen m + 1) we pid ks n m1" and "ks = w_conns m"
  shows "core m' = abandoned (unreaped we pid (insert pid (w_procs m))) n m"
  using core_selD [OF assms(1)] assms
  by (simp add: undone_def abandoned_def rolled_back_def reserved_def)

lemma rolled_abandoned:
  "core m' = (core (reserved m))\<lparr>mg_state := rolled_back (mg_gen m + 1) (reserved m)\<rparr>
   \<Longrightarrow> core m' = abandoned (w_procs m) (w_next m) m"
  unfolding reserved_rolled by (cases m) (simp add: abandoned_def reserved_def core_def)

text \<open>A start that fails once the process runs.\<close>

lemma handshake_fail:
  assumes f: "(case start_connect env (mg_gen m + 1) c m3 of (Inl e, m4) \<Rightarrow> (Some e, m4) | (Inr client, m4) \<Rightarrow>
      (case start_authenticate env (mg_gen m + 1) tok c client m4 of (Some e, m5) \<Rightarrow> (Some e, m5) | (None, m5) \<Rightarrow>
      (case start_capabilities env (mg_gen m + 1) c client m5 of (Inl e, m6) \<Rightarrow> (Some e, m6) | (Inr caps, m6) \<Rightarrow>
        (None, start_announce c caps sp (start_commit c client caps sp m6))))) = (Some e, m')"
    and c3: "core m3 = (core (reserved m))\<lparr>w_procs := insert (cmd_Pid c) (w_procs m), w_next := w_next m, w_conns := w_conns m\<rparr>"
    and fresh: "\<forall>k \<in> w_conns m. k < w_next m" and "mg_client m = None"
  shows "\<exists>n \<ge> w_next m. core m' = abandoned (unreaped (se_wait env) (cmd_Pid c) (insert (cmd_Pid c) (w_procs m))) n m"
proof -
  let ?g = "mg_gen m + 1"
  note s3 = core_selD [OF c3, simplified]
  have g3: "mg_gen m3 = ?g" using s3 by (simp add: reserved_def)
  obtain dr m4 where d: "start_connect env ?g c m3 = (dr, m4)" by (cases "start_connect env ?g c m3")
  show ?thesis
  proof (cases dr)
    case (Inl x)
    then have "m' = m4" using f d by simp
    moreover have "\<exists>n \<ge> w_next m3. core m4 = undone ?g (se_wait env) (cmd_Pid c) (w_conns m3) n m3"
      using start_connect_fail [of env ?g c m3 x m4] d Inl g3 fresh s3 by simp
    ultimately show ?thesis using undone_abandoned [OF c3] s3 by auto
  next
    case (Inr k)
    have k: "k = w_next m" and c4: "core m4 = (core (reserved m))\<lparr>w_procs := insert (cmd_Pid c) (w_procs m),
        w_next := Suc (w_next m), w_conns := insert (w_next m) (w_conns m)\<rparr>"
      using start_connect_ok [of env ?g c m3 k m4] d Inr c3 s3 by simp_all
    note s4 = core_selD [OF c4, simplified]
    have g4: "mg_gen m4 = ?g" "mg_client m4 = None" using s4 assms(4) by (simp_all add: reserved_def)
    have ks: "w_conns m4 - {k} = w_conns m" using fresh s4 k by auto
    obtain ar m5 where a: "start_authenticate env ?g tok c k m4 = (ar, m5)" by (cases "start_authenticate env ?g tok c k m4")
    show ?thesis
    proof (cases ar)
      case (Some x)
      then have "core m' = undone ?g (se_wait env) (cmd_Pid c) (w_conns m4 - {k}) (w_next m4) m4"
        using f d \<open>dr = Inr k\<close> a start_authenticate_fail [of env ?g tok c k m4 x m5] g4 by auto
      then show ?thesis using undone_abandoned [OF c4 _ ks] s4 by (intro exI [of _ "w_next m4"]) simp
    next
      case None
      have c5: "core m5 = core m4" using start_authenticate_ok [of env ?g tok c k m4 m5] a None g4 by simp
      note s5 = core_eqD [OF c5]
      obtain x where "start_capabilities env ?g c k m5 = (Inl x, m')"
        using f d \<open>dr = Inr k\<close> a None by (auto split: prod.splits sum.splits)
      then have "core m' = undone ?g (se_wait env) (cmd_Pid c) (w_conns m5 - {k}) (w_next m5) m5"
        using start_capabilities_fail [of env ?g c k m5 x m'] g4 s5 by simp
      then have "core m' = undone ?g (se_wait env) (cmd_Pid c) (w_conns m4 - {k}) (w_next m4) m4"
        using c5 s5 by (simp add: undone_def rolled_back_def)
      then show ?thesis using undone_abandoned [OF c4 _ ks] s4 by (intro exI [of _ "w_next m4"]) simp
    qed
  qed
qed

text \<open>The steps of a start up to the running process.\<close>

definition spawned :: "start_env \<Rightarrow> int \<Rightarrow> bool" where
  "spawned env pid \<longleftrightarrow> (\<exists>t. NewToken (se_rand env) = Inr t) \<and> se_write_auth env = None \<and> se_spawn env = Inr pid"

lemma startLocked_fail:
  assumes "startLocked env m = (Some e, m')" and fresh: "\<forall>k \<in> w_conns m. k < w_next m"
  shows "(\<not> idle m \<and> m' = m) \<or> (idle m \<and> (\<exists>n \<ge> w_next m.
      (\<forall>pid. \<not> spawned env pid) \<and> core m' = abandoned (w_procs m) n m
      \<or> (\<exists>pid. spawned env pid \<and> core m' = abandoned (unreaped (se_wait env) pid (insert pid (w_procs m))) n m)))"
proof (cases "idle m")
  case False
  then have "\<exists>x. start_reserve m = (Inl x, m)" by (auto simp: start_reserve_def idle_def)
  then show ?thesis using assms(1) False by (auto simp: startLocked_def)
next
  case True
  let ?g = "mg_gen m + 1" and ?m1 = "reserved m"
  have r: "start_reserve m = (Inr ?g, ?m1)" using True by (simp add: start_reserve_Inr)
  have rolled: ?thesis if "core m' = (core ?m1)\<lparr>mg_state := rolled_back ?g ?m1\<rparr>" "\<forall>pid. \<not> spawned env pid"
    using rolled_abandoned [OF that(1)] that(2) True by blast
  obtain tr m2 where t: "start_token env ?g ?m1 = (tr, m2)" by (cases "start_token env ?g ?m1")
  show ?thesis
  proof (cases tr)
    case (Inl x)
    then have "m' = m2" using assms(1) r t by (simp add: startLocked_def)
    then show ?thesis using start_token_fail [of env ?g ?m1 x m2] t Inl by (intro rolled) (auto simp: spawned_def)
  next
    case (Inr tok)
    have c2: "core m2 = core ?m1" using start_token_ok [of env ?g ?m1 tok m2] t Inr by simp
    note s2 = core_selD [OF c2, simplified]
    obtain sr m3 where s: "start_spawn env ?g m2 = (sr, m3)" by (cases "start_spawn env ?g m2")
    show ?thesis
    proof (cases sr)
      case (Inl x)
      then have "m' = m3" using assms(1) r t \<open>tr = Inr tok\<close> s by (simp add: startLocked_def)
      then show ?thesis
        using start_spawn_fail [of env ?g m2 x m3] s Inl s2 c2 by (intro rolled) (auto simp: rolled_back_def spawned_def)
    next
      case (Inr c)
      have pid: "se_spawn env = Inr (cmd_Pid c)"
        and c3: "core m3 = (core ?m1)\<lparr>w_procs := insert (cmd_Pid c) (w_procs m), w_next := w_next m, w_conns := w_conns m\<rparr>"
        using start_spawn_ok [of env ?g m2 c m3] s Inr c2 s2 by (simp_all add: reserved_def)
      have rest: "startLocked env m = (case start_connect env ?g c m3 of (Inl e, m4) \<Rightarrow> (Some e, m4) | (Inr client, m4) \<Rightarrow>
          (case start_authenticate env ?g tok c client m4 of (Some e, m5) \<Rightarrow> (Some e, m5) | (None, m5) \<Rightarrow>
          (case start_capabilities env ?g c client m5 of (Inl e, m6) \<Rightarrow> (Some e, m6) | (Inr caps, m6) \<Rightarrow>
            (None, start_announce c caps (mg_socket m) (start_commit c client caps (mg_socket m) m6)))))"
        using r t \<open>tr = Inr tok\<close> s Inr by (simp add: startLocked_def)
      have "\<exists>n \<ge> w_next m. core m' = abandoned (unreaped (se_wait env) (cmd_Pid c) (insert (cmd_Pid c) (w_procs m))) n m"
        using handshake_fail [OF assms(1) [unfolded rest] c3 fresh] True by (simp add: idle_def)
      moreover have "spawned env (cmd_Pid c)"
        using pid start_token_ok [of env ?g ?m1 tok m2] t \<open>tr = Inr tok\<close> by (auto simp: spawned_def)
      ultimately show ?thesis using True by blast
    qed
  qed
qed

text \<open>A start that fails before the process runs touches no other file than socket and token file.\<close>

lemma start_token_other_files:
  "start_token env g m = (r, m') \<Longrightarrow> q \<notin> {mg_socket m, mg_auth m} \<Longrightarrow> w_files m' q = w_files m q"
  by (auto simp: start_token_def Let_def os_Remove_def split: sum.splits option.splits if_splits)

lemma startLocked_unspawned_files:
  assumes "startLocked env m = (r, m')" and "\<forall>pid. \<not> spawned env pid" and "q \<notin> {mg_socket m, mg_auth m}"
  shows "w_files m' q = w_files m q"
proof (cases "idle m")
  case False
  then have "\<exists>x. start_reserve m = (Inl x, m)" by (auto simp: start_reserve_def idle_def)
  then show ?thesis using assms(1) by (auto simp: startLocked_def)
next
  case True
  let ?g = "mg_gen m + 1"
  have r: "start_reserve m = (Inr ?g, reserved m)" using True by (simp add: start_reserve_Inr)
  obtain tr m2 where t: "start_token env ?g (reserved m) = (tr, m2)" by (cases "start_token env ?g (reserved m)")
  have f: "w_files m2 q = w_files m q"
    using start_token_other_files [OF t] assms(3) by (simp add: reserved_def mg_socket_def mg_auth_def)
  show ?thesis
  proof (cases tr)
    case (Inl x)
    then show ?thesis using assms(1) r t f by (simp add: startLocked_def)
  next
    case (Inr tok)
    then have "\<exists>x. se_spawn env = Inl x"
      using assms(2) start_token_ok [of env ?g "reserved m" tok m2] t by (cases "se_spawn env") (auto simp: spawned_def)
    then show ?thesis using assms(1) r t Inr f by (auto simp: startLocked_def start_spawn_def Let_def)
  qed
qed

section \<open>Stopping\<close>

definition detached :: "bool \<Rightarrow> int set \<Rightarrow> manager \<Rightarrow> manager" where
  "detached closing ps m =
     (core m)\<lparr>mg_rpcEpoch := mg_rpcEpoch m + 1, mg_client := None, mg_cmd := None,
       mg_state := (mg_state m)\<lparr>st_Healthy := False, st_PID := 0\<rparr>, mg_closed := closing,
       w_conns := w_conns m - set_option (mg_client m), w_procs := ps\<rparr>"

lemma detached_procs:
  "detached b (w_procs m) m = (core m)\<lparr>mg_rpcEpoch := mg_rpcEpoch m + 1, mg_client := None, mg_cmd := None,
     mg_state := (mg_state m)\<lparr>st_Healthy := False, st_PID := 0\<rparr>, mg_closed := b,
     w_conns := w_conns m - set_option (mg_client m)\<rparr>"
  by (cases m) (simp add: detached_def core_def)

lemma stop_detach_core:
  "\<not> mg_closed m \<Longrightarrow> \<exists>m1. stop_detach b m = Inr m1 \<and> w_files m1 = w_files m
     \<and> core m1 = (core m)\<lparr>mg_rpcEpoch := mg_rpcEpoch m + 1, mg_client := None, mg_cmd := None,
          mg_state := (mg_state m)\<lparr>st_Healthy := False, st_PID := 0\<rparr>, mg_closed := b\<rparr>"
  by (simp add: stop_detach_def)

lemma stop_graceful_core:
  assumes "mg_client m = None"
  shows "core (stop_graceful out k g pid sp m) = (core m)\<lparr>w_conns := w_conns m - set_option k\<rparr>"
proof (cases k)
  case None
  then show ?thesis by (simp add: stop_graceful_def core_def)
next
  case (Some c)
  let ?m1 = "logEvent ((kev m LevelInfo ComponentKernel EventShutdownRequested g pid sp
      ''requesting graceful shutdown'')\<lparr>ev_Method := MethodShutdown\<rparr>) m"
  obtain r m2 where call: "call id (Some c) g 0 MethodShutdown out ?m1 = (r, m2)"
    by (cases "call id (Some c) g 0 MethodShutdown out ?m1")
  have m2: "core m2 = (core m)\<lparr>w_next := w_next m, w_conns := w_conns m - (if poisons out then {c} else {})\<rparr>"
    using call_detached_core [of ?m1 c g 0 MethodShutdown out] assms call by simp
  have "w_conns m2 - {c} = w_conns m - {c}" using core_selD(11) [OF m2] by auto
  then have close: "core (close_client (Some c) (logEvent e m2)) = (core m)\<lparr>w_conns := w_conns m - {c}\<rparr>" for e
    by (simp add: m2)
  obtain e where "stop_graceful out k g pid sp m = close_client (Some c) (logEvent e m2)"
    using Some call by (cases r) (auto simp: stop_graceful_def Let_def)
  with close Some show ?thesis by simp
qed

lemma stop_finish_core: "core (snd (stop_finish rm g pid sp reason lvl name msg m)) = core m"
  by (simp add: stop_finish_def)

lemma stop_finish_ok [simp]: "fst (stop_finish rm g pid sp reason lvl name msg m) = None"
  by (simp add: stop_finish_def)

lemma stopCurrent_closed: "mg_closed m \<Longrightarrow> stopCurrent env b reason m = (Some (err ''manager closed''), m)"
  by (simp add: stopCurrent_def stop_detach_def)

text \<open>When stopping a process fails: the wait or the kill really failed.\<close>

definition stop_fails :: "stop_env \<Rightarrow> manager \<Rightarrow> bool" where
  "stop_fails env m \<longleftrightarrow> mg_cmd m \<noteq> None \<and>
     (case ke_wait env of Exited we \<Rightarrow> real_failure we | GraceExpired se we \<Rightarrow> real_failure se \<or> real_failure we)"

lemma stopCurrent_core:
  assumes "\<not> mg_closed m" and "stopCurrent env b reason m = (r, m')"
  shows "(r = None \<longleftrightarrow> \<not> stop_fails env m)
    \<and> core m' = detached b (if stop_fails env m then w_procs m else w_procs m - cmd_Pid ` set_option (mg_cmd m)) m"
proof -
  obtain m1 where d: "stop_detach b m = Inr m1" and m1: "core m1 = (core m)\<lparr>mg_rpcEpoch := mg_rpcEpoch m + 1,
      mg_client := None, mg_cmd := None, mg_state := (mg_state m)\<lparr>st_Healthy := False, st_PID := 0\<rparr>, mg_closed := b\<rparr>"
    using stop_detach_core [OF assms(1)] by blast
  let ?m2 = "logEvent ((kev m LevelWarn ComponentKernel EventKillRequested (mg_gen m) (mg_pid m)
      (st_SocketPath (mg_state m)) ''stopping plugin process'')\<lparr>ev_Reason := reason\<rparr>) m1"
  let ?m3 = "stop_graceful (ke_shutdown env) (mg_client m) (mg_gen m) (mg_pid m) (st_SocketPath (mg_state m)) ?m2"
  have s1: "mg_client ?m2 = None" "w_conns ?m2 = w_conns m" "w_procs ?m2 = w_procs m"
    using core_selD [OF m1] by simp_all
  have m3: "core ?m3 = detached b (w_procs m) m"
    unfolding stop_graceful_core [OF s1(1)] s1(2) detached_procs using m1 by simp
  have ps: "w_procs ?m3 = w_procs m" using core_selD(10) [OF m3] by (simp add: detached_def)
  have upd: "(detached b (w_procs m) m)\<lparr>w_procs := ps\<rparr> = detached b ps m" for ps by (simp add: detached_def)
  show ?thesis
  proof (cases "mg_cmd m")
    case None
    then show ?thesis using assms(2) d m3 by (auto simp: stopCurrent_def Let_def stop_fails_def stop_finish_def)
  next
    case (Some c)
    show ?thesis
      using assms(2) d Some m3 upd ps
      by (cases "ke_wait env") (auto simp: stopCurrent_def Let_def stop_fails_def stop_finish_def split: if_splits)
  qed
qed

text \<open>A successful stop ends with the cleanup of an owner.\<close>

lemma stopCurrent_cleans:
  assumes "\<not> mg_closed m" and "stopCurrent env b reason m = (None, m')"
    and "q \<in> {mg_socket m, mg_auth m}" and "ke_remove env q = None"
  shows "w_files m' q = None"
proof -
  obtain pid sp reason lvl name msg x where f: "stop_finish (ke_remove env) (mg_gen m) pid sp reason lvl name msg x = (None, m')"
    using assms(1,2)
    by (auto simp: stopCurrent_def stop_detach_def Let_def split: option.splits wait_outcome.splits if_splits)
  have "core x = core m'" using f stop_finish_core [of "ke_remove env" "mg_gen m" pid sp reason lvl name msg x]
    by simp
  note sx = core_eqD [OF this]
  note sm = core_selD [OF conjunct2 [OF stopCurrent_core [OF assms(1,2)]]]
  have gen: "mg_gen x = mg_gen m" "mg_cfg x = mg_cfg m" using sx sm by (simp_all add: detached_def)
  have "m' = cleanupRuntimeArtifacts (ke_remove env) (mg_gen m)
      (logEvent ((kev x lvl ComponentKernel name (mg_gen m) pid sp msg)\<lparr>ev_Reason := reason\<rparr>) x)" (is "_ = cleanupRuntimeArtifacts _ _ ?y")
    using f by (simp add: stop_finish_def)
  moreover have "cleanupOwnsRuntimeArtifacts (mg_gen m) ?y" using gen by (simp add: cleanupOwnsRuntimeArtifacts_def)
  moreover have "q \<in> {mg_socket ?y, mg_auth ?y}" using assms(3) gen mg_paths_cfg [of ?y m] by simp
  ultimately show ?thesis using assms(4) by (simp add: cleanup_files)
qed

lemma cleanupFailedStart_files:
  assumes "mg_gen m = g" and "q \<in> {mg_socket m, mg_auth m}" and "rm q = None"
  shows "w_files (cleanupFailedStart rm we (Some c) k g reason cause m) q = None"
proof -
  let ?m1 = "if real_failure we then close_client k m else reap (Some c) (close_client k m)"
  have g: "mg_gen ?m1 = g" using assms(1) by simp
  have r: "mg_state (rollbackGeneration g ?m1) = rolled_back g ?m1" "mg_cfg (rollbackGeneration g ?m1) = mg_cfg m"
    using core_selD [OF rollback_core [OF g]] by simp_all
  have "cleanupOwnsRuntimeArtifacts g (logEvent e (rollbackGeneration g ?m1))" for e
    by (simp add: cleanupOwnsRuntimeArtifacts_def r rolled_back_def zero_state_def)
  moreover have "q \<in> {mg_socket (logEvent e (rollbackGeneration g ?m1)), mg_auth (logEvent e (rollbackGeneration g ?m1))}" for e
    using assms(2) mg_paths_cfg [of "logEvent e (rollbackGeneration g ?m1)" m] r(2) by simp
  ultimately show ?thesis using assms(3) by (simp add: cleanupFailedStart_def Let_def cleanup_files)
qed

section \<open>Closing, restarting, calling\<close>

lemma Close_core:
  assumes "\<not> mg_closed m" and "\<not> mg_closeDone m" and "Close env le m = (r, m')"
  shows "core m' = (detached True (if stop_fails env m then w_procs m else w_procs m - cmd_Pid ` set_option (mg_cmd m)) m)
      \<lparr>mg_closedCh := True, mg_closeErr := r, mg_closeDone := True\<rparr>
    \<and> (r = None \<longleftrightarrow> \<not> stop_fails env m \<and> le = None)"
proof -
  obtain e m1 where s: "stopCurrent env True ''manager close'' m = (e, m1)"
    by (cases "stopCurrent env True ''manager close'' m")
  note S = stopCurrent_core [OF assms(1) s]
  have "mg_closed m1" using core_selD(6) [OF conjunct2 [OF S]] by (simp add: detached_def)
  then show ?thesis using assms s S by (auto simp: Close_def Let_def)
qed

lemma Close_cleans:
  assumes "\<not> mg_closed m" and "\<not> mg_closeDone m" and "Close env le m = (r, m')"
    and "q \<in> {mg_socket m, mg_auth m}" and "ke_remove env q = None"
  shows "w_files m' q = None"
proof -
  obtain e m1 where s: "stopCurrent env True ''manager close'' m = (e, m1)"
    by (cases "stopCurrent env True ''manager close'' m")
  note S = core_selD [OF conjunct2 [OF stopCurrent_core [OF assms(1) s]]]
  have c: "mg_closed m1" and p: "mg_socket m1 = mg_socket m" "mg_auth m1 = mg_auth m"
    using S mg_paths_cfg [of m1 m] by (simp_all add: detached_def)
  have p': "mg_socket (m1\<lparr>mg_closedCh := True\<rparr>) = mg_socket m" "mg_auth (m1\<lparr>mg_closedCh := True\<rparr>) = mg_auth m"
    using p by (simp_all add: mg_socket_def mg_auth_def)
  show ?thesis using assms(2-5) s c p' by (auto simp: Close_def Let_def cleanup_files)
qed

lemma Restart_ok:
  assumes "Restart kenv senv m = (None, m')"
  shows "\<exists>m1 m2. core m1 = core m \<and> \<not> mg_closed m \<and> stopCurrent kenv False ''restart requested'' m1 = (None, m2)
    \<and> (\<exists>m3. startLocked senv m2 = (None, m3) \<and> core m' = core m3 \<and> w_files m' = w_files m3)"
  apply (rule exI [of _ "logEvent (kev m LevelWarn ComponentKernel EventRestartRequested (mg_gen m) (mg_pid m)
      (st_SocketPath (mg_state m)) ''restart requested'') m"])
  using assms by (auto simp: Restart_def Let_def split: if_splits prod.splits option.splits)

lemma Restart_fail:
  assumes "Restart kenv senv m = (Some e, m')" and "\<not> mg_closed m"
  shows "\<exists>m1 r m2. core m1 = core m \<and> stopCurrent kenv False ''restart requested'' m1 = (r, m2)
    \<and> ((r = Some e \<and> core m' = core m2)
       \<or> (r = None \<and> (\<exists>m3. startLocked senv m2 = (Some e, m3) \<and> core m' = core m3)))"
  apply (rule exI [of _ "logEvent (kev m LevelWarn ComponentKernel EventRestartRequested (mg_gen m) (mg_pid m)
      (st_SocketPath (mg_state m)) ''restart requested'') m"])
  using assms by (auto simp: Restart_def Let_def split: if_splits prod.splits option.splits)

lemma plugin_call_core:
  assumes "\<not> mg_closed m" and "mg_client m = Some c"
  shows "core (snd (plugin_call id meth out m)) = (if poisons out then poisoned c (core m) else core m)"
  using assms by (simp add: plugin_call_def call_id_core)

lemma plugin_call_refused:
  "mg_closed m \<or> mg_client m = None \<Longrightarrow> \<exists>e. plugin_call intf meth out m = (Inl e, m)"
  by (auto simp: plugin_call_def)

lemma Heartbeat_refused:
  "mg_closed m \<or> mg_client m = None \<Longrightarrow> \<exists>e. Heartbeat env m = ((zero_heartbeat, Some e), m)"
  by (auto simp: Heartbeat_def Let_def)

text \<open>A heartbeat without interference: the reply decides health, a poisoning outcome detaches.\<close>

definition quiet_heartbeat :: "heartbeat_response rpc_outcome \<Rightarrow> heartbeat_env" where
  "quiet_heartbeat out = \<lparr>he_outcome = out, he_wait = id, he_commit = id\<rparr>"

lemma Heartbeat_core:
  assumes "\<not> mg_closed m" and "mg_client m = Some c"
  shows "core (snd (Heartbeat (quiet_heartbeat out) m)) =
    (case out of Reply r \<Rightarrow> (core m)\<lparr>mg_state := (mg_state m)\<lparr>st_Healthy := (hr_Status r = StatusHealthy)\<rparr>\<rparr>
     | _ \<Rightarrow> if poisons out then poisoned c (core m) else core m)"
proof -
  obtain r m1 where call: "call id (Some c) (mg_gen m) (mg_rpcEpoch m) MethodHeartbeat out m = (r, m1)"
    by (cases "call id (Some c) (mg_gen m) (mg_rpcEpoch m) MethodHeartbeat out m")
  have c1: "core m1 = (if poisons out then poisoned c (core m) else core m)"
    using call_id_core [of c "mg_gen m" "mg_rpcEpoch m" MethodHeartbeat out m] call by simp
  have ok: "\<not> stale_response c (mg_gen m) (mg_rpcEpoch m) m" using assms by (simp add: stale_response_def)
  show ?thesis
  proof (cases out)
    case (Reply v)
    have r: "r = Inr v" using call Reply ok by (auto simp: call_def Let_def stale_response_def)
    have e: "core m1 = core m" using c1 Reply by simp
    have "\<not> stale_heartbeat c (mg_gen m) (mg_rpcEpoch m) m1"
      using core_eqD [OF e] assms by (simp add: stale_heartbeat_def)
    then show ?thesis
      using assms call r e core_eqD(2) [OF e] Reply by (simp add: Heartbeat_def quiet_heartbeat_def Let_def)
  next
    case (CallErr e)
    then have "\<exists>x. r = Inl x" using call by (auto simp: call_def Let_def)
    then show ?thesis using assms call c1 CallErr by (auto simp: Heartbeat_def quiet_heartbeat_def Let_def)
  next
    case CallTimeout
    then have "\<exists>x. r = Inl x" using call by (auto simp: call_def Let_def)
    then show ?thesis using assms call c1 CallTimeout by (auto simp: Heartbeat_def quiet_heartbeat_def Let_def)
  qed
qed

section \<open>When a start succeeds\<close>

lemma start_token_succeeds:
  "NewToken (se_rand env) = Inr t \<Longrightarrow> se_write_auth env = None \<Longrightarrow> \<exists>m'. start_token env g m = (Inr t, m')"
  by (simp add: start_token_def Let_def)

lemma start_spawn_succeeds:
  "se_spawn env = Inr pid \<Longrightarrow> \<exists>c m'. start_spawn env g m = (Inr c, m') \<and> cmd_Pid c = pid"
  by (simp add: start_spawn_def)

lemma start_connect_succeeds:
  assumes "dial_loop (se_dial env) (cf_DialTimeout (mg_cfg m)) 0 0 = Some n"
    and "ReadPeerCred (se_cred env) = Inr cred" and "pc_PID cred = cmd_Pid c"
  shows "\<exists>k m'. start_connect env g c m = (Inr k, m')"
  using assms by (simp add: start_connect_def dial_def verifyPeerCred_def new_client_def Let_def)

lemma call_id_reply:
  "mg_gen m = g \<Longrightarrow> \<exists>m'. call id (Some k) g 0 meth (Reply v) m = (Inr v, m')"
  by (simp add: call_def Let_def stale_response_def)

lemma start_authenticate_succeeds:
  assumes "se_auth env t = Reply r" and "ar_PluginID r = mg_id m" and "ar_GenerationID r = g" and "mg_gen m = g"
  shows "\<exists>m'. start_authenticate env g t c k m = (None, m')"
  using assms call_id_reply [of "logEvent (start_ev m g (cmd_Pid c) LevelInfo ComponentAuth EventAuthStarted
                 ''authenticating plugin bootstrap token'') m" g k MethodAuth r]
  by (auto simp: start_authenticate_def Let_def)

lemma start_capabilities_succeeds:
  assumes "se_caps env = Reply caps" and "cr_PluginID caps = mg_id m" and "cr_GenerationID caps = g"
    and "''__capabilities_error__'' \<notin> set (cr_Capabilities caps)" and "mg_gen m = g"
  shows "\<exists>m'. start_capabilities env g c k m = (Inr caps, m')"
  using assms call_id_reply [of "logEvent (start_ev m g (cmd_Pid c) LevelInfo ComponentKernel
      EventCapabilitiesStarted ''loading plugin capabilities'') m" g k MethodCapabilities caps]
  by (auto simp: start_capabilities_def Let_def)

lemma startLocked_succeeds:
  assumes "idle m" and "NewToken (se_rand env) = Inr t" and "se_write_auth env = None" and "se_spawn env = Inr pid"
    and "dial_loop (se_dial env) (cf_DialTimeout (mg_cfg m)) 0 0 = Some n"
    and "ReadPeerCred (se_cred env) = Inr cred" and "pc_PID cred = pid"
    and "se_auth env t = Reply r" and "ar_PluginID r = mg_id m" and "ar_GenerationID r = mg_gen m + 1"
    and "se_caps env = Reply caps" and "cr_PluginID caps = mg_id m" and "cr_GenerationID caps = mg_gen m + 1"
    and "''__capabilities_error__'' \<notin> set (cr_Capabilities caps)"
  shows "\<exists>m'. startLocked env m = (None, m')"
proof -
  let ?g = "mg_gen m + 1"
  have r: "start_reserve m = (Inr ?g, reserved m)" using assms(1) by (simp add: start_reserve_Inr)
  obtain m2 where t: "start_token env ?g (reserved m) = (Inr t, m2)" using start_token_succeeds assms(2,3) by blast
  have c2: "core m2 = core (reserved m)" using start_token_ok [OF t] by simp
  obtain c m3 where s: "start_spawn env ?g m2 = (Inr c, m3)" "cmd_Pid c = pid" using start_spawn_succeeds assms(4) by blast
  have c3: "core m3 = (core (reserved m))\<lparr>w_procs := insert pid (w_procs m2)\<rparr>" using start_spawn_ok [OF s(1)] c2 s(2) by simp
  have "mg_cfg m3 = mg_cfg m" using core_selD(1) [OF c3] by simp
  then obtain k m4 where d: "start_connect env ?g c m3 = (Inr k, m4)"
    using start_connect_succeeds [of env m3 n cred c ?g] assms(5-7) s(2) by auto
  have c4: "core m4 = (core (reserved m))\<lparr>w_procs := insert pid (w_procs m2), w_next := Suc (w_next m3),
      w_conns := insert (w_next m3) (w_conns m3)\<rparr>" using start_connect_ok [OF d] c3 by simp
  have m4: "mg_cfg m4 = mg_cfg m" "mg_gen m4 = ?g" "mg_client m4 = None"
    using core_selD [OF c4] assms(1) by (simp_all add: idle_def)
  obtain m5 where a: "start_authenticate env ?g t c k m4 = (None, m5)"
    using start_authenticate_succeeds [of env t r m4 ?g c k] assms(8-10) m4 by auto
  have c5: "core m5 = core m4" using start_authenticate_ok [OF a m4(3)] by simp
  obtain m6 where cp: "start_capabilities env ?g c k m5 = (Inr caps, m6)"
    using start_capabilities_succeeds [of env caps m5 ?g c k] assms(11-14) m4 core_eqD [OF c5] by auto
  show ?thesis by (simp add: startLocked_def r t s d a cp)
qed

lemma startLocked_succeeds_iff:
  "(\<exists>m'. startLocked env m = (None, m')) \<longleftrightarrow> idle m \<and> (\<exists>t c caps. started env m t c caps)"
proof
  assume "\<exists>m'. startLocked env m = (None, m')"
  then show "idle m \<and> (\<exists>t c caps. started env m t c caps)" using startLocked_ok by blast
next
  assume "idle m \<and> (\<exists>t c caps. started env m t c caps)"
  then show "\<exists>m'. startLocked env m = (None, m')" unfolding started_def using startLocked_succeeds by blast
qed

end
