(* ===== verification/Manager_Props.thy ===== *)
theory Manager_Props
  imports Manager_Lemmas
begin

text \<open>
  The properties of the plugin manager taken one operation at a time: the invariant every reachable
  manager satisfies, when a start succeeds and what it establishes, what a failed start leaves, what
  stop, close, restart and poisoning do, and how health follows heartbeats.
\<close>

section \<open>The invariant\<close>

text \<open>
  The open connections are exactly the attached one; an attached client has an attached process, whose
  id is the published one; health needs a client; a closed manager has nothing attached.
\<close>

definition mgr_ok :: "manager \<Rightarrow> bool" where
  "mgr_ok m \<longleftrightarrow>
     w_conns m = set_option (mg_client m)
     \<and> (\<forall>k. mg_client m = Some k \<longrightarrow> k < w_next m \<and> mg_cmd m \<noteq> None)
     \<and> (mg_healthy m \<longrightarrow> mg_client m \<noteq> None)
     \<and> (\<forall>c. mg_cmd m = Some c \<longrightarrow> mg_pid m = cmd_Pid c \<and> cmd_Pid c \<in> w_procs m
          \<and> st_PluginID (mg_state m) = mg_id m \<and> st_SocketPath (mg_state m) = mg_socket m)
     \<and> (mg_cmd m = None \<longrightarrow> mg_pid m = 0)
     \<and> (mg_closed m \<longrightarrow> mg_cmd m = None)
     \<and> (mg_closedCh m \<longleftrightarrow> mg_closed m) \<and> (mg_closeDone m \<longleftrightarrow> mg_closed m)"

lemma mgr_ok_core [simp]: "mgr_ok (core m) = mgr_ok m"
  by (simp add: mgr_ok_def)

lemma mgr_ok_cong: "core m' = x \<Longrightarrow> mgr_ok x \<Longrightarrow> mgr_ok m'"
  using mgr_ok_core [of m'] by simp

lemma mgr_ok_fresh_conns: "mgr_ok m \<Longrightarrow> \<forall>k \<in> w_conns m. k < w_next m"
  by (auto simp: mgr_ok_def)

lemma mgr_ok_fresh: "w_procs w = {} \<Longrightarrow> w_conns w = {} \<Longrightarrow> mgr_ok (fresh_manager cfg w)"
  by (simp add: mgr_ok_def fresh_manager_def zero_state_def)

lemma mgr_ok_closed: "mgr_ok m \<Longrightarrow> mg_closed m \<Longrightarrow> mg_cmd m = None \<and> mg_client m = None \<and> \<not> mg_healthy m"
  by (auto simp: mgr_ok_def)

lemma mgr_ok_poisoned: "mgr_ok m \<Longrightarrow> mgr_ok (poisoned c m)"
  by (auto simp: mgr_ok_def poisoned_def poison_detach_def mg_socket_def)

lemma mgr_ok_detached: "mgr_ok m \<Longrightarrow> \<not> b \<Longrightarrow> \<not> mg_closed m \<Longrightarrow> mgr_ok (detached b ps m)"
  by (auto simp: mgr_ok_def detached_def)

lemma mgr_ok_closing:
  "mgr_ok m \<Longrightarrow> mgr_ok ((detached True ps m)\<lparr>mg_closedCh := True, mg_closeErr := r, mg_closeDone := True\<rparr>)"
  by (auto simp: mgr_ok_def detached_def)

lemma mgr_ok_abandoned: "mgr_ok m \<Longrightarrow> idle m \<Longrightarrow> w_next m \<le> n \<Longrightarrow> mgr_ok (abandoned ps n m)"
  by (auto simp: mgr_ok_def abandoned_def idle_def zero_state_def)

lemma mgr_ok_startLocked:
  assumes "mgr_ok m" and "startLocked env m = (r, m')"
  shows "mgr_ok m'"
proof (cases r)
  case None
  obtain t c caps where i: "idle m" and s: "started env m t c caps"
    and c: "core m' = (core m)\<lparr>mg_cmd := Some c, mg_client := Some (w_next m),
        mg_state := healthy_state c caps (mg_socket m), w_procs := insert (cmd_Pid c) (w_procs m),
        w_next := Suc (w_next m), w_conns := insert (w_next m) (w_conns m)\<rparr>"
    using startLocked_ok [of env m m'] assms(2) None by blast
  show ?thesis
    by (rule mgr_ok_cong [OF c])
      (use assms(1) i s in \<open>auto simp: mgr_ok_def idle_def healthy_state_def zero_state_def started_def mg_socket_def\<close>)
next
  case (Some e)
  then show ?thesis
    using startLocked_fail [of env m e m'] assms mgr_ok_fresh_conns [OF assms(1)] mgr_ok_abandoned [OF assms(1)]
      mgr_ok_cong [of m'] by blast
qed

lemma mgr_ok_stopCurrent:
  assumes "mgr_ok m" and "stopCurrent env False reason m = (r, m')"
  shows "mgr_ok m'"
proof (cases "mg_closed m")
  case True
  then show ?thesis using assms stopCurrent_closed [of m env False reason] by simp
next
  case False
  show ?thesis
    using mgr_ok_cong [OF conjunct2 [OF stopCurrent_core [OF False assms(2)]]] mgr_ok_detached [OF assms(1)] False by simp
qed

lemma mgr_ok_Close:
  assumes "mgr_ok m" and "Close env le m = (r, m')"
  shows "mgr_ok m'"
proof (cases "mg_closed m")
  case True
  then have "mg_closeDone m" using assms(1) by (simp add: mgr_ok_def)
  then show ?thesis using assms by (simp add: Close_def)
next
  case False
  then have "\<not> mg_closeDone m" using assms(1) by (simp add: mgr_ok_def)
  then show ?thesis
    using mgr_ok_cong [OF conjunct1 [OF Close_core [OF False _ assms(2)]]] mgr_ok_closing [OF assms(1)] by simp
qed

lemma mgr_ok_Restart:
  assumes "mgr_ok m" and "Restart kenv senv m = (r, m')"
  shows "mgr_ok m'"
proof -
  consider "mg_closed m" | "r = None" | e where "r = Some e" "\<not> mg_closed m" by (cases r) auto
  then show ?thesis
  proof cases
    case 1
    then show ?thesis using assms by (simp add: Restart_def)
  next
    case 2
    then obtain m1 m2 m3 where "core m1 = core m" "stopCurrent kenv False ''restart requested'' m1 = (None, m2)"
      "startLocked senv m2 = (None, m3)" "core m' = core m3"
      using Restart_ok [of kenv senv m m'] assms(2) by blast
    then show ?thesis using assms(1) mgr_ok_stopCurrent mgr_ok_startLocked mgr_ok_core by metis
  next
    case 3
    obtain m1 r2 m2 where a: "core m1 = core m" "stopCurrent kenv False ''restart requested'' m1 = (r2, m2)"
      and b: "core m' = core m2 \<or> (\<exists>m3. startLocked senv m2 = (Some e, m3) \<and> core m' = core m3)"
      using Restart_fail [of kenv senv m e m'] assms(2) 3 by blast
    have "mgr_ok m2" using a assms(1) mgr_ok_stopCurrent mgr_ok_core by metis
    then show ?thesis using b mgr_ok_startLocked mgr_ok_core by metis
  qed
qed

lemma mgr_ok_plugin_call:
  assumes "mgr_ok m" and "plugin_call id meth out m = (r, m')"
  shows "mgr_ok m'"
proof (cases "mg_closed m \<or> mg_client m = None")
  case True
  then show ?thesis using plugin_call_refused [of m id meth out] assms by auto
next
  case False
  then obtain c where "\<not> mg_closed m" "mg_client m = Some c" by auto
  from plugin_call_core [OF this, of meth out] show ?thesis
    using assms mgr_ok_poisoned [of "core m" c] mgr_ok_cong [of m'] by (auto split: if_splits)
qed

lemma mgr_ok_Heartbeat:
  assumes "mgr_ok m" and "Heartbeat (quiet_heartbeat out) m = (r, m')"
  shows "mgr_ok m'"
proof (cases "mg_closed m \<or> mg_client m = None")
  case True
  then show ?thesis using Heartbeat_refused [of m "quiet_heartbeat out"] assms by auto
next
  case False
  then obtain c where c: "\<not> mg_closed m" "mg_client m = Some c" by auto
  have "mgr_ok (core m\<lparr>mg_state := (mg_state m)\<lparr>st_Healthy := h\<rparr>\<rparr>)" for h
    using assms(1) c by (simp add: mgr_ok_def mg_socket_def)
  then have "mgr_ok (core (snd (Heartbeat (quiet_heartbeat out) m)))"
    unfolding Heartbeat_core [OF c] using assms(1) mgr_ok_poisoned [of "core m" c] by (cases out) simp_all
  then show ?thesis using assms(2) by simp
qed

section \<open>Reachable managers\<close>

text \<open>
  The operations as data, with the outcomes they meet; \<open>exec\<close> runs one and says whether it made a new
  plugin generation available.
\<close>

datatype mgr_op =
    OpStart start_env | OpKill stop_env | OpClose stop_env "goerr option" | OpRestart stop_env start_env
  | OpHeartbeat "heartbeat_response rpc_outcome"
  | OpEcho "string \<Rightarrow> string rpc_outcome" string | OpSleep "duration \<Rightarrow> unit rpc_outcome" duration
  | OpCrash "int \<Rightarrow> unit rpc_outcome" int

fun exec :: "mgr_op \<Rightarrow> manager \<Rightarrow> bool \<times> manager" where
  "exec (OpStart env) m = (case Start env m of (r, m') \<Rightarrow> (r = None, m'))"
| "exec (OpKill kenv) m = (case Kill kenv m of (r, m') \<Rightarrow> (False, m'))"
| "exec (OpClose kenv le) m = (case Close kenv le m of (r, m') \<Rightarrow> (False, m'))"
| "exec (OpRestart kenv env) m = (case Restart kenv env m of (r, m') \<Rightarrow> (r = None, m'))"
| "exec (OpHeartbeat out) m = (case Heartbeat (quiet_heartbeat out) m of (r, m') \<Rightarrow> (False, m'))"
| "exec (OpEcho plug msg) m = (case Echo id plug msg m of (r, m') \<Rightarrow> (False, m'))"
| "exec (OpSleep plug d) m = (case Sleep id plug d m of (r, m') \<Rightarrow> (False, m'))"
| "exec (OpCrash plug code) m = (case Crash id plug code m of (r, m') \<Rightarrow> (False, m'))"

text \<open>Any sequence of operations with any outcomes, from the manager \<open>New\<close> returns.\<close>

inductive mgr_reach :: "config \<Rightarrow> manager \<Rightarrow> bool" for cfg where
  new: "w_procs w = {} \<Longrightarrow> w_conns w = {} \<Longrightarrow> New sys le cfg w fs = (Inr m, fs') \<Longrightarrow> mgr_reach cfg m"
| step: "mgr_reach cfg m \<Longrightarrow> exec x m = (s, m') \<Longrightarrow> mgr_reach cfg m'"

lemma mgr_ok_exec: "mgr_ok m \<Longrightarrow> exec x m = (s, m') \<Longrightarrow> mgr_ok m'"
  by (cases x) (auto simp: Start_def Kill_def Echo_def Sleep_def Crash_def split: prod.splits
      intro: mgr_ok_startLocked mgr_ok_stopCurrent mgr_ok_Close mgr_ok_Restart mgr_ok_Heartbeat mgr_ok_plugin_call)

lemma New_core:
  assumes "New sys le cfg w fs = (Inr m, fs')"
  shows "core m = core (fresh_manager (with_config_defaults cfg) w)"
  using assms by (auto simp: New_def Let_def split: if_splits option.splits prod.splits)

lemma mgr_ok_reach: "mgr_reach cfg m \<Longrightarrow> mgr_ok m"
proof (induction rule: mgr_reach.induct)
  case (new w sys le fs m fs')
  then show ?case using mgr_ok_cong [OF New_core] mgr_ok_fresh by simp
qed (rule mgr_ok_exec)

section \<open>Sample instances\<close>

text \<open>A plugin \<open>echo\<close> that answers correctly, for the concrete instances below.\<close>

definition sample_config :: config where
  "sample_config = \<lparr>cf_RuntimeDir = ''/r'', cf_PluginPath = ''/p'', cf_PluginID = ''echo'',
     cf_DialTimeout = 3 * second, cf_CallTimeout = 2 * second, cf_HeartbeatEvery = 2 * second,
     cf_EventLogPath = ''/r/e'', cf_Metadata = None, cf_Refresh = None, cf_DisableRedaction = False\<rparr>"

definition sample_world :: world where
  "sample_world = \<lparr>w_files = Map.empty, w_procs = {}, w_conns = {}, w_next = 0, w_log = []\<rparr>"

abbreviation sample_idle :: manager where "sample_idle \<equiv> fresh_manager sample_config sample_world"

definition sample_caps :: capabilities_response where
  "sample_caps = \<lparr>cr_PluginID = ''echo'', cr_Version = ''1'', cr_GenerationID = 1, cr_Capabilities = [''echo'']\<rparr>"

definition sample_token :: string where "sample_token = replicate 32 (CHR ''t'')"

definition sample_start :: start_env where
  "sample_start = \<lparr>se_remove = (\<lambda>_. None), se_rand = (sample_token, Sentinel IoEOF), se_write_auth = None,
     se_getenv = (\<lambda>_. []), se_spawn = Inr 7, se_boot = id, se_dial = (\<lambda>_. (0, True)),
     se_cred = \<lparr>ce_unix = True, ce_type = [], ce_syscall_conn = None,
        ce_getsockopt = Inr \<lparr>pc_PID = 7, pc_UID = 0, pc_GID = 0\<rparr>, ce_control = None\<rparr>,
     se_auth = (\<lambda>t. if t = sample_token then Reply \<lparr>ar_PluginID = ''echo'', ar_Version = ''1'', ar_GenerationID = 1\<rparr>
                    else CallErr (ServerError ''permission denied'')),
     se_caps = Reply sample_caps, se_wait = None\<rparr>"

definition sample_stop :: stop_env where
  "sample_stop = \<lparr>ke_shutdown = Reply (), ke_exit = id, ke_wait = Exited None, ke_remove = (\<lambda>_. None)\<rparr>"

lemma sample_idle_ok: "mgr_ok sample_idle" "idle sample_idle"
  by (rule mgr_ok_fresh, simp_all add: sample_world_def idle_def fresh_manager_def)

lemma sample_starts: "\<exists>m'. startLocked sample_start sample_idle = (None, m')"
proof (rule startLocked_succeeds [where pid = 7 and r = "\<lparr>ar_PluginID = ''echo'', ar_Version = ''1'', ar_GenerationID = 1\<rparr>"
      and caps = sample_caps])
  show "idle sample_idle" by (rule sample_idle_ok)
  show "NewToken (se_rand sample_start) = Inr sample_token"
    by (simp add: sample_start_def NewToken_def ReadFull_def sample_token_def)
  show "dial_loop (se_dial sample_start) (cf_DialTimeout (mg_cfg sample_idle)) 0 0 = Some 0"
    by (subst dial_loop.simps) (simp add: sample_start_def fresh_manager_def sample_config_def)
  show "ReadPeerCred (se_cred sample_start) = Inr \<lparr>pc_PID = 7, pc_UID = 0, pc_GID = 0\<rparr>"
    by (simp add: sample_start_def ReadPeerCred_def)
qed (simp_all add: sample_start_def sample_caps_def fresh_manager_def sample_config_def zero_state_def)

lemma sample_no_spawn: "\<exists>e m'. Start (sample_start\<lparr>se_spawn := Inl x\<rparr>) sample_idle = (Some e, m')"
  using startLocked_succeeds_iff [of "sample_start\<lparr>se_spawn := Inl x\<rparr>" sample_idle]
  by (cases "Start (sample_start\<lparr>se_spawn := Inl x\<rparr>) sample_idle"; cases "fst (Start (sample_start\<lparr>se_spawn := Inl x\<rparr>) sample_idle)")
    (auto simp: Start_def started_def)

section \<open>Properties of one operation\<close>

text \<open>
  C1: \<open>Start\<close> succeeds exactly when the manager is open and has no plugin attached, a token could be
  created and written, the process was spawned, its socket answered before the deadline, the peer
  credentials of the connection name that very process, the plugin accepted the fresh token and
  reported, both for authentication and capabilities, the configured plugin id and the next generation.
\<close>

theorem Start_succeeds_iff:
  "fst (Start env m) = None \<longleftrightarrow>
     \<not> mg_closed m \<and> mg_cmd m = None \<and> mg_client m = None
     \<and> (\<exists>t pid cred r caps. NewToken (se_rand env) = Inr t \<and> se_write_auth env = None \<and> se_spawn env = Inr pid
          \<and> dial_loop (se_dial env) (cf_DialTimeout (mg_cfg m)) 0 0 \<noteq> None
          \<and> ReadPeerCred (se_cred env) = Inr cred \<and> pc_PID cred = pid
          \<and> se_auth env t = Reply r \<and> ar_PluginID r = mg_id m \<and> ar_GenerationID r = mg_gen m + 1
          \<and> se_caps env = Reply caps \<and> cr_PluginID caps = mg_id m \<and> cr_GenerationID caps = mg_gen m + 1
          \<and> ''__capabilities_error__'' \<notin> set (cr_Capabilities caps))"
proof
  assume "fst (Start env m) = None"
  then obtain m' where "startLocked env m = (None, m')" by (cases "startLocked env m") (simp add: Start_def)
  from startLocked_ok [OF this] obtain t c caps where i: "idle m" and st: "started env m t c caps" by blast
  then obtain cred r where "ReadPeerCred (se_cred env) = Inr cred" "pc_PID cred = cmd_Pid c"
    "se_auth env t = Reply r" "ar_PluginID r = mg_id m" "ar_GenerationID r = mg_gen m + 1"
    unfolding started_def by blast
  then show "\<not> mg_closed m \<and> mg_cmd m = None \<and> mg_client m = None
     \<and> (\<exists>t pid cred r caps. NewToken (se_rand env) = Inr t \<and> se_write_auth env = None \<and> se_spawn env = Inr pid
          \<and> dial_loop (se_dial env) (cf_DialTimeout (mg_cfg m)) 0 0 \<noteq> None
          \<and> ReadPeerCred (se_cred env) = Inr cred \<and> pc_PID cred = pid
          \<and> se_auth env t = Reply r \<and> ar_PluginID r = mg_id m \<and> ar_GenerationID r = mg_gen m + 1
          \<and> se_caps env = Reply caps \<and> cr_PluginID caps = mg_id m \<and> cr_GenerationID caps = mg_gen m + 1
          \<and> ''__capabilities_error__'' \<notin> set (cr_Capabilities caps))"
    using i st unfolding idle_def started_def
    by (intro conjI exI [of _ t] exI [of _ "cmd_Pid c"] exI [of _ cred] exI [of _ r] exI [of _ caps]) auto
next
  assume "\<not> mg_closed m \<and> mg_cmd m = None \<and> mg_client m = None
     \<and> (\<exists>t pid cred r caps. NewToken (se_rand env) = Inr t \<and> se_write_auth env = None \<and> se_spawn env = Inr pid
          \<and> dial_loop (se_dial env) (cf_DialTimeout (mg_cfg m)) 0 0 \<noteq> None
          \<and> ReadPeerCred (se_cred env) = Inr cred \<and> pc_PID cred = pid
          \<and> se_auth env t = Reply r \<and> ar_PluginID r = mg_id m \<and> ar_GenerationID r = mg_gen m + 1
          \<and> se_caps env = Reply caps \<and> cr_PluginID caps = mg_id m \<and> cr_GenerationID caps = mg_gen m + 1
          \<and> ''__capabilities_error__'' \<notin> set (cr_Capabilities caps))"
  then have "\<exists>m'. startLocked env m = (None, m')"
    using startLocked_succeeds [of m env] unfolding idle_def by blast
  then show "fst (Start env m) = None" by (auto simp: Start_def)
qed

lemma Start_fields:
  assumes "Start env m = (None, m')"
  shows "\<exists>pid caps. se_spawn env = Inr pid \<and> se_caps env = Reply caps
    \<and> mg_state m' = \<lparr>st_PluginID = mg_id m, st_GenerationID = mg_gen m + 1, st_Healthy = True,
          st_Capabilities = cr_Capabilities caps, st_SocketPath = mg_socket m, st_PID = pid, st_Declared = None\<rparr>
    \<and> mg_cmd m' = Some \<lparr>cmd_Path = cf_PluginPath (mg_cfg m),
          cmd_Env = plugin_env (se_getenv env) (mg_gen m + 1) m, cmd_Pid = pid\<rparr>
    \<and> mg_client m' = Some (w_next m) \<and> w_conns m' = insert (w_next m) (w_conns m)
    \<and> w_procs m' = insert pid (w_procs m) \<and> mg_rpcEpoch m' = mg_rpcEpoch m \<and> mg_cfg m' = mg_cfg m
    \<and> (se_remove env (mg_auth m) = None \<longrightarrow> w_files m' (mg_auth m) = None)"
proof -
  obtain t c caps where st: "started env m t c caps"
    and co: "core m' = (core m)\<lparr>mg_cmd := Some c, mg_client := Some (w_next m),
        mg_state := healthy_state c caps (mg_socket m), w_procs := insert (cmd_Pid c) (w_procs m),
        w_next := Suc (w_next m), w_conns := insert (w_next m) (w_conns m)\<rparr>"
    and f: "se_remove env (mg_auth m) = None \<longrightarrow> w_files m' (mg_auth m) = None"
    using startLocked_ok [OF assms [unfolded Start_def]] by (elim exE conjE) (rule that)
  note s = core_selD [OF co]
  have c: "c = \<lparr>cmd_Path = cf_PluginPath (mg_cfg m),
      cmd_Env = plugin_env (se_getenv env) (mg_gen m + 1) m, cmd_Pid = cmd_Pid c\<rparr>"
    using st by (cases c) (simp add: started_def)
  have hs: "healthy_state c caps (mg_socket m) = \<lparr>st_PluginID = mg_id m, st_GenerationID = mg_gen m + 1,
      st_Healthy = True, st_Capabilities = cr_Capabilities caps, st_SocketPath = mg_socket m, st_PID = cmd_Pid c,
      st_Declared = None\<rparr>"
    using st by (simp add: healthy_state_def zero_state_def started_def)
  have "mg_cmd m' = Some \<lparr>cmd_Path = cf_PluginPath (mg_cfg m),
      cmd_Env = plugin_env (se_getenv env) (mg_gen m + 1) m, cmd_Pid = cmd_Pid c\<rparr>"
    using s(3) c by simp
  then show ?thesis
    using st s hs f by (intro exI [of _ "cmd_Pid c"] exI [of _ caps]) (simp add: started_def)
qed

text \<open>
  C2: what a successful start leaves: the next generation, published healthy as soon as the capabilities
  are read (no heartbeat is made) with those capabilities and the spawned process id, a fresh client attached as the only new connection, the
  process running with the environment of exactly that generation, the epoch unchanged, and the token
  file removed (unless the removal itself failed).
\<close>

theorem Start_establishes:
  assumes "Start env m = (None, m')"
  shows "\<exists>pid caps. se_spawn env = Inr pid \<and> se_caps env = Reply caps
    \<and> StateOf m' = \<lparr>st_PluginID = mg_id m, st_GenerationID = mg_gen m + 1, st_Healthy = True,
          st_Capabilities = cr_Capabilities caps, st_SocketPath = mg_socket m, st_PID = pid,
          st_Declared = providerBundleAdminDTO m' (mg_state m')\<rparr>
    \<and> mg_cmd m' = Some \<lparr>cmd_Path = cf_PluginPath (mg_cfg m),
          cmd_Env = plugin_env (se_getenv env) (mg_gen m + 1) m, cmd_Pid = pid\<rparr>
    \<and> mg_client m' = Some (w_next m) \<and> w_conns m' = insert (w_next m) (w_conns m)
    \<and> w_procs m' = insert pid (w_procs m) \<and> mg_rpcEpoch m' = mg_rpcEpoch m \<and> mg_cfg m' = mg_cfg m
    \<and> (se_remove env (mg_auth m) = None \<longrightarrow> w_files m' (mg_auth m) = None)"
proof -
  have e: "StateOf m' = (mg_state m')\<lparr>st_Declared := providerBundleAdminDTO m' (mg_state m')\<rparr>"
    by (simp add: StateOf_def)
  show ?thesis using Start_fields [OF assms] by (elim exE conjE) (simp add: e)
qed

theorem Start_establishes_witness:
  "\<exists>m'. Start sample_start sample_idle = (None, m') \<and> st_Healthy (StateOf m') \<and> w_procs m' = {7}"
proof -
  obtain m' where m': "Start sample_start sample_idle = (None, m')" using sample_starts unfolding Start_def by blast
  then show ?thesis
    using Start_establishes [OF m'] by (auto simp: sample_start_def fresh_manager_def sample_world_def)
qed

section \<open>Artifacts of a failed start\<close>

lemma cleanup_removes:
  assumes "mg_gen m1 = g" and "mg_cfg m1 = mg_cfg m" and "q \<in> {mg_socket m, mg_auth m}" and "rm q = None"
  shows "w_files (cleanupFailedStart rm we (Some c) k g reason cause (logEvent e m1)) q = None"
    and "w_files (cleanupFailedStart rm we (Some c) k g reason cause m1) q = None"
  using assms mg_paths_cfg [of m1 m] mg_paths_cfg [of "logEvent e m1" m]
  by (auto intro!: cleanupFailedStart_files)

lemma start_connect_fail_files:
  assumes "start_connect env g c m = (Inl e, m')" and "mg_gen m = g" and "q \<in> {mg_socket m, mg_auth m}"
    and "se_remove env q = None"
  shows "w_files m' q = None"
proof -
  obtain r m1 where d: "dial (se_dial env) (mg_socket m) g m = (r, m1)" by (cases "dial (se_dial env) (mg_socket m) g m")
  have m1: "mg_state m1 = mg_state m" "mg_cfg m1 = mg_cfg m"
    using d dial_fail [of "se_dial env" "mg_socket m" g m _ m1] dial_ok [of "se_dial env" "mg_socket m" g m _ m1]
      core_selD(1,2) [of m1] by (cases r; fastforce)+
  show ?thesis
  proof (cases r)
    case (Inl x)
    then show ?thesis using assms d m1 cleanup_removes(2) [of m1 g m q] by (auto simp: start_connect_def)
  next
    case (Inr k)
    obtain x m2 where v: "verifyPeerCred (se_cred env) (Some k) (cmd_Pid c) g m1 = (x, m2)"
      by (cases "verifyPeerCred (se_cred env) (Some k) (cmd_Pid c) g m1")
    have m2: "mg_state m2 = mg_state m" "mg_cfg m2 = mg_cfg m"
      using verifyPeerCred_core(1) [of "se_cred env" "Some k" "cmd_Pid c" g m1] v m1 core_eqD [of m2 m1] by simp_all
    show ?thesis
      using assms d Inr v m2 cleanup_removes(1) [of m2 g m q] by (auto simp: start_connect_def Let_def split: option.splits)
  qed
qed

lemma start_abort_files:
  "mg_gen m1 = g \<Longrightarrow> mg_cfg m1 = mg_cfg m \<Longrightarrow> q \<in> {mg_socket m, mg_auth m} \<Longrightarrow> se_remove env q = None
   \<Longrightarrow> w_files (start_abort env g c k cmpn name msg reason e m1) q = None"
  unfolding start_abort_def by (rule cleanup_removes(1))

lemma start_authenticate_fail_files:
  assumes "start_authenticate env g t c k m = (Some e, m')" and "mg_client m = None" and "mg_gen m = g"
    and "q \<in> {mg_socket m, mg_auth m}" and "se_remove env q = None"
  shows "w_files m' q = None"
proof -
  let ?m1 = "logEvent (start_ev m g (cmd_Pid c) LevelInfo ComponentAuth EventAuthStarted
                 ''authenticating plugin bootstrap token'') m"
  obtain r m2 where call: "call id (Some k) g 0 MethodAuth (se_auth env t) ?m1 = (r, m2)"
    by (cases "call id (Some k) g 0 MethodAuth (se_auth env t) ?m1")
  have "mg_gen m2 = g" "mg_cfg m2 = mg_cfg m"
    using core_selD [OF call_detached_core [of ?m1 k g 0 MethodAuth "se_auth env t"]] assms(2,3) call by simp_all
  note a = start_abort_files [OF this assms(4,5)]
  show ?thesis
    using assms(1) call a by (auto simp: start_authenticate_def Let_def split: sum.splits if_splits)
qed

lemma start_capabilities_fail_files:
  assumes "start_capabilities env g c k m = (Inl e, m')" and "mg_client m = None" and "mg_gen m = g"
    and "q \<in> {mg_socket m, mg_auth m}" and "se_remove env q = None"
  shows "w_files m' q = None"
proof -
  let ?m1 = "logEvent (start_ev m g (cmd_Pid c) LevelInfo ComponentKernel EventCapabilitiesStarted
                 ''loading plugin capabilities'') m"
  obtain r m2 where call: "call id (Some k) g 0 MethodCapabilities (se_caps env) ?m1 = (r, m2)"
    by (cases "call id (Some k) g 0 MethodCapabilities (se_caps env) ?m1")
  have "mg_gen m2 = g" "mg_cfg m2 = mg_cfg m"
    using core_selD [OF call_detached_core [of ?m1 k g 0 MethodCapabilities "se_caps env"]] assms(2,3) call by simp_all
  note a = start_abort_files [OF this assms(4,5)]
  show ?thesis
    using assms(1) call a by (auto simp: start_capabilities_def Let_def split: sum.splits if_splits)
qed

lemma start_token_files: "start_token env g m = (Inr t, m') \<Longrightarrow> w_files m' (mg_auth m) = Some t"
  using start_token_ok by blast

text \<open>Files after a failed start whose token was written.\<close>

lemma startLocked_fail_files:
  assumes f: "startLocked env m = (Some e, m')" and i: "idle m" and "NewToken (se_rand env) = Inr t"
    and "se_write_auth env = None"
  shows "(\<exists>x. se_spawn env = Inl x) \<Longrightarrow> w_files m' (mg_auth m) = Some t"
    and "se_spawn env = Inr pid \<Longrightarrow> q \<in> {mg_socket m, mg_auth m} \<Longrightarrow> se_remove env q = None \<Longrightarrow> w_files m' q = None"
proof -
  let ?g = "mg_gen m + 1"
  have r: "start_reserve m = (Inr ?g, reserved m)" using i by (simp add: start_reserve_Inr)
  obtain m2 where tk: "start_token env ?g (reserved m) = (Inr t, m2)" using start_token_succeeds assms(3,4) by blast
  note T = start_token_ok [OF tk]
  have m2: "mg_gen m2 = ?g" "mg_cfg m2 = mg_cfg m" "mg_client m2 = None"
    using core_selD [OF conjunct1 [OF conjunct2 [OF conjunct2 [OF T]]]] i by (simp_all add: idle_def)
  show "w_files m' (mg_auth m) = Some t" if sp: "\<exists>x. se_spawn env = Inl x"
  proof -
    obtain x m3 where s: "start_spawn env ?g m2 = (Inl x, m3)" using sp by (auto simp: start_spawn_def Let_def)
    then have "m' = m3" using f r tk by (simp add: startLocked_def)
    then show ?thesis using start_spawn_fail [OF s m2(1)] T by simp
  qed
  show "w_files m' q = None" if sp: "se_spawn env = Inr pid" and q: "q \<in> {mg_socket m, mg_auth m}" and rm: "se_remove env q = None"
  proof -
    obtain c m3 where s: "start_spawn env ?g m2 = (Inr c, m3)" using start_spawn_succeeds [OF sp] by blast
    note S = core_selD [OF conjunct2 [OF conjunct2 [OF conjunct2 [OF start_spawn_ok [OF s]]]]]
    have m3: "mg_gen m3 = ?g" "mg_cfg m3 = mg_cfg m" "mg_client m3 = None" using S m2 by simp_all
    have q3: "q \<in> {mg_socket m3, mg_auth m3}" using q mg_paths_cfg [OF m3(2)] by simp
    obtain dr m4 where d: "start_connect env ?g c m3 = (dr, m4)" by (cases "start_connect env ?g c m3")
    show ?thesis
    proof (cases dr)
      case (Inl x)
      then have "m' = m4" using f r tk s d by (simp add: startLocked_def)
      then show ?thesis using start_connect_fail_files [of env ?g c m3 x m4] d Inl m3(1) q3 rm by simp
    next
      case (Inr k)
      have c4: "core m4 = (core m3)\<lparr>w_next := Suc (w_next m3), w_conns := insert (w_next m3) (w_conns m3)\<rparr>"
        using start_connect_ok [of env ?g c m3 k m4] d Inr by simp
      have m4: "mg_gen m4 = ?g" "mg_cfg m4 = mg_cfg m" "mg_client m4 = None" using core_selD [OF c4] m3 by simp_all
      have q4: "q \<in> {mg_socket m4, mg_auth m4}" using q mg_paths_cfg [OF m4(2)] by simp
      obtain ar m5 where a: "start_authenticate env ?g t c k m4 = (ar, m5)" by (cases "start_authenticate env ?g t c k m4")
      show ?thesis
      proof (cases ar)
        case (Some x)
        then have "m' = m5" using f r tk s d Inr a by (simp add: startLocked_def)
        then show ?thesis using start_authenticate_fail_files [of env ?g t c k m4 x m5] a Some m4 q4 rm by simp
      next
        case None
        have c5: "core m5 = core m4" using start_authenticate_ok [of env ?g t c k m4 m5] a None m4(3) by simp
        note m5 = core_eqD [OF c5]
        have q5: "q \<in> {mg_socket m5, mg_auth m5}" using q4 mg_paths_cfg [OF m5(1)] by simp
        obtain x where "start_capabilities env ?g c k m5 = (Inl x, m')"
          using f r tk s d Inr a None by (auto simp: startLocked_def split: prod.splits sum.splits)
        then show ?thesis using start_capabilities_fail_files [of env ?g c k m5 x m'] m4 m5 q5 rm by simp
      qed
    qed
  qed
qed

text \<open>
  C3: what a failed start leaves. Either it was refused (closed, or a plugin attached) and nothing at
  all changed. Or the published state is the zero state with the old generation, nothing is attached,
  no connection of the attempt is left, the epoch is unchanged, and so are the processes, except that
  a spawned process stays behind exactly when waiting for it failed, an error the clean-up discards.
  Once the process was spawned neither socket nor token file is left where the removals work. When it
  could not be spawned the token file stays behind with the token in it; and as long as no process was
  spawned no other file is touched.
\<close>

theorem Start_failure_restores:
  assumes "mgr_ok m" and "Start env m = (Some e, m')" and "\<forall>pid. se_spawn env = Inr pid \<longrightarrow> pid \<notin> w_procs m"
  shows "((mg_closed m \<or> mg_cmd m \<noteq> None \<or> mg_client m \<noteq> None) \<and> m' = m)
    \<or> (\<not> mg_closed m \<and> mg_cmd m = None \<and> mg_client m = None
       \<and> mg_state m' = zero_state\<lparr>st_PluginID := mg_id m, st_GenerationID := mg_gen m\<rparr>
       \<and> mg_cmd m' = None \<and> mg_client m' = None \<and> w_conns m' = {} \<and> mg_rpcEpoch m' = mg_rpcEpoch m
       \<and> \<not> mg_closed m' \<and> mg_cfg m' = mg_cfg m
       \<and> w_procs m' = w_procs m \<union> {pid. spawned env pid \<and> real_failure (se_wait env)}
       \<and> ((\<exists>pid. spawned env pid) \<longrightarrow>
            (\<forall>q \<in> {mg_socket m, mg_auth m}. se_remove env q = None \<longrightarrow> w_files m' q = None))
       \<and> (\<forall>t x. NewToken (se_rand env) = Inr t \<and> se_write_auth env = None \<and> se_spawn env = Inl x
            \<longrightarrow> w_files m' (mg_auth m) = Some t)
       \<and> ((\<forall>pid. \<not> spawned env pid) \<longrightarrow>
            (\<forall>q. q \<notin> {mg_socket m, mg_auth m} \<longrightarrow> w_files m' q = w_files m q)))"
proof -
  note st = assms(2) [unfolded Start_def]
  have left: "unreaped (se_wait env) pid (insert pid (w_procs m))
      = w_procs m \<union> {p. spawned env p \<and> real_failure (se_wait env)}" if "spawned env pid" for pid
    using that assms(3) by (auto simp: unreaped_def spawned_def)
  have none: "w_procs m = w_procs m \<union> {p. spawned env p \<and> real_failure (se_wait env)}" if "\<forall>pid. \<not> spawned env pid"
    using that by simp
  from startLocked_fail [OF st mgr_ok_fresh_conns [OF assms(1)]]
  consider "\<not> idle m" "m' = m" | n ps where "idle m" "core m' = abandoned ps n m"
      "ps = w_procs m \<union> {pid. spawned env pid \<and> real_failure (se_wait env)}"
    using left none by metis
  then show ?thesis
  proof cases
    case 1
    then show ?thesis by (auto simp: idle_def)
  next
    case 2
    have "w_conns m = {}" using assms(1) 2(1) by (simp add: mgr_ok_def idle_def)
    then have eff: "mg_state m' = zero_state\<lparr>st_PluginID := mg_id m, st_GenerationID := mg_gen m\<rparr>"
      "mg_cmd m' = None" "mg_client m' = None" "w_conns m' = {}" "mg_rpcEpoch m' = mg_rpcEpoch m"
      "\<not> mg_closed m'" "mg_cfg m' = mg_cfg m" "w_procs m' = ps"
      using core_selD [OF 2(2)] 2(1) by (simp_all add: abandoned_def idle_def)
    have gone: "\<forall>q \<in> {mg_socket m, mg_auth m}. se_remove env q = None \<longrightarrow> w_files m' q = None"
      if sp: "\<exists>pid. spawned env pid"
    proof -
      obtain pid t where s: "NewToken (se_rand env) = Inr t" "se_write_auth env = None" "se_spawn env = Inr pid"
        using sp by (auto simp: spawned_def)
      show ?thesis by (intro ballI impI) (rule startLocked_fail_files(2) [OF st 2(1) s])
    qed
    have stays: "w_files m' (mg_auth m) = Some t"
      if "NewToken (se_rand env) = Inr t" "se_write_auth env = None" "se_spawn env = Inl x" for t x
      using startLocked_fail_files(1) [OF st 2(1) that(1,2)] that(3) by blast
    have other: "w_files m' q = w_files m q" if "\<forall>pid. \<not> spawned env pid" "q \<notin> {mg_socket m, mg_auth m}" for q
      by (rule startLocked_unspawned_files [OF st that])
    show ?thesis
    proof (intro disjI2 conjI allI impI)
      show "w_procs m' = w_procs m \<union> {pid. spawned env pid \<and> real_failure (se_wait env)}" using eff 2(3) by simp
      show "\<not> mg_closed m" "mg_cmd m = None" "mg_client m = None" using 2(1) by (simp_all add: idle_def)
    qed (use eff gone stays other in \<open>(elim conjE)?, assumption | simp\<close>)+
  qed
qed

text \<open>A plugin that does not authenticate and whose process cannot be waited for.\<close>

lemma sample_no_auth:
  "\<exists>e m'. Start (sample_start\<lparr>se_auth := (\<lambda>_. CallErr x), se_wait := w\<rparr>) sample_idle = (Some e, m')"
  using startLocked_succeeds_iff [of "sample_start\<lparr>se_auth := (\<lambda>_. CallErr x), se_wait := w\<rparr>" sample_idle]
  by (cases "Start (sample_start\<lparr>se_auth := (\<lambda>_. CallErr x), se_wait := w\<rparr>) sample_idle";
      cases "fst (Start (sample_start\<lparr>se_auth := (\<lambda>_. CallErr x), se_wait := w\<rparr>) sample_idle)")
    (auto simp: Start_def started_def)

theorem Start_failure_restores_witness:
  "let env = sample_start\<lparr>se_auth := (\<lambda>_. CallErr (ServerError ''no'')), se_wait := Some (err ''wait'')\<rparr>;
       m' = snd (Start env sample_idle)
   in fst (Start env sample_idle) \<noteq> None \<and> mg_gen m' = 0 \<and> w_procs m' = {7} \<and> w_files m' (mg_auth sample_idle) = None"
proof -
  let ?env = "sample_start\<lparr>se_auth := (\<lambda>_. CallErr (ServerError ''no'')), se_wait := Some (err ''wait'')\<rparr>"
  obtain e m' where s: "Start ?env sample_idle = (Some e, m')" using sample_no_auth by blast
  have tok: "NewToken (se_rand sample_start) = Inr sample_token"
    by (simp add: sample_start_def NewToken_def ReadFull_def sample_token_def)
  have sp: "spawned ?env pid \<longleftrightarrow> pid = 7" for pid
    using tok by (auto simp: spawned_def sample_start_def)
  have w: "real_failure (se_wait ?env)" by (simp add: real_failure_def)
  have fresh: "\<forall>pid. se_spawn ?env = Inr pid \<longrightarrow> pid \<notin> w_procs sample_idle"
    by (simp add: fresh_manager_def sample_world_def)
  have z: "mg_gen sample_idle = 0" "w_procs sample_idle = {}" "se_remove ?env = (\<lambda>_. None)"
    by (simp_all add: fresh_manager_def sample_world_def zero_state_def sample_start_def)
  have "mg_gen m' = 0 \<and> w_procs m' = {7} \<and> w_files m' (mg_auth sample_idle) = None"
    using Start_failure_restores [OF sample_idle_ok(1) s fresh] sample_idle_ok(2) z w
    unfolding sp idle_def by auto
  then show ?thesis unfolding Let_def s by simp
qed

text \<open>
  Artifacts of a failed start. Once the token file is written, a start that fails after the process
  was spawned leaves neither socket nor token file (where the removals work), but when the process
  itself cannot be spawned the token file stays behind with the bootstrap token in it.
\<close>

theorem failed_start_artifacts:
  assumes "Start env m = (Some e, m')" and "\<not> mg_closed m" and "mg_cmd m = None" and "mg_client m = None"
    and "NewToken (se_rand env) = Inr t" and "se_write_auth env = None" and "\<forall>q. se_remove env q = None"
  shows "(\<forall>pid. se_spawn env = Inr pid \<longrightarrow> w_files m' (mg_socket m) = None \<and> w_files m' (mg_auth m) = None)
    \<and> (\<forall>x. se_spawn env = Inl x \<longrightarrow> w_files m' (mg_auth m) = Some t)"
proof -
  have i: "idle m" using assms(2-4) by (simp add: idle_def)
  show ?thesis
    using startLocked_fail_files [OF assms(1) [unfolded Start_def] i assms(5,6)] assms(7) by auto
qed

theorem failed_start_artifacts_witness:
  "let env = sample_start\<lparr>se_spawn := Inl (err ''no'')\<rparr>
   in w_files (snd (Start env sample_idle)) (mg_auth sample_idle) = Some sample_token"
proof -
  let ?env = "sample_start\<lparr>se_spawn := Inl (err ''no'')\<rparr>"
  obtain e m' where s: "Start ?env sample_idle = (Some e, m')" using sample_no_spawn by blast
  have tok: "NewToken (se_rand ?env) = Inr sample_token"
    by (simp add: sample_start_def NewToken_def ReadFull_def sample_token_def)
  have w: "se_write_auth ?env = None" "\<forall>q. se_remove ?env q = None" by (simp_all add: sample_start_def)
  have i: "\<not> mg_closed sample_idle" "mg_cmd sample_idle = None" "mg_client sample_idle = None"
    using sample_idle_ok(2) by (simp_all add: idle_def)
  show ?thesis using failed_start_artifacts [OF s i tok w] unfolding Let_def s by simp
qed

end
