(* ===== verification/Manager_Lifecycle.thy ===== *)
theory Manager_Lifecycle
  imports Manager_Props
begin

text \<open>
  Life cycle of the plugin manager: invariants of reachable managers, stop, close, restart, the
  generation numbers along a sequence of operations, the dial loop and the recovery the monitor loop
  performs.
\<close>

section \<open>Reachable managers\<close>

text \<open>
  C4: every manager that any sequence of operations can produce is consistent: a healthy one has a
  client and a running process whose id it publishes; the open connections are exactly the attached
  client's; without a process there is neither client nor process id; a closed one has nothing attached.
\<close>

theorem reachable_manager_consistent:
  assumes "mgr_reach cfg m"
  shows "(mg_healthy m \<longrightarrow> (\<exists>k c. mg_client m = Some k \<and> mg_cmd m = Some c \<and> mg_pid m = cmd_Pid c \<and> cmd_Pid c \<in> w_procs m))
    \<and> w_conns m = set_option (mg_client m)
    \<and> (mg_cmd m = None \<longrightarrow> mg_client m = None \<and> mg_pid m = 0)
    \<and> (mg_closed m \<longrightarrow> mg_cmd m = None \<and> mg_client m = None \<and> \<not> mg_healthy m)"
proof -
  have ok: "mgr_ok m" using assms by (rule mgr_ok_reach)
  then have "\<exists>k c. mg_client m = Some k \<and> mg_cmd m = Some c \<and> mg_pid m = cmd_Pid c \<and> cmd_Pid c \<in> w_procs m"
    if "mg_healthy m" using that by (auto simp: mgr_ok_def)
  moreover have "mg_client m = None \<and> mg_pid m = 0" if "mg_cmd m = None"
    using ok that unfolding mgr_ok_def by (cases "mg_client m") auto
  moreover have "w_conns m = set_option (mg_client m)" using ok by (simp add: mgr_ok_def)
  ultimately show ?thesis using mgr_ok_closed [OF ok] by blast
qed

lemma sample_starts_core:
  assumes "core m = core sample_idle"
  shows "\<exists>m'. startLocked sample_start m = (None, m')"
proof -
  have "idle m" using core_eqD [OF assms] sample_idle_ok(2) by (simp add: idle_def)
  moreover have "started sample_start m t c caps" if "started sample_start sample_idle t c caps" for t c caps
    using that core_eqD(1,2) [OF assms] plugin_env_core [OF assms] by (simp add: started_def)
  ultimately show ?thesis using sample_starts unfolding startLocked_succeeds_iff by blast
qed

definition sample_fs :: fstree where
  "sample_fs = [''/p'' \<mapsto> \<lparr>fi_kind = KRegular, fi_perm = 0x1ED\<rparr>]"

lemma sample_New: "\<exists>m fs'. New quiet_sys None sample_config sample_world sample_fs = (Inr m, fs')"
  by (simp add: New_def sample_config_def ValidateExecutable_def sample_fs_def Lstat_def quiet_sys_def IsAbs_def
      EnsureDir_def not_exist_def Let_def)

lemma sample_defaults: "with_config_defaults sample_config = sample_config"
  by (simp add: with_config_defaults_def sample_config_def default_duration_def cloneRefresh_def)

lemma sample_reach: "\<exists>m. mgr_reach sample_config m \<and> mg_healthy m \<and> mg_pid m = 7"
proof -
  obtain m fs' where n: "New quiet_sys None sample_config sample_world sample_fs = (Inr m, fs')" using sample_New by blast
  have r: "mgr_reach sample_config m" by (rule mgr_reach.new [OF _ _ n]) (simp_all add: sample_world_def)
  have "core m = core sample_idle" using New_core [OF n] sample_defaults by simp
  then obtain m' where s: "Start sample_start m = (None, m')" using sample_starts_core unfolding Start_def by blast
  then have "mgr_reach sample_config m'"
    by (intro mgr_reach.step [OF r, of "OpStart sample_start" True]) simp
  moreover have "mg_healthy m' \<and> mg_pid m' = 7"
    using Start_fields [OF s] by (auto simp: sample_start_def)
  ultimately show ?thesis by blast
qed

theorem reachable_manager_consistent_witness:
  "\<exists>m. mgr_reach sample_config m \<and> mg_healthy m \<and> 7 \<in> w_procs m"
proof -
  obtain m where "mgr_reach sample_config m" "mg_healthy m" "mg_pid m = 7" using sample_reach by blast
  then show ?thesis using reachable_manager_consistent [of sample_config m] by auto
qed

section \<open>Stopping and closing\<close>

text \<open>
  C9: a \<open>Kill\<close> that succeeds has stopped the plugin: nothing is attached, no connection is open, the
  process is reaped, the state is unhealthy without process id, the RPC epoch has advanced so that
  pending replies are stale, the generation is kept, and socket and token file are gone where removal works.
\<close>

theorem Kill_stops:
  assumes "mgr_ok m" and "\<not> mg_closed m" and "Kill env m = (None, m')"
  shows "mg_cmd m' = None \<and> mg_client m' = None \<and> \<not> mg_healthy m' \<and> mg_pid m' = 0 \<and> w_conns m' = {}
    \<and> w_procs m' = w_procs m - cmd_Pid ` set_option (mg_cmd m)
    \<and> mg_rpcEpoch m' = mg_rpcEpoch m + 1 \<and> mg_gen m' = mg_gen m
    \<and> (\<forall>q \<in> {mg_socket m, mg_auth m}. ke_remove env q = None \<longrightarrow> w_files m' q = None)"
proof -
  have s: "stopCurrent env False ''kill requested'' m = (None, m')" using assms(3) by (simp add: Kill_def)
  note S = stopCurrent_core [OF assms(2) s]
  show ?thesis
    using core_selD [OF conjunct2 [OF S]] S assms(1) stopCurrent_cleans [OF assms(2) s]
    by (auto simp: detached_def mgr_ok_def)
qed

lemma startLocked_open:
  assumes "startLocked env m = (None, m')"
  shows "\<not> mg_closed m' \<and> mg_gen m' = mg_gen m + 1 \<and> w_next m' = Suc (w_next m)"
proof -
  obtain t c caps where i: "idle m" and st: "started env m t c caps"
    and co: "core m' = (core m)\<lparr>mg_cmd := Some c, mg_client := Some (w_next m),
        mg_state := healthy_state c caps (mg_socket m), w_procs := insert (cmd_Pid c) (w_procs m),
        w_next := Suc (w_next m), w_conns := insert (w_next m) (w_conns m)\<rparr>"
    using startLocked_ok [OF assms] by (elim exE conjE) (rule that)
  show ?thesis using core_selD(2,6,12) [OF co] i st by (simp add: idle_def healthy_state_def started_def)
qed

lemma sample_running:
  obtains m where "Start sample_start sample_idle = (None, m)" "mgr_ok m" "\<not> mg_closed m" "mg_gen m = 1"
    "mg_rpcEpoch m = 0" "mg_client m = Some 0" "w_procs m = {7}" "mg_cfg m = sample_config"
    "mg_cmd m = Some \<lparr>cmd_Path = ''/p'', cmd_Env = plugin_env (\<lambda>_. []) 1 sample_idle, cmd_Pid = 7\<rparr>"
proof -
  obtain m where s: "startLocked sample_start sample_idle = (None, m)" using sample_starts by blast
  have e: "mg_gen sample_idle = 0" "mg_rpcEpoch sample_idle = 0" "w_next sample_idle = 0" "w_procs sample_idle = {}"
    "mg_cfg sample_idle = sample_config"
    by (simp_all add: fresh_manager_def sample_world_def zero_state_def)
  have c: "\<not> mg_closed m" using startLocked_open [OF s] by simp
  show ?thesis
    using that [OF s [folded Start_def] mgr_ok_startLocked [OF sample_idle_ok(1) s] c]
      Start_fields [OF s [folded Start_def]] e
    by (auto simp: sample_start_def sample_config_def)
qed

theorem Kill_stops_witness:
  "\<exists>m m'. mg_client m = Some 0 \<and> Kill sample_stop m = (None, m') \<and> w_procs m' = {} \<and> mg_rpcEpoch m' = 1"
proof -
  obtain m where m: "mgr_ok m" "\<not> mg_closed m" "mg_rpcEpoch m = 0" "mg_client m = Some 0" "w_procs m = {7}"
    "mg_cmd m = Some \<lparr>cmd_Path = ''/p'', cmd_Env = plugin_env (\<lambda>_. []) 1 sample_idle, cmd_Pid = 7\<rparr>"
    by (rule sample_running) (rule that)
  obtain r m' where k: "Kill sample_stop m = (r, m')" by (cases "Kill sample_stop m")
  have "\<not> stop_fails sample_stop m" by (simp add: stop_fails_def sample_stop_def real_failure_def)
  then have "r = None" using stopCurrent_core [OF m(2)] k unfolding Kill_def by blast
  with k have k: "Kill sample_stop m = (None, m')" by simp
  have "w_procs m' = {} \<and> mg_rpcEpoch m' = 1" using Kill_stops [OF m(1,2) k] m by simp
  then show ?thesis using m(4) k by blast
qed

text \<open>
  When waiting for or killing the process fails, \<open>Kill\<close> reports the error but has already forgotten
  the process: it is still among the running children although the manager has nothing attached, so the
  next start is not refused and a second process can run next to the first.
\<close>

theorem failed_Kill_forgets_process:
  assumes "mgr_ok m" and "\<not> mg_closed m" and "Kill env m = (Some e, m')"
  shows "\<exists>c. mg_cmd m = Some c \<and> cmd_Pid c \<in> w_procs m' \<and> mg_cmd m' = None \<and> mg_client m' = None
    \<and> fst (start_reserve m') = Inr (mg_gen m + 1)"
proof -
  have s: "stopCurrent env False ''kill requested'' m = (Some e, m')" using assms(3) by (simp add: Kill_def)
  note S = stopCurrent_core [OF assms(2) s]
  then obtain c where c: "mg_cmd m = Some c" "stop_fails env m" by (auto simp: stop_fails_def)
  have "cmd_Pid c \<in> w_procs m" using assms(1) c(1) by (simp add: mgr_ok_def)
  then show ?thesis
    using core_selD [OF conjunct2 [OF S]] c by (simp add: detached_def start_reserve_def Let_def)
qed

theorem failed_Kill_forgets_process_witness:
  "\<exists>m m' e. Kill (sample_stop\<lparr>ke_wait := GraceExpired (Some (err ''EPERM'')) None\<rparr>) m = (Some e, m')
     \<and> 7 \<in> w_procs m' \<and> mg_cmd m' = None"
proof -
  let ?env = "sample_stop\<lparr>ke_wait := GraceExpired (Some (err ''EPERM'')) None\<rparr>"
  obtain m where m: "mgr_ok m" "\<not> mg_closed m"
    "mg_cmd m = Some \<lparr>cmd_Path = ''/p'', cmd_Env = plugin_env (\<lambda>_. []) 1 sample_idle, cmd_Pid = 7\<rparr>"
    by (rule sample_running) (rule that)
  obtain r m' where k: "Kill ?env m = (r, m')" by (cases "Kill ?env m")
  have "stop_fails ?env m" using m(3) by (simp add: stop_fails_def real_failure_def)
  then obtain e where "r = Some e" using stopCurrent_core [OF m(2)] k unfolding Kill_def by blast
  with k have k: "Kill ?env m = (Some e, m')" by simp
  show ?thesis using failed_Kill_forgets_process [OF m(1,2) k] m(3) k by auto
qed

text \<open>
  C10: \<open>Close\<close> is final and idempotent. It always detaches everything and marks the manager closed, also
  when stopping fails; afterwards \<open>Start\<close>, \<open>Kill\<close>, \<open>Restart\<close>, \<open>Heartbeat\<close>, \<open>Echo\<close>, \<open>Sleep\<close> and \<open>Crash\<close> are
  refused without changing anything, and closing again returns the first result.
\<close>

theorem Close_is_final:
  assumes "mgr_ok m" and "\<not> mg_closed m" and "Close env le m = (r, m')"
  shows "mg_closed m' \<and> mg_closedCh m' \<and> mg_cmd m' = None \<and> mg_client m' = None \<and> \<not> mg_healthy m' \<and> w_conns m' = {}
    \<and> (\<forall>q \<in> {mg_socket m, mg_auth m}. ke_remove env q = None \<longrightarrow> w_files m' q = None)
    \<and> Start senv m' = (Some (err ''manager closed''), m') \<and> Kill kenv m' = (Some (err ''manager closed''), m')
    \<and> Restart kenv senv m' = (Some (err ''manager closed''), m')
    \<and> Heartbeat henv m' = ((zero_heartbeat, Some (err ''manager closed'')), m')
    \<and> Echo intf plug msg m' = (Inl (err ''manager closed''), m')
    \<and> Sleep intf plug_s d m' = (Inl (err ''manager closed''), m')
    \<and> Crash intf plug_c code m' = (Inl (err ''manager closed''), m') \<and> Close env' le' m' = (r, m')"
proof -
  have nd: "\<not> mg_closeDone m" using assms(1,2) by (simp add: mgr_ok_def)
  note C = core_selD [OF conjunct1 [OF Close_core [OF assms(2) nd assms(3)]]]
  have m': "mg_closed m'" "mg_closedCh m'" "mg_cmd m' = None" "mg_client m' = None" "\<not> mg_healthy m'"
    "mg_closeDone m'" "mg_closeErr m' = r" "w_conns m' = {}"
    using C assms(1) by (auto simp: detached_def mgr_ok_def)
  then show ?thesis
    using Close_cleans [OF assms(2) nd assms(3)] stopCurrent_closed [of m' kenv False "''kill requested''"]
    by (auto simp: Start_def startLocked_def start_reserve_def Kill_def Restart_def Heartbeat_def Let_def Echo_def Sleep_def
        Crash_def plugin_call_def Close_def)
qed

theorem Close_is_final_witness:
  "let m' = snd (Close sample_stop None sample_idle)
   in mg_closed m' \<and> Start sample_start m' = (Some (err ''manager closed''), m')"
proof -
  obtain r m' where c: "Close sample_stop None sample_idle = (r, m')" by (cases "Close sample_stop None sample_idle")
  have "\<not> mg_closed sample_idle" using sample_idle_ok(2) by (simp add: idle_def)
  then show ?thesis using Close_is_final [OF sample_idle_ok(1) _ c] unfolding Let_def c by simp
qed

section \<open>Restart\<close>

lemma Restart_fields:
  assumes "mgr_ok m" and "Restart kenv senv m = (None, m')"
  shows "mg_gen m' = mg_gen m + 1 \<and> mg_healthy m' \<and> mg_rpcEpoch m' = mg_rpcEpoch m + 1
    \<and> mg_client m' = Some (w_next m) \<and> w_conns m' = {w_next m}
    \<and> (\<exists>pid. se_spawn senv = Inr pid \<and> mg_pid m' = pid
         \<and> w_procs m' = insert pid (w_procs m - cmd_Pid ` set_option (mg_cmd m)))"
proof -
  obtain m1 m2 m3 where m1: "core m1 = core m" "\<not> mg_closed m" and st: "stopCurrent kenv False ''restart requested'' m1 = (None, m2)"
    and sl: "startLocked senv m2 = (None, m3)" and m': "core m' = core m3"
    using Restart_ok [OF assms(2)] by blast
  note e1 = core_eqD [OF m1(1)]
  have "\<not> mg_closed m1" using m1(2) e1 by simp
  note S = stopCurrent_core [OF this st]
  note s2 = core_selD [OF conjunct2 [OF S]]
  have m2: "mg_gen m2 = mg_gen m" "mg_rpcEpoch m2 = mg_rpcEpoch m + 1" "w_next m2 = w_next m" "w_conns m2 = {}"
    "w_procs m2 = w_procs m - cmd_Pid ` set_option (mg_cmd m)"
    using s2 S e1 assms(1) by (auto simp: detached_def mgr_ok_def)
  have "\<exists>pid. se_spawn senv = Inr pid \<and> mg_gen m3 = mg_gen m2 + 1 \<and> mg_healthy m3 \<and> mg_rpcEpoch m3 = mg_rpcEpoch m2
      \<and> mg_client m3 = Some (w_next m2) \<and> w_conns m3 = insert (w_next m2) (w_conns m2) \<and> mg_pid m3 = pid
      \<and> w_procs m3 = insert pid (w_procs m2)"
    using Start_fields [OF sl [folded Start_def]] by auto
  then show ?thesis using m2 core_eqD [OF m'] by auto
qed

text \<open>
  C11: a successful \<open>Restart\<close> replaces the plugin: the next generation is published healthy, as after any
  start before a heartbeat of it, with a client that was never used before, the old process is reaped and the old connection closed, the epoch has advanced.
\<close>

theorem Restart_replaces:
  assumes "mgr_ok m" and "Restart kenv senv m = (None, m')"
  shows "mg_gen m' = mg_gen m + 1 \<and> mg_healthy m' \<and> mg_rpcEpoch m' = mg_rpcEpoch m + 1
    \<and> mg_client m' = Some (w_next m) \<and> mg_client m \<noteq> mg_client m' \<and> w_conns m' = {w_next m}
    \<and> (\<exists>pid. se_spawn senv = Inr pid \<and> mg_pid m' = pid
         \<and> w_procs m' = insert pid (w_procs m - cmd_Pid ` set_option (mg_cmd m)))"
proof -
  have "mg_client m \<noteq> Some (w_next m)" using assms(1) by (auto simp: mgr_ok_def)
  then show ?thesis using Restart_fields [OF assms] by auto
qed

lemma Restart_succeeds:
  assumes "mgr_ok m" and "\<not> mg_closed m" and "\<not> stop_fails kenv m"
    and "\<And>m2. mg_gen m2 = mg_gen m \<Longrightarrow> mg_cfg m2 = mg_cfg m \<Longrightarrow> idle m2 \<Longrightarrow> \<exists>m3. startLocked senv m2 = (None, m3)"
  shows "\<exists>m'. Restart kenv senv m = (None, m')"
proof -
  let ?m1 = "logEvent (kev m LevelWarn ComponentKernel EventRestartRequested (mg_gen m) (mg_pid m)
      (st_SocketPath (mg_state m)) ''restart requested'') m"
  obtain r m2 where st: "stopCurrent kenv False ''restart requested'' ?m1 = (r, m2)"
    by (cases "stopCurrent kenv False ''restart requested'' ?m1")
  have c: "\<not> mg_closed ?m1" using assms(2) by simp
  note S = stopCurrent_core [OF c st]
  have r: "r = None" using S assms(3) by (simp add: stop_fails_def)
  have "mg_gen m2 = mg_gen m" "mg_cfg m2 = mg_cfg m" "idle m2"
    using core_selD [OF conjunct2 [OF S]] by (simp_all add: detached_def idle_def)
  then obtain m3 where "startLocked senv m2 = (None, m3)" using assms(4) by blast
  then show ?thesis using assms(2) st r by (simp add: Restart_def Let_def)
qed

text \<open>The sample plugin, answering for generation \<open>g\<close> as process \<open>pid\<close>.\<close>

definition sample_env :: "uint64 \<Rightarrow> int \<Rightarrow> start_env" where
  "sample_env g pid = sample_start\<lparr>se_spawn := Inr pid,
     se_cred := \<lparr>ce_unix = True, ce_type = [], ce_syscall_conn = None,
        ce_getsockopt = Inr \<lparr>pc_PID = pid, pc_UID = 0, pc_GID = 0\<rparr>, ce_control = None\<rparr>,
     se_auth := (\<lambda>t. Reply \<lparr>ar_PluginID = ''echo'', ar_Version = ''1'', ar_GenerationID = g\<rparr>),
     se_caps := Reply (sample_caps\<lparr>cr_GenerationID := g\<rparr>)\<rparr>"

lemma sample_env_starts:
  assumes "idle m" and "mg_id m = ''echo''" and "cf_DialTimeout (mg_cfg m) = 3 * second" and "mg_gen m + 1 = g"
  shows "\<exists>m'. startLocked (sample_env g pid) m = (None, m')"
proof (rule startLocked_succeeds [where pid = pid and caps = "sample_caps\<lparr>cr_GenerationID := g\<rparr>"
      and r = "\<lparr>ar_PluginID = ''echo'', ar_Version = ''1'', ar_GenerationID = g\<rparr>"])
  show "NewToken (se_rand (sample_env g pid)) = Inr sample_token"
    by (simp add: sample_env_def sample_start_def NewToken_def ReadFull_def sample_token_def)
  show "dial_loop (se_dial (sample_env g pid)) (cf_DialTimeout (mg_cfg m)) 0 0 = Some 0"
    by (subst dial_loop.simps) (simp add: sample_env_def sample_start_def assms(3))
  show "ReadPeerCred (se_cred (sample_env g pid)) = Inr \<lparr>pc_PID = pid, pc_UID = 0, pc_GID = 0\<rparr>"
    by (simp add: sample_env_def ReadPeerCred_def)
qed (use assms in \<open>simp_all add: sample_env_def sample_start_def sample_caps_def sample_config_def\<close>)

theorem Restart_replaces_witness:
  "\<exists>m m'. mg_gen m = 1 \<and> Restart sample_stop (sample_env 2 8) m = (None, m') \<and> mg_gen m' = 2 \<and> w_procs m' = {8}"
proof -
  obtain m where m: "mgr_ok m" "\<not> mg_closed m" "mg_gen m = 1" "w_procs m = {7}" "mg_cfg m = sample_config"
    "mg_cmd m = Some \<lparr>cmd_Path = ''/p'', cmd_Env = plugin_env (\<lambda>_. []) 1 sample_idle, cmd_Pid = 7\<rparr>"
    by (rule sample_running) (rule that)
  have "\<not> stop_fails sample_stop m" by (simp add: stop_fails_def sample_stop_def real_failure_def)
  then obtain m' where r: "Restart sample_stop (sample_env 2 8) m = (None, m')"
    using Restart_succeeds [OF m(1,2), of sample_stop "sample_env 2 8"] sample_env_starts [of _ 2 8] m by (auto simp: sample_config_def)
  have "mg_gen m' = 2 \<and> w_procs m' = {8}"
    using Restart_replaces [OF m(1) r] m by (auto simp: sample_env_def)
  with m(3) r show ?thesis by blast
qed

section \<open>Generation numbers\<close>

fun exec_all :: "mgr_op list \<Rightarrow> manager \<Rightarrow> nat \<times> manager" where
  "exec_all [] m = (0, m)"
| "exec_all (x # xs) m =
     (let (started, m1) = exec x m; (n, m2) = exec_all xs m1 in ((if started then Suc n else n), m2))"

lemma stopCurrent_gen:
  assumes "stopCurrent env b reason m = (r, m')"
  shows "mg_gen m' = mg_gen m"
proof (cases "mg_closed m")
  case True
  then show ?thesis using assms stopCurrent_closed by simp
next
  case False
  from core_selD(2) [OF conjunct2 [OF stopCurrent_core [OF False assms]]] show ?thesis by (simp add: detached_def)
qed

lemma startLocked_gen:
  assumes "startLocked env m = (r, m')" and "mgr_ok m"
  shows "mg_gen m' = (if r = None then mg_gen m + 1 else mg_gen m)"
proof (cases r)
  case None
  then show ?thesis using startLocked_open [of env m m'] assms(1) by simp
next
  case (Some e)
  have "core m' = core m \<or> (\<exists>ps n. core m' = abandoned ps n m)"
    using startLocked_fail [of env m e m'] assms mgr_ok_fresh_conns [OF assms(2)] Some by blast
  then show ?thesis
  proof (elim disjE exE)
    assume "core m' = core m"
    then show ?thesis using Some core_eqD(2) [of m' m] by simp
  next
    fix ps n assume "core m' = abandoned ps n m"
    then show ?thesis using Some core_selD(2) [of m' "abandoned ps n m"] by (simp add: abandoned_def)
  qed
qed

lemma Restart_gen:
  assumes "Restart kenv env m = (r, m')" and "mgr_ok m"
  shows "mg_gen m' = (if r = None then mg_gen m + 1 else mg_gen m)"
proof (cases "mg_closed m")
  case True
  then show ?thesis using assms by (auto simp: Restart_def)
next
  case open_m: False
  show ?thesis
  proof (cases r)
    case None
    then show ?thesis using Restart_fields [of m kenv env m'] assms by simp
  next
    case (Some e)
    then obtain m1 r2 m2 where a: "core m1 = core m" "stopCurrent kenv False ''restart requested'' m1 = (r2, m2)"
      and b: "core m' = core m2 \<or> (\<exists>m3. startLocked env m2 = (Some e, m3) \<and> core m' = core m3)"
      using Restart_fail [of kenv env m e m'] assms(1) open_m by blast
    have ok: "mgr_ok m2" using a assms(2) mgr_ok_stopCurrent mgr_ok_core by metis
    have g: "mg_gen m2 = mg_gen m" using stopCurrent_gen [OF a(2)] core_eqD(2) [OF a(1)] by simp
    have "mg_gen m' = mg_gen m2"
      using b
    proof
      assume "core m' = core m2"
      then show ?thesis using core_eqD(2) by metis
    next
      assume "\<exists>m3. startLocked env m2 = (Some e, m3) \<and> core m' = core m3"
      then obtain m3 where "startLocked env m2 = (Some e, m3)" "core m' = core m3" by blast
      then show ?thesis using startLocked_gen [OF _ ok] core_eqD(2) [of m' m3] by fastforce
    qed
    with g Some show ?thesis by simp
  qed
qed

lemma Close_gen:
  assumes "Close kenv le m = (r, m')" and "mgr_ok m"
  shows "mg_gen m' = mg_gen m"
proof (cases "mg_closed m")
  case True
  then have "mg_closeDone m" using assms(2) by (simp add: mgr_ok_def)
  then show ?thesis using assms(1) by (simp add: Close_def)
next
  case False
  then have "\<not> mg_closeDone m" using assms(2) by (simp add: mgr_ok_def)
  from core_selD(2) [OF conjunct1 [OF Close_core [OF False this assms(1)]]] show ?thesis by (simp add: detached_def)
qed

lemma poisoned_gen: "mg_gen (poisoned c m) = mg_gen m"
  by (simp add: poisoned_def poison_detach_def)

lemma plugin_call_gen: "mg_gen (snd (plugin_call id meth out m)) = mg_gen m"
proof (cases "mg_closed m \<or> mg_client m = None")
  case True
  then show ?thesis using plugin_call_refused [of m id meth out] by auto
next
  case False
  then obtain c where "\<not> mg_closed m" "mg_client m = Some c" by auto
  from core_selD(2) [OF plugin_call_core [OF this, of meth out]] show ?thesis
    using poisoned_gen [of c "core m"] by (simp split: if_splits)
qed

lemma Heartbeat_gen: "mg_gen (snd (Heartbeat (quiet_heartbeat out) m)) = mg_gen m"
proof (cases "mg_closed m \<or> mg_client m = None")
  case True
  then show ?thesis using Heartbeat_refused [of m "quiet_heartbeat out"] by auto
next
  case False
  then obtain c where "\<not> mg_closed m" "mg_client m = Some c" by auto
  from core_selD(2) [OF Heartbeat_core [OF this, of out]] show ?thesis
    using poisoned_gen [of c "core m"] by (cases out) (simp_all split: if_splits)
qed

lemma exec_gen:
  assumes "mgr_ok m" and "exec x m = (s, m')"
  shows "mg_gen m' = (if s then mg_gen m + 1 else mg_gen m)"
proof (cases x)
  case (OpStart env)
  then show ?thesis using assms startLocked_gen [of env m _ m'] by (auto simp: Start_def split: prod.splits)
next
  case (OpKill kenv)
  then show ?thesis using assms stopCurrent_gen [of kenv False _ m _ m'] by (auto simp: Kill_def split: prod.splits)
next
  case (OpClose kenv le)
  then show ?thesis using assms Close_gen [of kenv le m _ m'] by (auto split: prod.splits)
next
  case (OpRestart kenv env)
  then show ?thesis using assms Restart_gen [of kenv env m _ m'] by (auto split: prod.splits)
next
  case (OpHeartbeat out)
  then show ?thesis using assms Heartbeat_gen [of out m] by (auto split: prod.splits)
next
  case (OpEcho plug msg)
  then show ?thesis using assms plugin_call_gen [of MethodEcho "plug msg" m] by (auto simp: Echo_def split: prod.splits)
next
  case (OpSleep plug d)
  then show ?thesis using assms plugin_call_gen [of MethodSleep "plug d" m] by (auto simp: Sleep_def split: prod.splits)
next
  case (OpCrash plug code)
  then show ?thesis using assms plugin_call_gen [of MethodCrash "plug code" m] by (auto simp: Crash_def split: prod.splits)
qed

text \<open>
  C12: the generation counts the successful starts. Along any sequence of operations with any outcomes
  the generation is the initial one plus the number of starts and restarts that succeeded (modulo
  \<open>2^64\<close>): a failed start gives its number back, and no two successful starts less than \<open>2^64\<close> apart
  share a generation.
\<close>

theorem generation_counts_starts:
  assumes "mgr_ok m" and "exec_all xs m = (n, m')"
  shows "mg_gen m' = mg_gen m + of_nat n"
  using assms
proof (induction xs arbitrary: m n)
  case (Cons x xs)
  obtain s m1 where e: "exec x m = (s, m1)" by (cases "exec x m")
  obtain k m2 where r: "exec_all xs m1 = (k, m2)" by (cases "exec_all xs m1")
  have "mgr_ok m1" using mgr_ok_exec [OF Cons.prems(1) e] .
  then have "mg_gen m2 = mg_gen m1 + of_nat k" using Cons.IH r Cons.prems(2) e by simp
  then show ?case using exec_gen [OF Cons.prems(1) e] Cons.prems(2) e r by (auto split: if_splits)
qed simp

theorem generation_counts_starts_witness:
  "\<exists>m'. exec_all [OpStart sample_start, OpKill sample_stop, OpStart (sample_env 2 8)] sample_idle = (2, m') \<and> mg_gen m' = 2"
proof -
  obtain m where m: "Start sample_start sample_idle = (None, m)" "\<not> mg_closed m" "mg_gen m = 1" "mg_cfg m = sample_config"
    by (rule sample_running) (rule that)
  obtain r m1 where k: "Kill sample_stop m = (r, m1)" by (cases "Kill sample_stop m")
  note S = core_selD [OF conjunct2 [OF stopCurrent_core [OF m(2) k [unfolded Kill_def]]]]
  have "idle m1" "mg_id m1 = ''echo''" "cf_DialTimeout (mg_cfg m1) = 3 * second" "mg_gen m1 + 1 = 2"
    using S m by (simp_all add: detached_def idle_def sample_config_def)
  then obtain m2 where "Start (sample_env 2 8) m1 = (None, m2)" using sample_env_starts unfolding Start_def by blast
  then have e: "exec_all [OpStart sample_start, OpKill sample_stop, OpStart (sample_env 2 8)] sample_idle = (2, m2)"
    using m(1) k by simp
  have "mg_gen sample_idle = 0" by (simp add: fresh_manager_def zero_state_def)
  then have "mg_gen m2 = 2" using generation_counts_starts [OF sample_idle_ok(1) e] by simp
  with e show ?thesis by blast
qed

section \<open>The dial loop\<close>

text \<open>The time \<open>k\<close> failed attempts take, sleeps included.\<close>

definition dial_time :: "(nat \<Rightarrow> nat \<times> bool) \<Rightarrow> nat \<Rightarrow> duration" where
  "dial_time att k = (\<Sum>j<k. int (fst (att j)) + 50 * millisecond)"

lemma dial_time_Suc: "dial_time att (Suc k) = dial_time att k + int (fst (att k)) + 50 * millisecond"
  by (simp add: dial_time_def)

lemma dial_loop_spec:
  assumes "now = dial_time att k" and "\<forall>j<k. \<not> snd (att j) \<and> dial_time att j < D"
  shows "case dial_loop att D now k of
     Some n \<Rightarrow> snd (att n) \<and> (\<forall>j<n. \<not> snd (att j)) \<and> dial_time att n < D
   | None \<Rightarrow> \<exists>n. (\<forall>j<n. \<not> snd (att j) \<and> dial_time att j < D) \<and> D \<le> dial_time att n"
  using assms
proof (induction att D now k rule: dial_loop.induct)
  case (1 att D now k)
  note eq = dial_loop.simps [of att D now k]
  consider "\<not> now < D" | "now < D" "snd (att k)" | "now < D" "\<not> snd (att k)" by blast
  then show ?case
  proof cases
    case 1
    then show ?thesis using "1.prems" eq by auto
  next
    case 2
    then show ?thesis using "1.prems" eq by auto
  next
    case 3
    have "\<forall>j<Suc k. \<not> snd (att j) \<and> dial_time att j < D"
      using "1.prems" 3 by (auto simp: less_Suc_eq)
    moreover have "now + int (fst (att k)) + 50 * millisecond = dial_time att (Suc k)"
      using "1.prems"(1) by (simp add: dial_time_Suc)
    ultimately show ?thesis using "1.IH" [OF 3] 3 eq by simp
  qed
qed

lemma dial_time_ge: "int k * (50 * millisecond) \<le> dial_time att k"
  by (induction k) (simp_all add: dial_time_def algebra_simps)

text \<open>
  C37: dialing ends. With a timeout of \<open>D\<close> the loop makes at most \<open>D / 50 ms + 1\<close> attempts: it connects
  with the first attempt that succeeds if that one starts before the deadline, and otherwise gives up
  after finitely many attempts, all of which failed and started in time.
\<close>

theorem dial_loop_bounded:
  "case dial_loop att D 0 0 of
     Some n \<Rightarrow> snd (att n) \<and> (\<forall>j<n. \<not> snd (att j)) \<and> dial_time att n < D \<and> int n * (50 * millisecond) < D
   | None \<Rightarrow> \<exists>n. (\<forall>j<n. \<not> snd (att j) \<and> int j * (50 * millisecond) < D) \<and> D \<le> dial_time att n"
proof (cases "dial_loop att D 0 0")
  case None
  then obtain n where "\<forall>j<n. \<not> snd (att j) \<and> dial_time att j < D" "D \<le> dial_time att n"
    using dial_loop_spec [of 0 att 0 D] by (auto simp: dial_time_def)
  then show ?thesis using None dial_time_ge order_le_less_trans by simp blast
next
  case (Some n)
  then show ?thesis
    using dial_loop_spec [of 0 att 0 D] dial_time_ge [of n att] by (simp add: dial_time_def)
qed

theorem dial_loop_bounded_witness:
  "\<not> snd ((\<lambda>j. (200 * 10 ^ 6 :: nat, 3 \<le> j)) (2::nat))
   \<and> (\<exists>n. dial_loop (\<lambda>j. (200 * 10 ^ 6, 3 \<le> j)) (3 * second) 0 0 = Some n \<and> 3 \<le> n \<and> int n * (50 * millisecond) < 3 * second)"
proof -
  let ?att = "\<lambda>j::nat. (200 * 10 ^ 6 :: nat, 3 \<le> j)"
  have "dial_loop ?att (3 * second) 0 0 \<noteq> None"
  proof
    assume "dial_loop ?att (3 * second) 0 0 = None"
    then obtain n where "\<forall>j<n. \<not> 3 \<le> j" and "3 * second \<le> dial_time ?att n"
      using dial_loop_bounded [of ?att "3 * second"] by auto
    moreover from this(1) have "n \<le> 3" by (meson not_less order_refl)
    ultimately show False by (simp add: dial_time_def)
  qed
  then show ?thesis using dial_loop_bounded [of ?att "3 * second"] by auto
qed

section \<open>Monitoring\<close>

definition quiet_tick :: "heartbeat_response rpc_outcome \<Rightarrow> stop_env \<Rightarrow> start_env \<Rightarrow> tick_env" where
  "quiet_tick out kenv senv = \<lparr>mt_heartbeat = quiet_heartbeat out, mt_closed = id, mt_stop = kenv, mt_start = senv\<rparr>"

lemma Heartbeat_error:
  assumes "mg_closed m \<or> mg_client m = None \<or> (\<forall>r. out \<noteq> Reply r)"
  shows "\<exists>h e m'. Heartbeat (quiet_heartbeat out) m = ((h, Some e), m')"
proof (cases "mg_closed m \<or> mg_client m = None")
  case True
  then show ?thesis using Heartbeat_refused by blast
next
  case False
  then obtain c where c: "\<not> mg_closed m" "mg_client m = Some c" by auto
  have "\<exists>e m1. call id (Some c) (mg_gen m) (mg_rpcEpoch m) MethodHeartbeat out m = (Inl e, m1)"
    using assms False by (cases out) (auto simp: call_def Let_def)
  then show ?thesis using c by (auto simp: Heartbeat_def quiet_heartbeat_def Let_def)
qed

lemma Heartbeat_keeps:
  assumes "mgr_ok m" and "\<not> mg_closed m" and "Heartbeat (quiet_heartbeat out) m = (r, m')"
  shows "mg_cfg m' = mg_cfg m \<and> mg_closed m' = mg_closed m \<and> mg_closedCh m' = mg_closedCh m \<and> mg_cmd m' = mg_cmd m"
proof (cases "mg_client m")
  case None
  then show ?thesis using Heartbeat_refused [of m "quiet_heartbeat out"] assms(3) by auto
next
  case (Some c)
  have "core m' = (case out of Reply r \<Rightarrow> (core m)\<lparr>mg_state := (mg_state m)\<lparr>st_Healthy := (hr_Status r = StatusHealthy)\<rparr>\<rparr>
     | _ \<Rightarrow> if poisons out then poisoned c (core m) else core m)"
    using Heartbeat_core [OF assms(2) Some, of out] assms(3) by simp
  from core_selD [OF this] show ?thesis
    by (cases out) (auto simp: poisoned_def poison_detach_def)
qed

lemma Heartbeat_next:
  assumes "mgr_ok m" and "Heartbeat (quiet_heartbeat out) m = (r, m')"
  shows "w_next m' = w_next m"
proof (cases "mg_closed m \<or> mg_client m = None")
  case True
  then show ?thesis using Heartbeat_refused [of m "quiet_heartbeat out"] assms(2) by auto
next
  case False
  then obtain c where "\<not> mg_closed m" "mg_client m = Some c" by auto
  from core_selD(12) [OF Heartbeat_core [OF this, of out]] show ?thesis
    using assms(2) by (cases out) (auto simp: poisoned_def poison_detach_def)
qed



end
