(* ===== verification/Manager_Calls.thy ===== *)
theory Manager_Calls
  imports Manager_Lifecycle
begin

text \<open>
  RPC calls of the plugin manager under interference of other goroutines: which replies are accepted,
  when a heartbeat may change the published health, what a poisoned client means, and to which
  generation declared bundle metadata is bound.
\<close>

section \<open>Which replies are accepted\<close>

text \<open>The state in which the outcome of a call is looked at.\<close>

definition call_begun :: "uint64 \<Rightarrow> string \<Rightarrow> manager \<Rightarrow> manager" where
  "call_begun g meth m = logEvent ((kev m LevelDebug ComponentRPC EventRPCStarted g (st_PID (StateOf m))
     (st_SocketPath (StateOf m)) ''rpc call started'')\<lparr>ev_Method := meth\<rparr>) m"

lemma call_begun_core [simp]: "core (call_begun g meth m) = core m"
  by (simp add: call_begun_def)

lemma call_accepts:
  "call intf (Some c) g ep meth out m = (Inr v, m') \<Longrightarrow>
     out = Reply v \<and> \<not> stale_response c g ep (intf (call_begun g meth m)) \<and> core m' = core (intf (call_begun g meth m))"
  by (auto simp: call_def Let_def call_begun_def split: rpc_outcome.splits if_splits)

lemma call_reply:
  "\<not> stale_response c g ep (intf (call_begun g meth m))
   \<Longrightarrow> \<exists>m'. call intf (Some c) g ep meth (Reply v) m = (Inr v, m') \<and> core m' = core (intf (call_begun g meth m))"
  by (simp add: call_def Let_def call_begun_def)

lemma call_rejects:
  "call intf (Some c) g ep meth out m = (Inl e, m') \<Longrightarrow>
     core m' = (if poisons out then poisoned c (core (intf (call_begun g meth m))) else core (intf (call_begun g meth m)))"
  using call_core [of intf c g ep meth out m] by (simp add: call_begun_def Let_def)

text \<open>
  C8: whatever other goroutines do while a call waits (stop, restart, close, poison), a reply is only
  accepted for the plugin it was asked from: at that moment the manager is open, and client, epoch and
  generation are those of the call. This holds for every call that started in an epoch other than 0.
\<close>

theorem accepted_reply_is_current:
  assumes "plugin_call intf meth out m = (Inr v, m')" and "mg_rpcEpoch m \<noteq> 0"
  shows "out = Reply v \<and> \<not> mg_closed m' \<and> mg_client m' \<noteq> None \<and> mg_client m' = mg_client m
    \<and> mg_rpcEpoch m' = mg_rpcEpoch m \<and> mg_gen m' = mg_gen m"
proof -
  obtain c where c: "mg_client m = Some c" and call: "call intf (Some c) (mg_gen m) (mg_rpcEpoch m) meth out m = (Inr v, m')"
    using assms(1) by (auto simp: plugin_call_def split: if_splits option.splits)
  show ?thesis
    using call_accepts [OF call] core_eqD [of m' "intf (call_begun (mg_gen m) meth m)"] c assms(2)
    by (auto simp: stale_response_def)
qed

text \<open>
  C40: in the first epoch the guard is off. Epoch 0 doubles as "do not check" in \<open>call\<close>, and it is also
  the epoch of a manager that has never been stopped: a call in flight while such a manager is killed
  has its reply accepted, although client and process are gone when it is.
\<close>

theorem first_epoch_accepts_stale_reply:
  assumes "\<not> mg_closed m" and "mg_client m = Some c" and "mg_rpcEpoch m = 0"
  shows "\<exists>m'. plugin_call (\<lambda>x. snd (Kill env x)) meth (Reply v) m = (Inr v, m')
    \<and> mg_client m' = None \<and> mg_cmd m' = None \<and> \<not> mg_healthy m' \<and> mg_rpcEpoch m' = 1"
proof -
  let ?b = "call_begun (mg_gen m) meth m"
  obtain r m2 where k: "Kill env ?b = (r, m2)" by (cases "Kill env ?b")
  note b = core_eqD [OF call_begun_core, of "mg_gen m" meth m]
  have "\<not> mg_closed ?b" using assms(1) b by simp
  note S = core_selD [OF conjunct2 [OF stopCurrent_core [OF this k [unfolded Kill_def]]]]
  have m2: "mg_gen m2 = mg_gen m" "mg_client m2 = None" "mg_cmd m2 = None" "\<not> mg_healthy m2" "mg_rpcEpoch m2 = 1"
    using S b assms(3) by (simp_all add: detached_def)
  have "\<not> stale_response c (mg_gen m) 0 (snd (Kill env ?b))" using k m2(1) by (simp add: stale_response_def)
  from call_reply [of c "mg_gen m" 0 "\<lambda>x. snd (Kill env x)" meth m v, OF this] obtain m' where
    m': "call (\<lambda>x. snd (Kill env x)) (Some c) (mg_gen m) 0 meth (Reply v) m = (Inr v, m')" "core m' = core m2"
    using k by auto
  then show ?thesis using m2 core_eqD [OF m'(2)] assms by (auto simp: plugin_call_def)
qed

theorem first_epoch_accepts_stale_reply_witness:
  "\<exists>m m'. Echo (\<lambda>x. snd (Kill sample_stop x)) (\<lambda>s. Reply s) ''hi'' m = (Inr ''hi'', m') \<and> mg_cmd m' = None"
proof -
  obtain m :: manager where m: "\<not> mg_closed m" "mg_client m = Some 0" "mg_rpcEpoch m = 0"
    by (rule sample_running) (rule that)
  obtain m' where "plugin_call (\<lambda>x. snd (Kill sample_stop x)) MethodEcho (Reply ''hi'') m = (Inr ''hi'', m')" "mg_cmd m' = None"
    using first_epoch_accepts_stale_reply [OF m, of sample_stop MethodEcho "''hi''"] by (elim exE conjE) (rule that)
  then show ?thesis unfolding Echo_def by (intro exI [of _ m] exI [of _ m']) simp
qed

lemma killed_running:
  obtains m where "\<not> mg_closed m" "mg_client m = Some 1" "mg_rpcEpoch m = 1" "mg_gen m = 2" "mgr_ok m"
proof -
  obtain m where m: "mgr_ok m" "\<not> mg_closed m" "mg_gen m = 1" "mg_cfg m = sample_config" "mg_client m = Some 0"
    "mg_rpcEpoch m = 0" "Start sample_start sample_idle = (None, m)" by (rule sample_running) (rule that)
  have n: "w_next m = 1"
    using startLocked_open [OF m(7) [unfolded Start_def]] by (simp add: fresh_manager_def sample_world_def)
  have "\<not> stop_fails sample_stop m" by (simp add: stop_fails_def sample_stop_def real_failure_def)
  then obtain m' where r: "Restart sample_stop (sample_env 2 8) m = (None, m')"
    using Restart_succeeds [OF m(1,2), of sample_stop "sample_env 2 8"] sample_env_starts [of _ 2 8] m by (auto simp: sample_config_def)
  show ?thesis
  proof (rule that [of m'])
    have "mg_healthy m'" "mgr_ok m'" using Restart_fields [OF m(1) r] mgr_ok_Restart [OF m(1) r] by simp_all
    then show "\<not> mg_closed m'" using mgr_ok_closed by blast
  qed (use Restart_fields [OF m(1) r] mgr_ok_Restart [OF m(1) r] m n in simp_all)
qed

theorem accepted_reply_is_current_witness:
  "\<exists>m m'. Echo id (\<lambda>s. Reply s) ''hi'' m = (Inr ''hi'', m') \<and> mg_rpcEpoch m' = 1 \<and> mg_client m' = Some 1"
proof -
  obtain m where m: "\<not> mg_closed m" "mg_client m = Some 1" "mg_rpcEpoch m = 1" "mg_gen m = 2" by (rule killed_running) (rule that)
  have "\<not> stale_response 1 2 1 (id (call_begun 2 MethodEcho m))"
    using m core_eqD [OF call_begun_core, of 2 MethodEcho m] by (simp add: stale_response_def)
  from call_reply [of 1 2 1 id MethodEcho m "''hi''", OF this] obtain m' where
    e: "plugin_call id MethodEcho (Reply ''hi'') m = (Inr ''hi'', m')" using m by (auto simp: plugin_call_def)
  then show ?thesis using accepted_reply_is_current [OF e] m unfolding Echo_def by auto
qed

section \<open>Heartbeats\<close>

text \<open>
  C13: health follows current heartbeats only. Under any interference, a heartbeat that returns without
  error was answered by the still current plugin and publishes exactly whether that answer says healthy.
  One that returns an error leaves health as the other goroutines made it: a refused one changes nothing
  at all; a reply that is stale, on arrival or when it is to be published, writes nothing; and a failed
  call clears health exactly if it is a timeout or a transport failure and its client is still the
  attached one.
\<close>

theorem Heartbeat_commits_only_current:
  assumes "Heartbeat env m = ((out, r), m')"
  shows "(r = None \<longrightarrow> he_outcome env = Reply out \<and> \<not> mg_closed m' \<and> mg_client m' \<noteq> None \<and> mg_client m' = mg_client m
      \<and> mg_rpcEpoch m' = mg_rpcEpoch m \<and> mg_gen m' = mg_gen m \<and> (mg_healthy m' \<longleftrightarrow> hr_Status out = StatusHealthy))
    \<and> (r \<noteq> None \<longrightarrow> (if mg_closed m \<or> mg_client m = None then m' = m
        else let w = he_wait env (call_begun (mg_gen m) MethodHeartbeat m) in
          case he_outcome env of
            Reply v \<Rightarrow>
              if stale_response (the (mg_client m)) (mg_gen m) (mg_rpcEpoch m) w then mg_state m' = mg_state w
              else \<exists>x. core x = core w \<and> m' = he_commit env x
          | _ \<Rightarrow> (mg_healthy m' \<longleftrightarrow> mg_healthy w \<and> \<not> (poisons (he_outcome env) \<and> mg_client w = mg_client m))))"
proof (cases "mg_closed m \<or> mg_client m = None")
  case True
  then show ?thesis using Heartbeat_refused [OF True, of env] assms by auto
next
  case False
  then obtain c where c: "\<not> mg_closed m" "mg_client m = Some c" by auto
  let ?g = "mg_gen m" and ?ep = "mg_rpcEpoch m"
  obtain cr m1 where call: "call (he_wait env) (Some c) ?g ?ep MethodHeartbeat (he_outcome env) m = (cr, m1)"
    by (cases "call (he_wait env) (Some c) ?g ?ep MethodHeartbeat (he_outcome env) m")
  let ?w = "he_wait env (call_begun ?g MethodHeartbeat m)"
  show ?thesis
  proof (cases cr)
    case (Inl e)
    have m': "mg_state m' = mg_state m1" "r = Some e"
      using assms c call Inl by (auto simp: Heartbeat_def Let_def)
    note R = core_selD(2) [OF call_rejects [OF call [unfolded Inl]]]
    have stale: "stale_response c ?g ?ep ?w" if "he_outcome env = Reply v" for v
      using call_reply [of c ?g ?ep "he_wait env" MethodHeartbeat m v] call Inl that by auto
    show ?thesis
      using m' R stale c by (cases "he_outcome env") (auto simp: poisoned_def poison_detach_def split: if_splits)
  next
    case (Inr v)
    note A = call_accepts [OF call [unfolded Inr]]
    let ?m2 = "he_commit env m1"
    show ?thesis
    proof (cases "stale_heartbeat c ?g ?ep ?m2")
      case True
      then have "m' = ?m2 \<and> r \<noteq> None" using assms c call Inr by (auto simp: Heartbeat_def Let_def)
      then show ?thesis using A c by auto
    next
      case False
      then have "out = v \<and> r = None \<and> core m' = (core ?m2)\<lparr>mg_state := (mg_state ?m2)\<lparr>st_Healthy := (hr_Status v = StatusHealthy)\<rparr>\<rparr>"
        using assms c call Inr by (auto simp: Heartbeat_def Let_def split: if_splits)
      then show ?thesis
        using core_selD [of m', OF conjunct2 [OF conjunct2]] False c A by (auto simp: stale_heartbeat_def)
    qed
  qed
qed

theorem Heartbeat_commits_only_current_witness:
  "\<exists>m m'. Heartbeat (quiet_heartbeat (Reply (zero_heartbeat\<lparr>hr_Status := StatusDegraded\<rparr>))) m
       = ((zero_heartbeat\<lparr>hr_Status := StatusDegraded\<rparr>, None), m') \<and> mg_healthy m \<and> \<not> mg_healthy m'"
proof -
  let ?out = "zero_heartbeat\<lparr>hr_Status := StatusDegraded\<rparr>"
  obtain m where s: "Start sample_start sample_idle = (None, m)" and m: "\<not> mg_closed m" "mg_client m = Some 0" by (rule sample_running) (rule that)
  have h: "mg_healthy m" using Start_fields [OF s] by auto
  obtain m1 where m1: "call id (Some 0) (mg_gen m) (mg_rpcEpoch m) MethodHeartbeat (Reply ?out) m = (Inr ?out, m1)" "core m1 = core m"
    using call_reply [of 0 "mg_gen m" "mg_rpcEpoch m" id MethodHeartbeat m ?out] m
      core_eqD [OF call_begun_core, of "mg_gen m" MethodHeartbeat m] by (auto simp: stale_response_def)
  obtain m' where hb: "Heartbeat (quiet_heartbeat (Reply ?out)) m = ((?out, None), m')"
    using m m1(1) core_eqD [OF m1(2)] by (auto simp: Heartbeat_def quiet_heartbeat_def Let_def stale_heartbeat_def)
  have "\<not> mg_healthy m'" using Heartbeat_commits_only_current [OF hb] by simp
  with hb h show ?thesis by blast
qed

text \<open>
  Health does not take a heartbeat: a started plugin whose every heartbeat fails with an error of its own was
  published healthy by \<open>Start\<close> and stays so.
\<close>

theorem healthy_before_heartbeat:
  "\<exists>m. Start sample_start sample_idle = (None, m) \<and> mg_healthy m
     \<and> (\<forall>e. \<exists>r m'. Heartbeat (quiet_heartbeat (CallErr (ServerError e))) m = ((r, Some (ServerError e)), m') \<and> mg_healthy m')"
proof -
  obtain m where s: "Start sample_start sample_idle = (None, m)" and m: "\<not> mg_closed m" "mg_client m = Some 0"
    by (rule sample_running) (rule that)
  have h: "mg_healthy m" using Start_fields [OF s] by auto
  have "\<exists>r m'. Heartbeat (quiet_heartbeat (CallErr (ServerError e))) m = ((r, Some (ServerError e)), m') \<and> mg_healthy m'" for e
  proof -
    let ?out = "CallErr (ServerError e) :: heartbeat_response rpc_outcome"
    have np: "\<not> poisons ?out" by (simp add: isRPCPoisonError_def)
    obtain x m' where hb: "Heartbeat (quiet_heartbeat ?out) m = (x, m')" by (cases "Heartbeat (quiet_heartbeat ?out) m")
    have "core m' = core m" using Heartbeat_core [OF m, of ?out] hb np by simp
    moreover have "snd x = Some (ServerError e)"
      using hb m np by (auto simp: Heartbeat_def quiet_heartbeat_def call_def Let_def)
    ultimately show ?thesis using hb h core_eqD(2) [of m' m] by (cases x) auto
  qed
  then show ?thesis using s h by blast
qed

section \<open>Poisoned clients\<close>

text \<open>
  C14: a call that times out or fails in transport poisons its client: the call fails, the client is
  detached and its connection closed, the plugin is published unhealthy and further calls are refused,
  but the process stays attached, so that \<open>Start\<close> refuses and only stopping or restarting helps. An
  error the plugin itself returned changes nothing.
\<close>

theorem poisoning_detaches_client:
  assumes "mgr_ok m" and "\<not> mg_closed m" and "mg_client m = Some c" and "plugin_call id meth out m = (r, m')"
  shows "(out = CallTimeout \<or> (\<exists>e. out = CallErr e \<and> isRPCPoisonError (Some e)) \<longrightarrow>
      (\<exists>e. r = Inl e) \<and> mg_client m' = None \<and> w_conns m' = {} \<and> \<not> mg_healthy m' \<and> mg_cmd m' = mg_cmd m
      \<and> mg_cmd m' \<noteq> None \<and> w_procs m' = w_procs m \<and> mg_gen m' = mg_gen m \<and> mg_rpcEpoch m' = mg_rpcEpoch m
      \<and> plugin_call id meth' out' m' = (Inl (err ''plugin not started''), m')
      \<and> Start senv m' = (Some (err ''plugin already started''), m'))
    \<and> (\<forall>s. out = CallErr (ServerError s) \<longrightarrow> r = Inl (ServerError s) \<and> core m' = core m)"
proof (intro conjI impI allI)
  assume p: "out = CallTimeout \<or> (\<exists>e. out = CallErr e \<and> isRPCPoisonError (Some e))"
  then have ps: "poisons out" by auto
  have co: "core m' = poisoned c (core m)" using plugin_call_core [OF assms(2,3), of meth out] assms(4) ps by simp
  note s = core_selD [OF co]
  show "\<exists>e. r = Inl e" using p assms(2-4) by (auto simp: plugin_call_def call_def Let_def)
  have m': "mg_client m' = None" "mg_cmd m' = mg_cmd m" "mg_cmd m' \<noteq> None" "\<not> mg_closed m'"
    using s assms(1-3) by (auto simp: poisoned_def poison_detach_def mgr_ok_def)
  then show "mg_client m' = None" "mg_cmd m' = mg_cmd m" "mg_cmd m' \<noteq> None" by simp_all
  show "w_conns m' = {}" "\<not> mg_healthy m'" "w_procs m' = w_procs m" "mg_gen m' = mg_gen m" "mg_rpcEpoch m' = mg_rpcEpoch m"
    using s assms(1,3) by (auto simp: poisoned_def poison_detach_def mgr_ok_def)
  show "plugin_call id meth' out' m' = (Inl (err ''plugin not started''), m')"
    using m' by (simp add: plugin_call_def)
  show "Start senv m' = (Some (err ''plugin already started''), m')"
    using m' by (simp add: Start_def startLocked_def start_reserve_def)
next
  fix s assume o: "out = CallErr (ServerError s)"
  then show "r = Inl (ServerError s)" using assms(2-4) by (auto simp: plugin_call_def call_def Let_def)
  show "core m' = core m"
    using plugin_call_core [OF assms(2,3), of meth out] assms(4) o by (simp add: isRPCPoisonError_def)
qed

theorem poisoning_detaches_client_witness:
  "\<exists>m m' r. mg_client m = Some 0 \<and> Sleep id (\<lambda>_. CallTimeout) 5 m = (r, m') \<and> mg_client m' = None \<and> mg_cmd m' \<noteq> None"
proof -
  obtain m where m: "mgr_ok m" "\<not> mg_closed m" "mg_client m = Some 0" by (rule sample_running) (rule that)
  obtain r m' where s: "plugin_call id MethodSleep (CallTimeout :: unit rpc_outcome) m = (r, m')"
    by (cases "plugin_call id MethodSleep (CallTimeout :: unit rpc_outcome) m")
  then have "mg_client m' = None \<and> mg_cmd m' \<noteq> None" using poisoning_detaches_client [OF m s, of MethodEcho "CallTimeout :: unit rpc_outcome" sample_start] by blast
  then show ?thesis using m(3) s unfolding Sleep_def by blast
qed

section \<open>Declared metadata\<close>

text \<open>
  Declared bundle metadata is never shown for another plugin or generation: whatever \<open>State\<close> and
  \<open>CoreState\<close> show carries the plugin id and generation of the published state, and both show it for
  the same configured metadata; for the generation of a refresh entry that matches, that entry wins.
\<close>

theorem declared_metadata_is_generation_bound:
  "(case st_Declared (StateOf m) of None \<Rightarrow> cs_Declared (CoreStateOf m) = None
    | Some d \<Rightarrow> \<exists>md. d = AdminDTO md (\<not> cf_DisableRedaction (mg_cfg m)) \<and> cs_Declared (CoreStateOf m) = Some (CoreDTO md)
        \<and> bm_PluginID md = st_PluginID (mg_state m) \<and> bm_PluginGeneration md = mg_gen m
        \<and> (cf_Metadata (mg_cfg m) = Some md \<or> (\<exists>by. cf_Refresh (mg_cfg m) = Some by \<and> by (mg_gen m) = Some md))
        \<and> (\<forall>by rd. cf_Refresh (mg_cfg m) = Some by \<and> by (mg_gen m) = Some rd
              \<and> bm_PluginID rd = st_PluginID (mg_state m) \<and> bm_PluginGeneration rd = mg_gen m \<longrightarrow> md = rd))"
proof -
  have clone: "CloneMetadata md = md" for md by (simp add: CloneMetadata_def cloneAssets_def)
  show ?thesis
    by (auto simp: StateOf_def CoreStateOf_def providerBundleAdminDTO_def providerBundleCoreDTO_def
        generationBoundProviderBundleMetadata_def Let_def clone split: option.splits if_splits)
qed

theorem declared_metadata_witness:
  "let m = sample_idle\<lparr>mg_cfg := sample_config\<lparr>cf_Metadata := Some sample_metadata\<rparr>,
             mg_state := zero_state\<lparr>st_PluginID := ''echo'', st_GenerationID := 2\<rparr>\<rparr>
   in st_Declared (StateOf m) = None"
proof -
  let ?m = "sample_idle\<lparr>mg_cfg := sample_config\<lparr>cf_Metadata := Some sample_metadata\<rparr>,
             mg_state := zero_state\<lparr>st_PluginID := ''echo'', st_GenerationID := 2\<rparr>\<rparr>"
  have "st_Declared (StateOf ?m) \<noteq> Some d" for d
    using declared_metadata_is_generation_bound [of ?m]
    by (auto simp: sample_config_def sample_metadata_def split: option.splits)
  then show ?thesis unfolding Let_def by (metis not_None_eq)
qed

end
