(* ===== verification/Manager_Interleaving.thy ===== *)
theory Manager_Interleaving
  imports Manager_Calls
begin

text \<open>
  The manager shared by many goroutines. A step is one critical section of \<open>m.mu\<close> (the same functions
  the sequential operations are built from) together with the effect on processes and connections that
  follows it; \<open>lifecycleMu\<close> is a lock some goroutine may hold across several steps. The invariant shows
  that a start or stop in progress is not disturbed by anybody else, which is why the sequential
  operations may treat the manager as private after their first critical section, and that a snapshot
  taken by a call identifies generation and epoch by its client alone.
\<close>

section \<open>Goroutines and steps\<close>

datatype pc =
    Idle
  | CallWait client uint64 uint64          \<comment> \<open>a call in flight: client, generation and epoch of its snapshot\<close>
  | HbCommit client uint64 uint64 bool     \<comment> \<open>\<open>Heartbeat\<close> after \<open>call\<close>, before it takes the lock again\<close>
  | StartRun uint64                        \<comment> \<open>\<open>startLocked\<close> after reserving a generation\<close>
  | StartReady uint64 cmd client capabilities_response
  | StopRun "cmd option" "client option"   \<comment> \<open>\<open>stopCurrent\<close> after detaching\<close>

record system =
  sy_m :: manager
  sy_lock :: "nat option"
  sy_pc :: "nat \<Rightarrow> pc"

definition sy_init :: "config \<Rightarrow> world \<Rightarrow> system" where
  "sy_init cfg w = \<lparr>sy_m = fresh_manager cfg w, sy_lock = None, sy_pc = (\<lambda>_. Idle)\<rparr>"

inductive sy_step :: "nat \<Rightarrow> system \<Rightarrow> system \<Rightarrow> bool" for t where
  call_snapshot: "sy_pc s t = Idle \<Longrightarrow> \<not> mg_closed (sy_m s) \<Longrightarrow> mg_client (sy_m s) = Some c
    \<Longrightarrow> sy_step t s (s\<lparr>sy_pc := (sy_pc s)(t := CallWait c (mg_gen (sy_m s)) (mg_rpcEpoch (sy_m s)))\<rparr>)"
| call_fails: "sy_pc s t = CallWait c g e \<Longrightarrow> sy_step t s (s\<lparr>sy_pc := (sy_pc s)(t := Idle)\<rparr>)"
| call_poisons: "sy_pc s t = CallWait c g e
    \<Longrightarrow> sy_step t s (s\<lparr>sy_m := close_client (Some c) (poison_detach c (sy_m s)), sy_pc := (sy_pc s)(t := Idle)\<rparr>)"
| call_returns: "sy_pc s t = CallWait c g e \<Longrightarrow> \<not> stale_response c g e (sy_m s)
    \<Longrightarrow> sy_step t s (s\<lparr>sy_pc := (sy_pc s)(t := HbCommit c g e h)\<rparr>)"
| heartbeat_stale: "sy_pc s t = HbCommit c g e h \<Longrightarrow> stale_heartbeat c g e (sy_m s)
    \<Longrightarrow> sy_step t s (s\<lparr>sy_pc := (sy_pc s)(t := Idle)\<rparr>)"
| heartbeat_commit: "sy_pc s t = HbCommit c g e h \<Longrightarrow> \<not> stale_heartbeat c g e (sy_m s)
    \<Longrightarrow> sy_step t s (s\<lparr>sy_m := (sy_m s)\<lparr>mg_state := (mg_state (sy_m s))\<lparr>st_Healthy := h\<rparr>\<rparr>,
                       sy_pc := (sy_pc s)(t := Idle)\<rparr>)"
| start_begin: "sy_pc s t = Idle \<Longrightarrow> sy_lock s = None \<Longrightarrow> start_reserve (sy_m s) = (Inr g, m')
    \<Longrightarrow> sy_step t s (s\<lparr>sy_m := m', sy_lock := Some t, sy_pc := (sy_pc s)(t := StartRun g)\<rparr>)"
| start_fails: "sy_pc s t = StartRun g
    \<Longrightarrow> sy_step t s (s\<lparr>sy_m := rollbackGeneration g (sy_m s), sy_lock := None, sy_pc := (sy_pc s)(t := Idle)\<rparr>)"
| start_connects: "sy_pc s t = StartRun g \<Longrightarrow> new_client ((sy_m s)\<lparr>w_procs := insert (cmd_Pid c) (w_procs (sy_m s))\<rparr>) = (k, m')
    \<Longrightarrow> cr_GenerationID caps = g
    \<Longrightarrow> sy_step t s (s\<lparr>sy_m := m', sy_pc := (sy_pc s)(t := StartReady g c k caps)\<rparr>)"
| start_aborts: "sy_pc s t = StartReady g c k caps
    \<Longrightarrow> sy_step t s (s\<lparr>sy_m := rollbackGeneration g (reap (Some c) (close_client (Some k) (sy_m s))), sy_lock := None,
                       sy_pc := (sy_pc s)(t := Idle)\<rparr>)"
| start_commits: "sy_pc s t = StartReady g c k caps
    \<Longrightarrow> sy_step t s (s\<lparr>sy_m := start_commit c k caps (mg_socket (sy_m s)) (sy_m s), sy_lock := None,
                       sy_pc := (sy_pc s)(t := Idle)\<rparr>)"
| stop_begin: "sy_pc s t = Idle \<Longrightarrow> sy_lock s = None \<Longrightarrow> stop_detach b (sy_m s) = Inr m'
    \<Longrightarrow> sy_step t s (s\<lparr>sy_m := m', sy_lock := Some t,
                       sy_pc := (sy_pc s)(t := StopRun (mg_cmd (sy_m s)) (mg_client (sy_m s)))\<rparr>)"
| stop_ends: "sy_pc s t = StopRun c k
    \<Longrightarrow> sy_step t s (s\<lparr>sy_m := reap c (close_client k (sy_m s)), sy_lock := None, sy_pc := (sy_pc s)(t := Idle)\<rparr>)"

inductive sy_reach :: "config \<Rightarrow> world \<Rightarrow> system \<Rightarrow> bool" for cfg w where
  init: "sy_reach cfg w (sy_init cfg w)"
| step: "sy_reach cfg w s \<Longrightarrow> sy_step t s s' \<Longrightarrow> sy_reach cfg w s'"

inductive_cases sy_stepE: "sy_step t s s'"

section \<open>The invariant\<close>

text \<open>A snapshot of a call names a client that exists, and generation and epoch if it is still attached.\<close>

definition snapshot_ok :: "client \<Rightarrow> uint64 \<Rightarrow> uint64 \<Rightarrow> manager \<Rightarrow> bool" where
  "snapshot_ok c g e m \<longleftrightarrow> c < w_next m \<and> (mg_client m = Some c \<longrightarrow> g = mg_gen m \<and> e = mg_rpcEpoch m)"

definition quiescent :: "manager \<Rightarrow> bool" where
  "quiescent m \<longleftrightarrow> mg_client m = None \<and> mg_cmd m = None \<and> \<not> mg_healthy m"

text \<open>The goroutine that holds \<open>lifecycleMu\<close>, and what it may rely on.\<close>

fun holds :: "pc \<Rightarrow> bool" where
  "holds (StartRun g) = True"
| "holds (StartReady g c k caps) = True"
| "holds (StopRun c k) = True"
| "holds _ = False"

fun hold_ok :: "manager \<Rightarrow> pc \<Rightarrow> bool" where
  "hold_ok m (StartRun g) \<longleftrightarrow> quiescent m \<and> \<not> mg_closed m \<and> mg_gen m = g"
| "hold_ok m (StartReady g c k caps) \<longleftrightarrow>
     quiescent m \<and> \<not> mg_closed m \<and> mg_gen m = g \<and> cr_GenerationID caps = g \<and> k < w_next m"
| "hold_ok m (StopRun c k) \<longleftrightarrow> quiescent m"
| "hold_ok m _ \<longleftrightarrow> True"

text \<open>The snapshot a goroutine carries, and the client a start is about to attach.\<close>

fun snap :: "pc \<Rightarrow> (client \<times> uint64 \<times> uint64) option" where
  "snap (CallWait c g e) = Some (c, g, e)"
| "snap (HbCommit c g e h) = Some (c, g, e)"
| "snap _ = None"

fun pending :: "pc \<Rightarrow> client option" where
  "pending (StartReady g c k caps) = Some k"
| "pending _ = None"

definition sys_ok :: "system \<Rightarrow> bool" where
  "sys_ok s \<longleftrightarrow>
     (\<forall>t. holds (sy_pc s t) \<longleftrightarrow> sy_lock s = Some t)
     \<and> (\<forall>t. hold_ok (sy_m s) (sy_pc s t))
     \<and> (\<forall>t c g e. snap (sy_pc s t) = Some (c, g, e) \<longrightarrow> snapshot_ok c g e (sy_m s))
     \<and> (\<forall>t t' k g e. pending (sy_pc s t) = Some k \<longrightarrow> snap (sy_pc s t') \<noteq> Some (k, g, e))
     \<and> (\<forall>k. mg_client (sy_m s) = Some k \<longrightarrow> k < w_next (sy_m s))
     \<and> (mg_healthy (sy_m s) \<longrightarrow> mg_client (sy_m s) \<noteq> None)"

lemma sys_okD:
  assumes "sys_ok s"
  shows "holds (sy_pc s t) \<longleftrightarrow> sy_lock s = Some t" and "hold_ok (sy_m s) (sy_pc s t)"
    and "snap (sy_pc s t) = Some (c, g, e) \<Longrightarrow> snapshot_ok c g e (sy_m s)"
    and "pending (sy_pc s t) = Some k \<Longrightarrow> snap (sy_pc s t') \<noteq> Some (k, g, e)"
    and "mg_client (sy_m s) = Some k \<Longrightarrow> k < w_next (sy_m s)"
    and "mg_healthy (sy_m s) \<Longrightarrow> mg_client (sy_m s) \<noteq> None"
  using assms unfolding sys_ok_def by blast+

lemma pending_holds: "pending p = Some k \<Longrightarrow> holds p"
  by (cases p) auto

lemma not_holds_ok: "\<not> holds p \<Longrightarrow> hold_ok m p"
  by (cases p) auto

lemma sys_ok_init: "sys_ok (sy_init cfg w)"
  by (simp add: sys_ok_def sy_init_def fresh_manager_def zero_state_def)

text \<open>A step of a lifecycle operation: only \<open>t\<close> can hold the lock before and after it.\<close>

lemma lifecycle_step_ok:
  assumes ok: "sys_ok s" and "sy_lock s = Some t \<or> sy_lock s = None" and "l' = (if holds p' then Some t else None)"
    and "hold_ok m' p'" and "snap p' = None" and "w_next (sy_m s) \<le> w_next m'"
    and cl: "\<And>c. mg_client m' = Some c \<Longrightarrow> c < w_next m' \<and>
        ((mg_client (sy_m s) = Some c \<and> mg_gen m' = mg_gen (sy_m s) \<and> mg_rpcEpoch m' = mg_rpcEpoch (sy_m s))
         \<or> (\<forall>t' g e. snap (sy_pc s t') \<noteq> Some (c, g, e)))"
    and "mg_healthy m' \<Longrightarrow> mg_client m' \<noteq> None"
    and "\<And>k t' g e. pending p' = Some k \<Longrightarrow> snap (sy_pc s t') \<noteq> Some (k, g, e)"
  shows "sys_ok (s\<lparr>sy_m := m', sy_lock := l', sy_pc := (sy_pc s)(t := p')\<rparr>)"
proof -
  have other: "\<not> holds (sy_pc s t')" if "t' \<noteq> t" for t' using sys_okD(1) [OF ok] assms(2) that by auto
  have sn: "snapshot_ok c g e m'" if "snap (sy_pc s t') = Some (c, g, e)" for t' c g e
    using sys_okD(3) [OF ok that] cl [of c] that assms(6) unfolding snapshot_ok_def by fastforce
  show ?thesis
    unfolding sys_ok_def
    using assms(3-5,8,9) other sn cl sys_okD(4) [OF ok] not_holds_ok by (auto split: if_splits)
qed

text \<open>A step of a call: the lock does not move, and what its holder relies on stays.\<close>

lemma call_step_ok:
  assumes ok: "sys_ok s" and "\<not> holds (sy_pc s t)" and "\<not> holds p'"
    and keep: "\<And>p. holds p \<Longrightarrow> hold_ok (sy_m s) p \<Longrightarrow> hold_ok m' p" and "w_next m' = w_next (sy_m s)"
    and cl: "\<And>c. mg_client m' = Some c \<Longrightarrow> mg_client (sy_m s) = Some c \<and> mg_gen m' = mg_gen (sy_m s)
        \<and> mg_rpcEpoch m' = mg_rpcEpoch (sy_m s)"
    and "mg_healthy m' \<Longrightarrow> mg_client m' \<noteq> None"
    and sn': "\<And>c g e. snap p' = Some (c, g, e) \<Longrightarrow> snap (sy_pc s t) = Some (c, g, e)
        \<or> (mg_client (sy_m s) = Some c \<and> g = mg_gen (sy_m s) \<and> e = mg_rpcEpoch (sy_m s))"
  shows "sys_ok (s\<lparr>sy_m := m', sy_pc := (sy_pc s)(t := p')\<rparr>)"
proof -
  have old: "snapshot_ok c g e m'" if "snapshot_ok c g e (sy_m s)" for c g e
    using that cl [of c] assms(5) by (auto simp: snapshot_ok_def)
  have new: "snapshot_ok c g e (sy_m s)" if "snap p' = Some (c, g, e)" for c g e
    using sn' [OF that] sys_okD(3) [OF ok] sys_okD(5) [OF ok] by (auto simp: snapshot_ok_def)
  have np: "pending p' = None" using assms(3) pending_holds by (cases "pending p'") auto
  have quiet: "mg_client (sy_m s) = None" if "pending (sy_pc s t') = Some k" for t' k
    using sys_okD(2) [OF ok, of t'] that by (cases "sy_pc s t'") (auto simp: quiescent_def)
  have hk: "hold_ok m' (sy_pc s t')" for t'
    using keep sys_okD(2) [OF ok, of t'] not_holds_ok by blast
  have pend: "snap p' \<noteq> Some (k, g, e)" if "pending (sy_pc s t') = Some k" for t' k g e
    using sn' [of k g e] sys_okD(4) [OF ok that] quiet [OF that] by auto
  show ?thesis
    unfolding sys_ok_def
    using assms(2,3,5,7) hk np pend new old sys_okD [OF ok] cl not_holds_ok by auto
qed

lemma quiescent_poison: "quiescent m \<Longrightarrow> poison_detach c m = m"
  by (simp add: quiescent_def poison_detach_def)

lemma poison_client: "mg_client (poison_detach c m) = Some k \<Longrightarrow> poison_detach c m = m"
  by (simp add: poison_detach_def split: if_splits)

lemma close_client_more [simp]:
  "mg_client (close_client c m) = mg_client m" "mg_cmd (close_client c m) = mg_cmd m" "w_next (close_client c m) = w_next m"
  "mg_rpcEpoch (close_client c m) = mg_rpcEpoch m" "mg_closed (close_client c m) = mg_closed m"
  by (simp_all add: close_client_def split: option.splits)

lemma reap_more [simp]:
  "mg_client (reap c m) = mg_client m" "mg_cmd (reap c m) = mg_cmd m" "w_next (reap c m) = w_next m"
  "mg_rpcEpoch (reap c m) = mg_rpcEpoch m" "mg_closed (reap c m) = mg_closed m"
  by (simp_all add: reap_def split: option.splits)

lemma rollback_more [simp]:
  "mg_client (rollbackGeneration g m) = mg_client m" "w_next (rollbackGeneration g m) = w_next m"
  by (simp_all add: rollbackGeneration_def)

lemma rollback_healthy: "mg_healthy (rollbackGeneration g m) \<Longrightarrow> mg_healthy m"
  by (simp add: rollbackGeneration_def zero_state_def split: if_splits)

lemma hold_ok_cong:
  assumes "hold_ok m p" and "mg_client m' = mg_client m" and "mg_cmd m' = mg_cmd m" and "mg_state m' = mg_state m"
    and "mg_closed m' = mg_closed m" and "w_next m' = w_next m"
  shows "hold_ok m' p"
  using assms by (cases p) (auto simp: quiescent_def)

lemma holds_quiescent: "holds p \<Longrightarrow> hold_ok m p \<Longrightarrow> quiescent m"
  by (cases p) auto

lemma sys_ok_poison:
  assumes ok: "sys_ok s" and "sy_pc s t = CallWait c g e"
  shows "sys_ok (s\<lparr>sy_m := close_client (Some c) (poison_detach c (sy_m s)), sy_pc := (sy_pc s)(t := Idle)\<rparr>)"
proof (rule call_step_ok [OF ok])
  fix p assume p: "holds p" "hold_ok (sy_m s) p"
  have "poison_detach c (sy_m s) = sy_m s" by (rule quiescent_poison [OF holds_quiescent [OF p]])
  then show "hold_ok (close_client (Some c) (poison_detach c (sy_m s))) p"
    by (intro hold_ok_cong [OF p(2)]) simp_all
next
  fix k assume "mg_client (close_client (Some c) (poison_detach c (sy_m s))) = Some k"
  then show "mg_client (sy_m s) = Some k \<and> mg_gen (close_client (Some c) (poison_detach c (sy_m s))) = mg_gen (sy_m s)
      \<and> mg_rpcEpoch (close_client (Some c) (poison_detach c (sy_m s))) = mg_rpcEpoch (sy_m s)"
    using poison_client [of c "sy_m s" k] by simp
next
  assume "mg_healthy (close_client (Some c) (poison_detach c (sy_m s)))"
  then show "mg_client (close_client (Some c) (poison_detach c (sy_m s))) \<noteq> None"
    using sys_okD(6) [OF ok] by (auto simp: poison_detach_def split: if_splits)
qed (use assms(2) in \<open>auto simp: poison_detach_def\<close>)

lemma sys_ok_heartbeat:
  assumes ok: "sys_ok s" and pc: "sy_pc s t = HbCommit c g e h" and "\<not> stale_heartbeat c g e (sy_m s)"
  shows "sys_ok (s\<lparr>sy_m := (sy_m s)\<lparr>mg_state := (mg_state (sy_m s))\<lparr>st_Healthy := h\<rparr>\<rparr>, sy_pc := (sy_pc s)(t := Idle)\<rparr>)"
proof -
  have c: "mg_client (sy_m s) = Some c" using assms(3) by (simp add: stale_heartbeat_def)
  show ?thesis
  proof (rule call_step_ok [OF ok])
    fix p assume "holds p" "hold_ok (sy_m s) p"
    then show "hold_ok ((sy_m s)\<lparr>mg_state := (mg_state (sy_m s))\<lparr>st_Healthy := h\<rparr>\<rparr>) p"
      using c holds_quiescent by (auto simp: quiescent_def)
  qed (use pc c in auto)
qed

lemma sys_ok_connects:
  assumes ok: "sys_ok s" and pc: "sy_pc s t = StartRun g" and caps: "cr_GenerationID caps = g"
    and nc: "new_client ((sy_m s)\<lparr>w_procs := insert (cmd_Pid c) (w_procs (sy_m s))\<rparr>) = (k, m')"
  shows "sys_ok (s\<lparr>sy_m := m', sy_pc := (sy_pc s)(t := StartReady g c k caps)\<rparr>)"
proof -
  have h: "hold_ok (sy_m s) (StartRun g)" "sy_lock s = Some t" using sys_okD(1,2) [OF ok, of t] pc by simp_all
  have k: "k = w_next (sy_m s)" "m' = (sy_m s)\<lparr>w_procs := insert (cmd_Pid c) (w_procs (sy_m s)),
      w_next := Suc (w_next (sy_m s)), w_conns := insert (w_next (sy_m s)) (w_conns (sy_m s))\<rparr>"
    using nc by (auto simp: new_client_def)
  have fresh: "snap (sy_pc s t') \<noteq> Some (k, g', e)" for t' g' e
    using sys_okD(3) [OF ok, of t' k g' e] k(1) by (auto simp: snapshot_ok_def)
  have "sys_ok (s\<lparr>sy_m := m', sy_lock := Some t, sy_pc := (sy_pc s)(t := StartReady g c k caps)\<rparr>)"
    by (rule lifecycle_step_ok [OF ok]) (use caps h k fresh in \<open>auto simp: quiescent_def\<close>)
  moreover have "s\<lparr>sy_m := m', sy_lock := Some t, sy_pc := (sy_pc s)(t := StartReady g c k caps)\<rparr>
      = s\<lparr>sy_m := m', sy_pc := (sy_pc s)(t := StartReady g c k caps)\<rparr>" using h(2) by (cases s) simp
  ultimately show ?thesis by (simp only:)
qed

lemma sys_ok_step:
  assumes ok: "sys_ok s" and "sy_step t s s'"
  shows "sys_ok s'"
  using assms(2)
proof cases
  case (call_snapshot c)
  have "sys_ok (s\<lparr>sy_m := sy_m s, sy_pc := (sy_pc s)(t := CallWait c (mg_gen (sy_m s)) (mg_rpcEpoch (sy_m s)))\<rparr>)"
    by (rule call_step_ok [OF ok]) (use call_snapshot sys_okD(6) [OF ok] in auto)
  then show ?thesis using call_snapshot by simp
next
  case (call_fails c g e)
  have "sys_ok (s\<lparr>sy_m := sy_m s, sy_pc := (sy_pc s)(t := Idle)\<rparr>)"
    by (rule call_step_ok [OF ok]) (use call_fails sys_okD(6) [OF ok] in auto)
  then show ?thesis using call_fails by simp
next
  case (call_poisons c g e)
  then show ?thesis using sys_ok_poison [OF ok] by simp
next
  case (call_returns c g e h)
  have "sys_ok (s\<lparr>sy_m := sy_m s, sy_pc := (sy_pc s)(t := HbCommit c g e h)\<rparr>)"
    by (rule call_step_ok [OF ok]) (use call_returns sys_okD(6) [OF ok] in auto)
  then show ?thesis using call_returns by simp
next
  case (heartbeat_stale c g e h)
  have "sys_ok (s\<lparr>sy_m := sy_m s, sy_pc := (sy_pc s)(t := Idle)\<rparr>)"
    by (rule call_step_ok [OF ok]) (use heartbeat_stale sys_okD(6) [OF ok] in auto)
  then show ?thesis using heartbeat_stale by simp
next
  case (heartbeat_commit c g e h)
  then show ?thesis using sys_ok_heartbeat [OF ok] by simp
next
  case (start_begin g m')
  have m': "m' = reserved (sy_m s)" "g = mg_gen (sy_m s) + 1" "idle (sy_m s)"
    using start_begin by (simp_all add: start_reserve_Inr)
  show ?thesis
    unfolding start_begin(1)
    by (rule lifecycle_step_ok [OF ok])
      (use start_begin m' in \<open>auto simp: reserved_def idle_def quiescent_def zero_state_def\<close>)
next
  case (start_fails g)
  have h: "hold_ok (sy_m s) (StartRun g)" "sy_lock s = Some t"
    using sys_okD(1,2) [OF ok, of t] start_fails by simp_all
  show ?thesis
    unfolding start_fails(1)
    by (rule lifecycle_step_ok [OF ok])
      (use h in \<open>auto simp: quiescent_def dest: rollback_healthy\<close>)
next
  case (start_connects g c k m' caps)
  then show ?thesis using sys_ok_connects [OF ok] by simp
next
  case (start_aborts g c k caps)
  have h: "hold_ok (sy_m s) (StartReady g c k caps)" "sy_lock s = Some t"
    using sys_okD(1,2) [OF ok, of t] start_aborts by simp_all
  show ?thesis
    unfolding start_aborts(1)
    by (rule lifecycle_step_ok [OF ok])
      (use h in \<open>auto simp: quiescent_def dest: rollback_healthy\<close>)
next
  case (start_commits g c k caps)
  have h: "hold_ok (sy_m s) (StartReady g c k caps)" "sy_lock s = Some t"
    using sys_okD(1,2) [OF ok, of t] start_commits by simp_all
  have fresh: "snap (sy_pc s t') \<noteq> Some (k, g', e)" for t' g' e
    using sys_okD(4) [OF ok, of t k t' g' e] start_commits by simp
  show ?thesis
    unfolding start_commits(1)
    by (rule lifecycle_step_ok [OF ok]) (use h fresh in \<open>auto simp: start_commit_def\<close>)
next
  case (stop_begin b m')
  then have "quiescent m'" "mg_client m' = None" "w_next m' = w_next (sy_m s)" "\<not> mg_healthy m'"
    by (auto simp: stop_detach_def quiescent_def split: if_splits)
  then show ?thesis
    unfolding stop_begin(1) by (intro lifecycle_step_ok [OF ok]) (use stop_begin in auto)
next
  case (stop_ends c k)
  have h: "hold_ok (sy_m s) (StopRun c k)" "sy_lock s = Some t"
    using sys_okD(1,2) [OF ok, of t] stop_ends by simp_all
  show ?thesis
    unfolding stop_ends(1)
    by (rule lifecycle_step_ok [OF ok]) (use h in \<open>auto simp: quiescent_def\<close>)
qed

lemma sys_ok_reach: "sy_reach cfg w s \<Longrightarrow> sys_ok s"
  by (induction rule: sy_reach.induct) (simp_all add: sys_ok_init sys_ok_step)

section \<open>Properties\<close>

text \<open>
  C6: starts and stops are exclusive and undisturbed. In every reachable state at most one goroutine is
  inside a start or stop; while it is, nothing is attached and nothing is healthy, a start still owns the
  generation it reserved, and a step of any other goroutine changes neither state, client, process,
  epoch nor the closed flag.
\<close>

theorem lifecycle_is_undisturbed:
  assumes "sy_reach cfg w s" and "holds (sy_pc s t)"
  shows "(\<forall>t'. holds (sy_pc s t') \<longrightarrow> t' = t)
    \<and> mg_client (sy_m s) = None \<and> mg_cmd (sy_m s) = None \<and> \<not> mg_healthy (sy_m s)
    \<and> (\<forall>g. sy_pc s t = StartRun g \<or> (\<exists>c k caps. sy_pc s t = StartReady g c k caps) \<longrightarrow> mg_gen (sy_m s) = g \<and> \<not> mg_closed (sy_m s))
    \<and> (\<forall>t' s'. sy_step t' s s' \<and> t' \<noteq> t \<longrightarrow>
         mg_state (sy_m s') = mg_state (sy_m s) \<and> mg_client (sy_m s') = mg_client (sy_m s) \<and> mg_cmd (sy_m s') = mg_cmd (sy_m s)
         \<and> mg_rpcEpoch (sy_m s') = mg_rpcEpoch (sy_m s) \<and> mg_closed (sy_m s') = mg_closed (sy_m s) \<and> holds (sy_pc s' t))"
proof -
  have ok: "sys_ok s" by (rule sys_ok_reach [OF assms(1)])
  have lock: "sy_lock s = Some t" using sys_okD(1) [OF ok] assms(2) by simp
  have h: "hold_ok (sy_m s) (sy_pc s t)" by (rule sys_okD(2) [OF ok])
  have q: "quiescent (sy_m s)" by (rule holds_quiescent [OF assms(2) h])
  have one: "\<forall>t'. holds (sy_pc s t') \<longrightarrow> t' = t" using sys_okD(1) [OF ok] lock by simp
  have still: "mg_state (sy_m s') = mg_state (sy_m s) \<and> mg_client (sy_m s') = mg_client (sy_m s) \<and> mg_cmd (sy_m s') = mg_cmd (sy_m s)
         \<and> mg_rpcEpoch (sy_m s') = mg_rpcEpoch (sy_m s) \<and> mg_closed (sy_m s') = mg_closed (sy_m s) \<and> holds (sy_pc s' t)"
    if st: "sy_step t' s s'" and ne: "t' \<noteq> t" for t' s'
  proof -
    have "\<not> holds (sy_pc s t')" using one ne by blast
    with st show ?thesis
      by cases (use ne lock q assms(2) in \<open>auto simp: quiescent_poison stale_heartbeat_def quiescent_def\<close>)
  qed
  have gen: "mg_gen (sy_m s) = g \<and> \<not> mg_closed (sy_m s)"
    if "sy_pc s t = StartRun g \<or> (\<exists>c k caps. sy_pc s t = StartReady g c k caps)" for g
    using that h by auto
  from one q gen still show ?thesis unfolding quiescent_def by blast
qed

theorem lifecycle_is_undisturbed_witness:
  "\<exists>s. sy_reach sample_config sample_world s \<and> holds (sy_pc s 0) \<and> mg_gen (sy_m s) = 1 \<and> mg_client (sy_m s) = None"
proof -
  let ?s0 = "sy_init sample_config sample_world"
  let ?s1 = "?s0\<lparr>sy_m := reserved sample_idle, sy_lock := Some 0, sy_pc := (sy_pc ?s0)(0 := StartRun 1)\<rparr>"
  have "start_reserve (sy_m ?s0) = (Inr 1, reserved sample_idle)"
    using sample_idle_ok(2) by (simp add: start_reserve_Inr sy_init_def fresh_manager_def zero_state_def)
  then have "sy_step 0 ?s0 ?s1" by (intro sy_step.start_begin) (simp_all add: sy_init_def)
  then have r: "sy_reach sample_config sample_world ?s1" using sy_reach.init sy_reach.step by blast
  have h: "holds (sy_pc ?s1 0)" by simp
  show ?thesis using lifecycle_is_undisturbed [OF r h] r h by (intro exI [of _ ?s1]) simp
qed

text \<open>
  C7: a call in flight cannot mistake a later generation for its own: in every reachable state, if the
  client of its snapshot is still attached, then generation and epoch are those of the snapshot; so a
  heartbeat that commits does so for the generation that answered it.
\<close>

theorem snapshot_identifies_generation:
  assumes "sy_reach cfg w s" and "sy_pc s t = CallWait c g e \<or> sy_pc s t = HbCommit c g e h" and "mg_client (sy_m s) = Some c"
  shows "g = mg_gen (sy_m s) \<and> e = mg_rpcEpoch (sy_m s)"
proof -
  have "snap (sy_pc s t) = Some (c, g, e)" using assms(2) by auto
  from sys_okD(3) [OF sys_ok_reach [OF assms(1)] this] show ?thesis using assms(3) by (simp add: snapshot_ok_def)
qed

theorem snapshot_identifies_generation_witness:
  "\<exists>s c g e. sy_reach sample_config sample_world s \<and> sy_pc s 1 = CallWait c g e \<and> mg_client (sy_m s) = Some c \<and> g = mg_gen (sy_m s)"
proof -
  let ?s0 = "sy_init sample_config sample_world"
  let ?c = "\<lparr>cmd_Path = [], cmd_Env = [], cmd_Pid = 7\<rparr>"
  let ?s1 = "?s0\<lparr>sy_m := reserved sample_idle, sy_lock := Some 0, sy_pc := (sy_pc ?s0)(0 := StartRun 1)\<rparr>"
  have "start_reserve (sy_m ?s0) = (Inr 1, reserved sample_idle)"
    using sample_idle_ok(2) by (simp add: start_reserve_Inr sy_init_def fresh_manager_def zero_state_def)
  then have "sy_step 0 ?s0 ?s1" by (intro sy_step.start_begin) (simp_all add: sy_init_def)
  then have r1: "sy_reach sample_config sample_world ?s1" using sy_reach.init sy_reach.step by blast
  obtain k m' where nc: "new_client ((sy_m ?s1)\<lparr>w_procs := insert (cmd_Pid ?c) (w_procs (sy_m ?s1))\<rparr>) = (k, m')"
    by (cases "new_client ((sy_m ?s1)\<lparr>w_procs := insert (cmd_Pid ?c) (w_procs (sy_m ?s1))\<rparr>)")
  let ?s2 = "?s1\<lparr>sy_m := m', sy_pc := (sy_pc ?s1)(0 := StartReady 1 ?c k sample_caps)\<rparr>"
  have r2: "sy_reach sample_config sample_world ?s2"
    by (rule sy_reach.step [OF r1 sy_step.start_connects [OF _ nc]]) (simp_all add: sample_caps_def)
  let ?s3 = "?s2\<lparr>sy_m := start_commit ?c k sample_caps (mg_socket (sy_m ?s2)) (sy_m ?s2), sy_lock := None, sy_pc := (sy_pc ?s2)(0 := Idle)\<rparr>"
  have r3: "sy_reach sample_config sample_world ?s3"
    by (rule sy_reach.step [OF r2 sy_step.start_commits]) simp
  have m3: "\<not> mg_closed (sy_m ?s3)" "mg_client (sy_m ?s3) = Some k"
    using nc by (auto simp: start_commit_def new_client_def reserved_def fresh_manager_def)
  let ?s4 = "?s3\<lparr>sy_pc := (sy_pc ?s3)(1 := CallWait k (mg_gen (sy_m ?s3)) (mg_rpcEpoch (sy_m ?s3)))\<rparr>"
  have r4: "sy_reach sample_config sample_world ?s4"
    by (rule sy_reach.step [OF r3 sy_step.call_snapshot]) (use m3 in \<open>simp_all add: sy_init_def\<close>)
  have pc: "sy_pc ?s4 1 = CallWait k (mg_gen (sy_m ?s3)) (mg_rpcEpoch (sy_m ?s3))" by simp
  have c: "mg_client (sy_m ?s4) = Some k" using m3(2) by simp
  show ?thesis using snapshot_identifies_generation [OF r4 disjI1 [OF pc] c] r4 pc c by blast
qed

end
