(* ===== verification/Refinement.thy ===== *)
theory Refinement
  imports Main
begin

text \<open>
  Functional refinement of a component by an abstract machine. A concrete step takes an input to a result
  and a next state; the abstract machine reads input and result and moves its own state. The interpretations
  are in the theories of the components that implement the machines.
\<close>

locale simulation =
  fixes inv :: "'s \<Rightarrow> bool" and abs_of :: "'s \<Rightarrow> 'a" and cstep :: "'x \<Rightarrow> 's \<Rightarrow> 'r \<times> 's"
    and astep :: "'x \<Rightarrow> 'r \<Rightarrow> 'a \<Rightarrow> 'a"
  assumes keeps: "inv s \<Longrightarrow> cstep x s = (r, s') \<Longrightarrow> inv s'"
    and simulates: "inv s \<Longrightarrow> cstep x s = (r, s') \<Longrightarrow> abs_of s' = astep x r (abs_of s)"
begin

fun crun :: "'x list \<Rightarrow> 's \<Rightarrow> 'r list \<times> 's" where
  "crun [] s = ([], s)"
| "crun (x # xs) s = (case cstep x s of (r, s1) \<Rightarrow> (case crun xs s1 of (rs, s2) \<Rightarrow> (r # rs, s2)))"

definition arun :: "('x \<times> 'r) list \<Rightarrow> 'a \<Rightarrow> 'a" where
  "arun = fold (\<lambda>(x, r). astep x r)"

lemma arun_Cons [simp]: "arun ((x, r) # h) a = arun h (astep x r a)"
  by (simp add: arun_def)

lemma arun_Nil [simp]: "arun [] a = a"
  by (simp add: arun_def)

lemma run_simulates:
  "inv s \<Longrightarrow> crun xs s = (rs, s') \<Longrightarrow> length rs = length xs \<and> inv s' \<and> abs_of s' = arun (zip xs rs) (abs_of s)"
proof (induction xs arbitrary: s rs)
  case (Cons x xs)
  obtain r s1 where a: "cstep x s = (r, s1)" by (cases "cstep x s")
  obtain rs1 where b: "crun xs s1 = (rs1, s')" "rs = r # rs1" using Cons.prems(2) a by (auto split: prod.splits)
  have "inv s1" by (rule keeps [OF Cons.prems(1) a])
  from Cons.IH [OF this b(1)] show ?case using simulates [OF Cons.prems(1) a] b(2) by simp
qed simp

text \<open>What holds of the abstract state after every abstract run holds of every concrete one.\<close>

lemma transfer:
  assumes "inv s" and "crun xs s = (rs, s')" and "\<And>h. P (arun h (abs_of s))"
  shows "P (abs_of s')"
  using run_simulates [OF assms(1,2)] assms(3) by simp

end

end
