(* ===== verification/Manager_Refinement.thy ===== *)
theory Manager_Refinement
  imports Manager_Lifecycle Refinement
begin

text \<open>
  An abstract life cycle of a plugin, four phases and a generation number, and the proof that the manager
  with its processes, connections, files, epochs and log refines it.
\<close>

section \<open>The abstract life cycle\<close>

text \<open>
  \<open>Down\<close>: no process. \<open>Up h\<close>: process and client, last known health \<open>h\<close>. \<open>Cut\<close>: the process is there but the
  client was poisoned. \<open>Gone\<close>: closed for good.
\<close>

datatype phase = Down | Up bool | Cut | Gone

type_synonym lifecycle = "phase \<times> uint64"

datatype label = LStart bool | LStop | LClose | LRestart bool | LBeat bool | LPoison | LNone

fun lifecycle_step :: "label \<Rightarrow> lifecycle \<Rightarrow> lifecycle" where
  "lifecycle_step (LStart ok) (Down, g) = (if ok then (Up True, g + 1) else (Down, g))"
| "lifecycle_step (LStart ok) (p, g) = (p, g)"
| "lifecycle_step LStop (Gone, g) = (Gone, g)"
| "lifecycle_step LStop (p, g) = (Down, g)"
| "lifecycle_step LClose (p, g) = (Gone, g)"
| "lifecycle_step (LRestart ok) (Gone, g) = (Gone, g)"
| "lifecycle_step (LRestart ok) (p, g) = (if ok then (Up True, g + 1) else (Down, g))"
| "lifecycle_step (LBeat h) (Up _, g) = (Up h, g)"
| "lifecycle_step LPoison (Up _, g) = (Cut, g)"
| "lifecycle_step _ a = a"

text \<open>What an operation of the manager, with the outcomes it meets and its result, is in the life cycle.\<close>

definition call_label :: "'r rpc_outcome \<Rightarrow> label" where
  "call_label out = (if poisons out then LPoison else LNone)"

fun label_of :: "mgr_op \<Rightarrow> bool \<Rightarrow> label" where
  "label_of (OpStart env) ok = LStart ok"
| "label_of (OpKill kenv) ok = LStop"
| "label_of (OpClose kenv le) ok = LClose"
| "label_of (OpRestart kenv env) ok = LRestart ok"
| "label_of (OpHeartbeat (Reply r)) ok = LBeat (hr_Status r = StatusHealthy)"
| "label_of (OpHeartbeat out) ok = call_label out"
| "label_of (OpEcho plug msg) ok = call_label (plug msg)"
| "label_of (OpSleep plug d) ok = call_label (plug d)"
| "label_of (OpCrash plug code) ok = call_label (plug code)"

definition phase_of :: "manager \<Rightarrow> phase" where
  "phase_of m =
     (if mg_closed m then Gone
      else if mg_client m \<noteq> None then Up (mg_healthy m)
      else if mg_cmd m \<noteq> None then Cut else Down)"

definition lifecycle_of :: "manager \<Rightarrow> lifecycle" where
  "lifecycle_of m = (phase_of m, mg_gen m)"

section \<open>Refinement\<close>

lemma phase_of_core [simp]: "phase_of (core m) = phase_of m"
  by (simp add: phase_of_def)

lemma phase_of_cong: "core m' = x \<Longrightarrow> phase_of m' = phase_of x"
  using phase_of_core [of m'] by simp

lemma phase_of_idle: "mgr_ok m \<Longrightarrow> idle m \<longleftrightarrow> phase_of m = Down"
  by (auto simp: phase_of_def idle_def mgr_ok_def)

lemma phase_of_Gone: "phase_of m = Gone \<longleftrightarrow> mg_closed m"
  by (simp add: phase_of_def)

lemma phase_of_Up: "phase_of m = Up h \<longleftrightarrow> \<not> mg_closed m \<and> (\<exists>k. mg_client m = Some k) \<and> h = mg_healthy m"
  by (auto simp: phase_of_def)

lemma phase_of_detached: "phase_of (detached b ps m) = (if b then Gone else Down)"
  by (simp add: phase_of_def detached_def)

lemma phase_of_abandoned: "idle m \<Longrightarrow> phase_of (abandoned ps n m) = Down"
  by (simp add: phase_of_def abandoned_def idle_def)

lemma phase_of_poisoned:
  assumes "mgr_ok m" and "\<not> mg_closed m" and "mg_client m = Some k"
  shows "phase_of (poisoned k m) = Cut"
  using assms by (auto simp: phase_of_def poisoned_def poison_detach_def mgr_ok_def)

lemma phase_startLocked:
  assumes "mgr_ok m" and "startLocked env m = (r, m')"
  shows "phase_of m' = (if idle m \<and> r = None then Up True else phase_of m) \<and> (r = None \<longrightarrow> idle m)"
proof (cases r)
  case None
  then have s: "Start env m = (None, m')" using assms(2) by (simp add: Start_def)
  have "idle m" using startLocked_ok assms(2) None by blast
  moreover have "mg_healthy m' \<and> mg_client m' \<noteq> None" using Start_fields [OF s] by (elim exE conjE) simp
  ultimately show ?thesis using startLocked_open [of env m m'] assms(2) None by (simp add: phase_of_def)
next
  case (Some e)
  have f: "startLocked env m = (Some e, m')" using assms(2) Some by simp
  show ?thesis
    using startLocked_fail [OF f mgr_ok_fresh_conns [OF assms(1)]]
  proof
    assume "\<not> idle m \<and> m' = m"
    then show ?thesis using Some by simp
  next
    assume h: "idle m \<and> (\<exists>n \<ge> w_next m. (\<forall>pid. \<not> spawned env pid) \<and> core m' = abandoned (w_procs m) n m
      \<or> (\<exists>pid. spawned env pid \<and> core m' = abandoned (unreaped (se_wait env) pid (insert pid (w_procs m))) n m))"
    then obtain ps n where "core m' = abandoned ps n m" by blast
    then have "phase_of m' = Down" using phase_of_cong [of m'] phase_of_abandoned h by simp
    then show ?thesis using Some h phase_of_idle [OF assms(1)] by simp
  qed
qed

lemma phase_stopCurrent:
  assumes "stopCurrent env b reason m = (r, m')"
  shows "phase_of m' = (if mg_closed m \<or> b then Gone else Down)"
proof (cases "mg_closed m")
  case True
  then show ?thesis using assms stopCurrent_closed [OF True] by (simp add: phase_of_def)
next
  case False
  show ?thesis using phase_of_cong [OF conjunct2 [OF stopCurrent_core [OF False assms]]] False by (simp add: phase_of_detached)
qed

lemma phase_Close:
  assumes "mgr_ok m" and "Close env le m = (r, m')"
  shows "phase_of m' = Gone"
proof (cases "mg_closed m")
  case True
  then have "mg_closeDone m" using assms(1) by (simp add: mgr_ok_def)
  then show ?thesis using assms(2) True by (simp add: Close_def phase_of_def)
next
  case False
  then have "\<not> mg_closeDone m" using assms(1) by (simp add: mgr_ok_def)
  from phase_of_cong [OF conjunct1 [OF Close_core [OF False this assms(2)]]] show ?thesis
    by (simp add: phase_of_def detached_def)
qed

lemma phase_Restart:
  assumes "mgr_ok m" and "Restart kenv env m = (r, m')"
  shows "phase_of m' = (if mg_closed m then Gone else if r = None then Up True else Down)"
proof (cases "mg_closed m")
  case True
  then show ?thesis using assms(2) by (simp add: Restart_def phase_of_def)
next
  case o: False
  have stopped: "mgr_ok m2 \<and> phase_of m2 = Down"
    if "core m1 = core m" "stopCurrent kenv False ''restart requested'' m1 = (r2, m2)" for m1 m2 r2
    using that phase_stopCurrent [OF that(2)] mgr_ok_stopCurrent [OF _ that(2)] mgr_ok_cong [OF that(1)] assms(1) core_eqD(6) [OF that(1)] o
    by simp
  show ?thesis
  proof (cases r)
    case None
    then obtain m1 m2 m3 where a: "core m1 = core m" "stopCurrent kenv False ''restart requested'' m1 = (None, m2)"
      "startLocked env m2 = (None, m3)" "core m' = core m3" using Restart_ok [of kenv env m m'] assms(2) by blast
    from stopped [OF a(1,2)] have "mgr_ok m2" "phase_of m2 = Down" by simp_all
    then show ?thesis using phase_startLocked [OF _ a(3)] phase_of_cong [OF a(4)] None o phase_of_idle by simp
  next
    case (Some e)
    then obtain m1 r2 m2 where a: "core m1 = core m" "stopCurrent kenv False ''restart requested'' m1 = (r2, m2)"
      and b: "core m' = core m2 \<or> (\<exists>m3. startLocked env m2 = (Some e, m3) \<and> core m' = core m3)"
      using Restart_fail [of kenv env m e m'] assms(2) o by blast
    from stopped [OF a] have s: "mgr_ok m2" "phase_of m2 = Down" by simp_all
    from b show ?thesis
    proof (elim disjE exE conjE)
      assume "core m' = core m2"
      then show ?thesis using phase_of_cong [of m'] s(2) Some o by simp
    next
      fix m3 assume "startLocked env m2 = (Some e, m3)" "core m' = core m3"
      then show ?thesis using phase_startLocked [OF s(1)] phase_of_cong [of m'] s(2) Some o by fastforce
    qed
  qed
qed

lemma phase_plugin_call:
  assumes "mgr_ok m"
  shows "(phase_of (snd (plugin_call id meth out m)), g) = lifecycle_step (call_label out) (phase_of m, g)"
proof (cases "mg_closed m \<or> mg_client m = None")
  case True
  then have "snd (plugin_call id meth out m) = m" using plugin_call_refused [of m id meth out] by auto
  then show ?thesis using True by (auto simp: call_label_def phase_of_def)
next
  case False
  then obtain k where k: "\<not> mg_closed m" "mg_client m = Some k" by auto
  have "phase_of m = Up (mg_healthy m)" using k by (simp add: phase_of_Up)
  moreover have "phase_of (snd (plugin_call id meth out m)) = (if poisons out then Cut else phase_of m)"
    using phase_of_cong [OF plugin_call_core [OF k, of meth out]] phase_of_poisoned [of "core m" k] assms k by simp
  ultimately show ?thesis by (simp add: call_label_def)
qed

lemma phase_Heartbeat:
  assumes "mgr_ok m"
  shows "(phase_of (snd (Heartbeat (quiet_heartbeat out) m)), g) = lifecycle_step (label_of (OpHeartbeat out) b) (phase_of m, g)"
proof (cases "mg_closed m \<or> mg_client m = None")
  case True
  then have "snd (Heartbeat (quiet_heartbeat out) m) = m" using Heartbeat_refused [of m "quiet_heartbeat out"] by auto
  then show ?thesis using True by (cases out) (auto simp: call_label_def phase_of_def)
next
  case False
  then obtain k where k: "\<not> mg_closed m" "mg_client m = Some k" by auto
  have up: "phase_of m = Up (mg_healthy m)" using k by (simp add: phase_of_Up)
  show ?thesis
    using phase_of_cong [OF Heartbeat_core [OF k, of out]] phase_of_poisoned [of "core m" k] assms k up
    by (cases out) (simp_all add: call_label_def phase_of_def split: if_splits)
qed

lemma exec_simulates:
  assumes "mgr_ok m" and "exec x m = (s, m')"
  shows "lifecycle_of m' = lifecycle_step (label_of x s) (lifecycle_of m)"
proof -
  have g: "mg_gen m' = (if s then mg_gen m + 1 else mg_gen m)" by (rule exec_gen [OF assms])
  show ?thesis
  proof (cases x)
    case (OpStart env)
    then obtain r where s: "startLocked env m = (r, m')" "s \<longleftrightarrow> r = None" using assms(2) by (auto simp: Start_def split: prod.splits)
    then show ?thesis
      using phase_startLocked [OF assms(1) s(1)] g OpStart phase_of_idle [OF assms(1)]
      by (cases "phase_of m") (auto simp: lifecycle_of_def)
  next
    case (OpKill kenv)
    then obtain r where s: "stopCurrent kenv False ''kill requested'' m = (r, m')" "\<not> s" using assms(2) by (auto simp: Kill_def split: prod.splits)
    then show ?thesis
      using phase_stopCurrent [OF s(1)] g OpKill phase_of_Gone [of m] by (cases "phase_of m") (auto simp: lifecycle_of_def)
  next
    case (OpClose kenv le)
    then obtain r where s: "Close kenv le m = (r, m')" "\<not> s" using assms(2) by (auto split: prod.splits)
    then show ?thesis using phase_Close [OF assms(1) s(1)] g OpClose by (simp add: lifecycle_of_def)
  next
    case (OpRestart kenv env)
    then obtain r where s: "Restart kenv env m = (r, m')" "s \<longleftrightarrow> r = None" using assms(2) by (auto split: prod.splits)
    then show ?thesis
      using phase_Restart [OF assms(1) s(1)] g OpRestart phase_of_Gone [of m] s(1)
      by (cases "phase_of m") (auto simp: lifecycle_of_def Restart_def)
  next
    case (OpHeartbeat out)
    then show ?thesis using phase_Heartbeat [OF assms(1), of out "mg_gen m" s] assms(2) g
      by (auto simp: lifecycle_of_def split: prod.splits)
  next
    case (OpEcho plug msg)
    then show ?thesis using phase_plugin_call [OF assms(1), of MethodEcho "plug msg" "mg_gen m"] assms(2) g
      by (auto simp: lifecycle_of_def Echo_def split: prod.splits)
  next
    case (OpSleep plug d)
    then show ?thesis using phase_plugin_call [OF assms(1), of MethodSleep "plug d" "mg_gen m"] assms(2) g
      by (auto simp: lifecycle_of_def Sleep_def split: prod.splits)
  next
    case (OpCrash plug code)
    then show ?thesis using phase_plugin_call [OF assms(1), of MethodCrash "plug code" "mg_gen m"] assms(2) g
      by (auto simp: lifecycle_of_def Crash_def split: prod.splits)
  qed
qed

interpretation ml: simulation mgr_ok lifecycle_of exec "\<lambda>x s. lifecycle_step (label_of x s)"
  by unfold_locales (auto intro: mgr_ok_exec exec_simulates)

section \<open>Properties\<close>

fun run_ops :: "mgr_op list \<Rightarrow> manager \<Rightarrow> bool list \<times> manager" where
  "run_ops [] m = ([], m)"
| "run_ops (x # xs) m = (case exec x m of (s, m1) \<Rightarrow> (case run_ops xs m1 of (ss, m2) \<Rightarrow> (s # ss, m2)))"

lemma run_ops_crun: "run_ops xs m = ml.crun xs m"
  by (induction xs arbitrary: m) simp_all

text \<open>
  C5: the manager refines its life cycle. Whatever sequence of operations runs, with whatever outcomes (failed
  spawns, timeouts, broken connections, failed kills), phase and generation of the manager are those of the
  abstract machine: a start leads from down to up and healthy and does nothing in any other phase; a failed
  start or restart ends down with the old generation; transport failures cut an up plugin off, which only a
  stop, restart or close leaves; health follows the heartbeats while up; and a closed manager stays closed.
\<close>

theorem manager_refines_lifecycle:
  assumes "mgr_ok m" and "run_ops xs m = (ss, m')"
  shows "length ss = length xs
    \<and> lifecycle_of m' = fold (\<lambda>(x, s). lifecycle_step (label_of x s)) (zip xs ss) (lifecycle_of m)"
  using ml.run_simulates [OF assms(1) assms(2) [unfolded run_ops_crun]] by (simp add: ml.arun_def)

theorem manager_refines_lifecycle_witness:
  "\<exists>ss m'. run_ops [OpStart sample_start, OpHeartbeat CallTimeout, OpStart sample_start, OpClose sample_stop None] sample_idle = (ss, m')
     \<and> ss ! 0 \<and> lifecycle_of m' = (Gone, 1)"
proof -
  let ?xs = "[OpStart sample_start, OpHeartbeat CallTimeout, OpStart sample_start, OpClose sample_stop None]"
  obtain ss m' where r: "run_ops ?xs sample_idle = (ss, m')" by (cases "run_ops ?xs sample_idle")
  obtain m where "Start sample_start sample_idle = (None, m)" by (rule sample_running) (rule that)
  then have s0: "ss ! 0" using r by (auto split: prod.splits)
  note p = manager_refines_lifecycle [OF sample_idle_ok(1) r]
  then obtain s0' s1 s2 s3 where ss: "ss = [s0', s1, s2, s3]" by (auto simp: length_Suc_conv)
  have "lifecycle_of sample_idle = (Down, 0)" by (simp add: lifecycle_of_def phase_of_def fresh_manager_def zero_state_def)
  then have "lifecycle_of m' = (Gone, 1)" using p s0 ss by (simp add: call_label_def)
  then show ?thesis using r s0 by blast
qed

end
