(* ===== verification/Go_Numbers.thy ===== *)
theory Go_Numbers
  imports Go_Text
begin

text \<open>
  \<open>strconv\<close> as the program uses it: \<open>ParseUint(s, 10, 64)\<close> and \<open>Atoi\<close>. Both scan from the left, stop with
  a syntax error at the first byte that is no digit and with a range error as soon as the value no longer
  fits. The two error values are \<open>strconv.ErrSyntax\<close> and \<open>strconv.ErrRange\<close>.
\<close>

definition ErrSyntax :: goerr where "ErrSyntax = err ''invalid syntax''"
definition ErrRange :: goerr where "ErrRange = err ''value out of range''"

definition digit_value :: "char \<Rightarrow> nat" where
  "digit_value c = of_char c - 48"

fun scan_uint :: "nat \<Rightarrow> nat \<Rightarrow> string \<Rightarrow> goerr + nat" where
  "scan_uint limit n [] = Inr n"
| "scan_uint limit n (c # cs) =
     (if \<not> is_digit c then Inl ErrSyntax
      else if limit \<le> n * 10 + digit_value c then Inl ErrRange
      else scan_uint limit (n * 10 + digit_value c) cs)"

definition ParseUint :: "string \<Rightarrow> goerr + uint64" where
  "ParseUint s =
     (if s = [] then Inl ErrSyntax
      else (case scan_uint (2 ^ 64) 0 s of Inl e \<Rightarrow> Inl e | Inr n \<Rightarrow> Inr (of_nat n)))"

text \<open>\<open>strconv.Atoi\<close> on a 64-bit platform: an optional sign, then digits.\<close>

definition Atoi :: "string \<Rightarrow> goerr + int" where
  "Atoi s =
     (case s of
        [] \<Rightarrow> Inl ErrSyntax
      | c # cs \<Rightarrow>
          (let neg = (c = CHR ''-''); ds = (if neg \<or> c = CHR ''+'' then cs else s)
           in if ds = [] then Inl ErrSyntax
              else (case scan_uint (2 ^ 64) 0 ds of
                      Inl e \<Rightarrow> Inl e
                    | Inr n \<Rightarrow>
                        if \<not> neg \<and> 2 ^ 63 \<le> n then Inl ErrRange
                        else if neg \<and> 2 ^ 63 < n then Inl ErrRange
                        else Inr (if neg then - int n else int n))))"

text \<open>A signed number in decimal.\<close>

definition fmt_int :: "int \<Rightarrow> string" where
  "fmt_int n = (if n < 0 then CHR ''-'' # dec (nat (- n)) else dec (nat n))"

section \<open>Lemmas\<close>

lemma digit_char_digit: "d < 10 \<Longrightarrow> is_digit (digit_char d) \<and> digit_value (digit_char d) = d"
  by (simp add: digit_char_def byte_class_defs digit_value_def)

lemma scan_uint_append:
  "scan_uint limit n (s @ t) = (case scan_uint limit n s of Inl e \<Rightarrow> Inl e | Inr k \<Rightarrow> scan_uint limit k t)"
  by (induction s arbitrary: n) simp_all

lemma scan_uint_dec: "k < limit \<Longrightarrow> scan_uint limit 0 (dec k) = Inr k"
proof (induction k rule: dec.induct)
  case (1 k)
  show ?case
  proof (cases "k < 10")
    case True
    then show ?thesis using "1.prems" digit_char_digit by (subst dec.simps) simp
  next
    case False
    have "k div 10 < limit" using "1.prems" by (meson div_le_dividend order_le_less_trans)
    then have "scan_uint limit 0 (dec (k div 10)) = Inr (k div 10)" using "1.IH" [OF False] by simp
    moreover have "k div 10 * 10 + k mod 10 = k" by simp
    moreover have "is_digit (digit_char (k mod 10)) \<and> digit_value (digit_char (k mod 10)) = k mod 10"
      by (rule digit_char_digit) simp
    ultimately show ?thesis
      using False "1.prems" by (subst dec.simps) (simp add: scan_uint_append del: div_mult_mod_eq)
  qed
qed

lemma ParseUint_dec: "ParseUint (dec (unat (g :: uint64))) = Inr g"
proof -
  have "unat g < 2 ^ 64" using unsigned_less [of g] by simp
  then show ?thesis by (simp add: ParseUint_def scan_uint_dec)
qed

lemma scan_uint_bound: "scan_uint limit n s = Inr k \<Longrightarrow> n < limit \<Longrightarrow> k < limit"
  by (induction limit n s rule: scan_uint.induct) (auto split: if_splits)

lemma scan_uint_digits: "scan_uint limit n s = Inr k \<Longrightarrow> list_all is_digit s"
  by (induction limit n s rule: scan_uint.induct) (auto split: if_splits)

lemma Atoi_bounds: "Atoi s = Inr k \<Longrightarrow> - (2 ^ 63) \<le> k \<and> k < 2 ^ 63"
  by (auto simp: Atoi_def Let_def split: list.splits if_splits sum.splits)

lemma dec_digits: "list_all is_digit (dec n)"
proof (induction n rule: dec.induct)
  case (1 n)
  then show ?case using digit_char_digit by (subst dec.simps) (auto simp: Let_def)
qed

lemma dec_leading_zero: "hd (dec n) = CHR ''0'' \<Longrightarrow> n = 0"
proof (induction n rule: dec.induct)
  case (1 n)
  show ?case
  proof (cases "n < 10")
    case True
    with "1.prems" have "digit_value (digit_char n) = 0" by (simp add: dec.simps [of n] digit_value_def)
    then show ?thesis using True digit_char_digit by simp
  next
    case False
    then show ?thesis using 1 by (simp add: dec.simps [of n] hd_append)
  qed
qed

lemma dec_hd: "is_digit (hd (dec n)) \<and> hd (dec n) \<noteq> CHR ''-'' \<and> hd (dec n) \<noteq> CHR ''+''"
proof -
  have "is_digit (hd (dec n))" using dec_digits [of n] hd_in_set [OF dec_nonempty] unfolding list_all_iff by blast
  then show ?thesis by (auto simp: byte_class_defs)
qed

lemma Atoi_fmt_int:
  assumes "- (2 ^ 63) \<le> n" "n < 2 ^ 63"
  shows "Atoi (fmt_int n) = Inr n"
proof (cases "n < 0")
  case True
  then have "scan_uint (2 ^ 64) 0 (dec (nat (- n))) = Inr (nat (- n))" using assms by (intro scan_uint_dec) simp
  with True assms show ?thesis by (simp add: Atoi_def fmt_int_def nat_le_iff)
next
  case False
  obtain c cs where d: "dec (nat n) = c # cs" by (metis dec_nonempty list.exhaust)
  have c: "c \<noteq> CHR ''-''" "c \<noteq> CHR ''+''" using dec_hd [of "nat n"] by (simp_all add: d)
  have "scan_uint (2 ^ 64) 0 (dec (nat n)) = Inr (nat n)" using assms by (intro scan_uint_dec) simp
  with False assms c show ?thesis by (simp add: Atoi_def fmt_int_def d Let_def le_nat_iff)
qed

end
