(* ===== verification/Plugin_Sdk.thy ===== *)
theory Plugin_Sdk
  imports Plugin_Api Auth_Token Host_Runtime Event_Provider Go_Numbers Refinement
begin

text \<open>
  The plugin side of the RPC interface (\<open>src/src/pkg/plugin\<close>): configuration from the environment the kernel
  hands over, the RPC server that guards every method behind one successful authentication, the plugin
  logger, and the template and echo plugins built on it.

  The code a plugin author supplies (the Go interfaces \<open>Core\<close>, \<open>Echo\<close>, \<open>Sleep\<close>, \<open>Crash\<close> and the optional
  hooks) is a record of operations over an arbitrary state; an interface the plugin does not implement is
  \<open>None\<close>. Server methods are steps on the server state; the part of each that reads or writes \<open>authUsed\<close> runs
  under the mutex in the code, so a sequence of steps is an order in which those parts run.
\<close>

section \<open>Configuration\<close>

record sdk_config =
  sd_SocketPath :: path
  sd_PluginID :: string
  sd_GenerationID :: uint64
  sd_AuthToken :: string

definition ErrMissingEnv :: "string \<Rightarrow> goerr" where
  "ErrMissingEnv name = Errorf ''%s is required for plugin startup'' [FStr name]"

text \<open>\<open>os.Getenv\<close> in a process started with the given environment list; unset and empty are the same.\<close>

fun getenv_of :: "string list \<Rightarrow> string \<Rightarrow> string" where
  "getenv_of [] k = []"
| "getenv_of (e # es) k = (if has_prefix e (k @ ''='') then drop (length k + 1) e else getenv_of es k)"

definition ReadFile :: "(path \<Rightarrow> goerr option) \<Rightarrow> (path \<Rightarrow> string option) \<Rightarrow> path \<Rightarrow> goerr + string" where
  "ReadFile rd files p =
     (case rd p of
        Some e \<Rightarrow> Inl e
      | None \<Rightarrow> (case files p of None \<Rightarrow> Inl (SysErr (Some OsErrNotExist) ''open'') | Some b \<Rightarrow> Inr b))"

definition LoadConfigFromEnv :: "(string \<Rightarrow> string) \<Rightarrow> (path \<Rightarrow> goerr option) \<Rightarrow> (path \<Rightarrow> string option) \<Rightarrow> goerr + sdk_config" where
  "LoadConfigFromEnv getenv rd files =
     (let sock = getenv EnvSocket; pluginID = getenv EnvPluginID; genStr = getenv EnvGeneration; authFile = getenv EnvAuthFile
      in if sock = [] then Inl (ErrMissingEnv EnvSocket)
         else if pluginID = [] then Inl (ErrMissingEnv EnvPluginID)
         else if genStr = [] then Inl (ErrMissingEnv EnvGeneration)
         else (case ParseUint genStr of
           Inl e \<Rightarrow> Inl (Wrapf ''parse RPC_PLUGIN_SYSTEM_PLUGIN_GENERATION %q: %w'' [FStr genStr] e)
         | Inr generationID \<Rightarrow>
             if authFile = [] then Inl (ErrMissingEnv EnvAuthFile)
             else (case ReadFile rd files authFile of
               Inl e \<Rightarrow> Inl (Wrapf ''read RPC_PLUGIN_SYSTEM_AUTH_TOKEN_FILE %q: %w'' [FStr authFile] e)
             | Inr authTokenRaw \<Rightarrow>
                 Inr \<lparr>sd_SocketPath = sock, sd_PluginID = pluginID, sd_GenerationID = generationID,
                      sd_AuthToken = authTokenRaw\<rparr>)))"

section \<open>Plugin logger\<close>

record plugin_logger =
  pg_pluginID :: string
  pg_generationID :: uint64
  pg_pid :: int
  pg_path :: path
  pg_logger :: "logger option"

abbreviation "DefaultPluginLogFileName \<equiv> ''plugin-events.jsonl''"
abbreviation "LogComponentPlugin \<equiv> ''plugin''"

abbreviation "EventPluginBootStarted \<equiv> ''plugin_boot_started''"
abbreviation "EventPluginBootFailed \<equiv> ''plugin_boot_failed''"
abbreviation "EventPluginConfigLoaded \<equiv> ''plugin_config_loaded''"
abbreviation "EventPluginListenerStarted \<equiv> ''plugin_listener_started''"
abbreviation "EventPluginServeStopped \<equiv> ''plugin_serve_stopped''"
abbreviation "EventPluginAuthAttempt \<equiv> ''plugin_auth_attempt''"
abbreviation "EventPluginAuthAccepted \<equiv> ''plugin_auth_accepted''"
abbreviation "EventPluginAuthRejected \<equiv> ''plugin_auth_rejected''"
abbreviation "EventPluginCapabilitiesRead \<equiv> ''plugin_capabilities_reported''"
abbreviation "EventPluginShutdownCalled \<equiv> ''plugin_shutdown_called''"
abbreviation "EventPluginRequestHandled \<equiv> ''plugin_request_handled''"
abbreviation "EventPluginRequestFailed \<equiv> ''plugin_request_failed''"

definition NewPluginLogger :: "int \<Rightarrow> goerr option \<Rightarrow> sdk_config \<Rightarrow> files \<Rightarrow> (goerr + plugin_logger) \<times> files" where
  "NewPluginLogger pid open_err cfg fs =
     (let p = Join [Dir (sd_SocketPath cfg), DefaultPluginLogFileName]
      in case NewLogger p open_err fs of
           (Inl e, fs1) \<Rightarrow> (Inl (Wrapf ''open plugin event log: %w'' [] e), fs1)
         | (Inr l, fs1) \<Rightarrow>
             (Inr \<lparr>pg_pluginID = sd_PluginID cfg, pg_generationID = sd_GenerationID cfg, pg_pid = pid,
                   pg_path = p, pg_logger = Some l\<rparr>, fs1))"

text \<open>\<open>Path\<close> and \<open>Close\<close>; a nil logger is \<open>None\<close>.\<close>

definition PluginLoggerPath :: "plugin_logger option \<Rightarrow> path" where
  "PluginLoggerPath l = (case l of None \<Rightarrow> [] | Some l \<Rightarrow> pg_path l)"

definition ClosePluginLogger :: "goerr option \<Rightarrow> plugin_logger option \<Rightarrow> goerr option \<times> plugin_logger option" where
  "ClosePluginLogger close_err l =
     (case l of
        None \<Rightarrow> (None, None)
      | Some pl \<Rightarrow>
          (case pg_logger pl of
             None \<Rightarrow> (None, l)
           | Some b \<Rightarrow> (case CloseLogger close_err b of (e, b') \<Rightarrow> (e, Some (pl\<lparr>pg_logger := Some b'\<rparr>)))))"

text \<open>The fields \<open>(*Logger).Event\<close> fills in.\<close>

definition plugin_event :: "plugin_logger \<Rightarrow> 'e event \<Rightarrow> 'e event" where
  "plugin_event l e =
     (let e1 = (if ev_Component e = [] then e\<lparr>ev_Component := LogComponentPlugin\<rparr> else e);
          e2 = (if ev_PluginID e1 = [] then e1\<lparr>ev_PluginID := pg_pluginID l\<rparr> else e1);
          e3 = (if ev_GenerationID e2 = 0 then e2\<lparr>ev_GenerationID := pg_generationID l\<rparr> else e2);
          e4 = (if ev_PID e3 = 0 then e3\<lparr>ev_PID := pg_pid l\<rparr> else e3)
      in if ev_Level e4 = [] then e4\<lparr>ev_Level := LevelInfo\<rparr> else e4)"

definition PluginEvent :: "encoder \<Rightarrow> log_io \<Rightarrow> string event \<Rightarrow> plugin_logger option \<Rightarrow> files
   \<Rightarrow> goerr option \<times> plugin_logger option \<times> files" where
  "PluginEvent enc io e l fs =
     (case l of
        None \<Rightarrow> (None, l, fs)
      | Some pl \<Rightarrow>
          (case pg_logger pl of
             None \<Rightarrow> (None, l, fs)
           | Some b \<Rightarrow>
               (case Write enc io (plugin_event pl e) b fs of
                  (r, b', fs') \<Rightarrow> (r, Some (pl\<lparr>pg_logger := Some b'\<rparr>), fs'))))"

record provider_diagnostic =
  pd_CapabilityID :: string
  pd_OperationID :: string
  pd_CorrelationID :: string
  pd_Status :: string
  pd_DurationMS :: int
  pd_ErrorClass :: string
  pd_DegradedReason :: string
  pd_Message :: string
  pd_Details :: details

definition diagnostic_observation :: "plugin_logger \<Rightarrow> provider_diagnostic \<Rightarrow> provider_observation" where
  "diagnostic_observation pl d = \<lparr>ob_Level = LevelInfo, ob_Component = ComponentProviderDiagnostic,
     ob_Event = EventProviderDiagnosticReported, ob_PluginID = pg_pluginID pl, ob_GenerationID = pg_generationID pl,
     ob_CapabilityID = pd_CapabilityID d, ob_OperationID = pd_OperationID d, ob_CorrelationID = pd_CorrelationID d,
     ob_Status = pd_Status d, ob_DurationMS = pd_DurationMS d, ob_ErrorClass = pd_ErrorClass d,
     ob_DegradedReason = pd_DegradedReason d, ob_Message = pd_Message d, ob_Details = pd_Details d\<rparr>"

definition ProviderDiagnostic :: "encoder \<Rightarrow> log_io \<Rightarrow> provider_diagnostic \<Rightarrow> plugin_logger option \<Rightarrow> files
   \<Rightarrow> goerr option \<times> plugin_logger option \<times> files" where
  "ProviderDiagnostic enc io d l fs =
     (case l of
        None \<Rightarrow> (None, l, fs)
      | Some pl \<Rightarrow>
          (case pg_logger pl of
             None \<Rightarrow> (None, l, fs)
           | Some b \<Rightarrow>
               (case ProviderEvent (diagnostic_observation pl d) of
                  Inl e \<Rightarrow> (Some (Wrapf ''provider diagnostic: %w'' [] e), l, fs)
                | Inr event \<Rightarrow>
                    (case Write enc io (if ev_PID event = 0 then event\<lparr>ev_PID := pg_pid pl\<rparr> else event) b fs of
                       (r, b', fs') \<Rightarrow> (r, Some (pl\<lparr>pg_logger := Some b'\<rparr>), fs')))))"

section \<open>RPC server\<close>

record 'c core_ops =
  co_Version :: "'c \<Rightarrow> string"
  co_Heartbeat :: "'c \<Rightarrow> (goerr + heartbeat_response) \<times> 'c"
  co_Shutdown :: "'c \<Rightarrow> goerr option \<times> 'c"
  co_Echo :: "(string \<Rightarrow> 'c \<Rightarrow> (goerr + string) \<times> 'c) option"
  co_Sleep :: "(duration \<Rightarrow> 'c \<Rightarrow> goerr option \<times> 'c) option"
  co_Crash :: "(int \<Rightarrow> 'c \<Rightarrow> goerr option \<times> 'c) option"
  co_Capabilities :: "('c \<Rightarrow> string list) option"
  co_OnAuthAttempt :: "(string \<Rightarrow> 'c \<Rightarrow> goerr option \<times> 'c) option"
  co_OnServeListener :: "('c \<Rightarrow> 'c) option"
  co_Identity :: "('c \<Rightarrow> string \<times> uint64) option"

text \<open>
  The server. \<open>sv_events\<close> are the events handed to the logger, in order, with the fields it fills in; the
  results of writing them are discarded by the code. Without a logger nothing is recorded.
\<close>

record 'c server =
  sv_core :: 'c
  sv_cfg :: sdk_config
  sv_authUsed :: bool
  sv_capabilities :: "string list"
  sv_logger :: "plugin_logger option"
  sv_events :: "goerr option event list"

definition plog :: "goerr option event \<Rightarrow> 'c server \<Rightarrow> 'c server" where
  "plog e s = (case sv_logger s of None \<Rightarrow> s | Some l \<Rightarrow> s\<lparr>sv_events := sv_events s @ [plugin_event l e]\<rparr>)"

definition pev :: "string \<Rightarrow> string \<Rightarrow> string \<Rightarrow> string \<Rightarrow> goerr option event" where
  "pev lvl name meth msg = (zero_event None)\<lparr>ev_Level := lvl, ev_Event := name, ev_Method := meth, ev_Message := msg\<rparr>"

definition detectCapabilities :: "'c core_ops \<Rightarrow> 'c \<Rightarrow> string list" where
  "detectCapabilities ops c =
     (case co_Capabilities ops of
        Some f \<Rightarrow> f c
      | None \<Rightarrow>
          [''heartbeat'', ''shutdown'']
          @ (if co_Echo ops \<noteq> None then [''echo''] else [])
          @ (if co_Sleep ops \<noteq> None then [''sleep''] else [])
          @ (if co_Crash ops \<noteq> None then [''crash''] else []))"

definition logRPC :: "string \<Rightarrow> goerr option \<Rightarrow> 'c server \<Rightarrow> 'c server" where
  "logRPC meth e s =
     (case e of
        Some _ \<Rightarrow> plog ((pev LevelWarn EventPluginRequestFailed meth ''plugin rpc handler failed'')\<lparr>ev_Error := e\<rparr>) s
      | None \<Rightarrow> plog (pev [] EventPluginRequestHandled meth ''plugin rpc handler completed'') s)"

abbreviation ErrPermission :: goerr where "ErrPermission \<equiv> Sentinel OsErrPermission"

definition requireAuth :: "string \<Rightarrow> 'c server \<Rightarrow> goerr option \<times> 'c server" where
  "requireAuth meth s =
     (if sv_authUsed s then (None, s)
      else (Some ErrPermission,
            logRPC meth (Some ErrPermission)
              (plog ((pev LevelWarn EventPluginAuthRejected meth ''plugin rpc rejected before auth'')
                 \<lparr>ev_Reason := ''auth required'', ev_Error := Some ErrPermission\<rparr>) s)))"

definition identity :: "'c core_ops \<Rightarrow> 'c server \<Rightarrow> string \<times> uint64" where
  "identity ops s =
     (case co_Identity ops of
        Some f \<Rightarrow> f (sv_core s)
      | None \<Rightarrow> (sd_PluginID (sv_cfg s), sd_GenerationID (sv_cfg s)))"

definition server_Auth :: "'c core_ops \<Rightarrow> string \<Rightarrow> 'c server \<Rightarrow> (goerr + auth_response) \<times> 'c server" where
  "server_Auth ops token s =
     (let s1 = plog (pev [] EventPluginAuthAttempt MethodAuth ''plugin auth attempt received'') s;
          (hookErr, s2) = (case co_OnAuthAttempt ops of
              None \<Rightarrow> (None, s1)
            | Some f \<Rightarrow> (case f token (sv_core s1) of (e, c) \<Rightarrow> (e, s1\<lparr>sv_core := c\<rparr>)))
      in case hookErr of
           Some e \<Rightarrow>
             (Inl e, plog ((pev LevelWarn EventPluginAuthRejected MethodAuth ''plugin auth hook rejected request'')
                       \<lparr>ev_Error := Some e\<rparr>) s2)
         | None \<Rightarrow>
             if sv_authUsed s2 \<or> \<not> EqualToken token (sd_AuthToken (sv_cfg s2)) then
               (Inl ErrPermission, plog ((pev LevelWarn EventPluginAuthRejected MethodAuth ''plugin auth token rejected'')
                       \<lparr>ev_Reason := ''used or mismatched token''\<rparr>) s2)
             else
               (let s3 = s2\<lparr>sv_authUsed := True\<rparr>; (pluginID, generationID) = identity ops s3
                in (Inr \<lparr>ar_PluginID = pluginID, ar_Version = co_Version ops (sv_core s3), ar_GenerationID = generationID\<rparr>,
                    plog ((pev [] EventPluginAuthAccepted MethodAuth ''plugin auth accepted'')
                       \<lparr>ev_Details := [(''version'', VString (co_Version ops (sv_core s3)))]\<rparr>) s3)))"

definition server_Capabilities :: "'c core_ops \<Rightarrow> 'c server \<Rightarrow> (goerr + capabilities_response) \<times> 'c server" where
  "server_Capabilities ops s =
     (case requireAuth MethodCapabilities s of
        (Some e, s1) \<Rightarrow> (Inl e, s1)
      | (None, s1) \<Rightarrow>
          (let (pluginID, generationID) = identity ops s1
           in (Inr \<lparr>cr_PluginID = pluginID, cr_Version = co_Version ops (sv_core s1), cr_GenerationID = generationID,
                    cr_Capabilities = sv_capabilities s1\<rparr>,
               plog ((pev [] EventPluginCapabilitiesRead MethodCapabilities ''plugin capabilities reported'')
                       \<lparr>ev_Details := [(''capabilities'', VStrings (sv_capabilities s1))]\<rparr>) s1)))"

text \<open>Run a handler of the plugin's core and log its outcome.\<close>

definition run_handler :: "string \<Rightarrow> ('c \<Rightarrow> (goerr + 'r) \<times> 'c) \<Rightarrow> 'c server \<Rightarrow> (goerr + 'r) \<times> 'c server" where
  "run_handler meth f s =
     (case f (sv_core s) of
        (r, c) \<Rightarrow> (r, logRPC meth (case r of Inl e \<Rightarrow> Some e | Inr _ \<Rightarrow> None) (s\<lparr>sv_core := c\<rparr>)))"

definition unit_handler :: "('c \<Rightarrow> goerr option \<times> 'c) \<Rightarrow> 'c \<Rightarrow> (goerr + unit) \<times> 'c" where
  "unit_handler f c = (case f c of (Some e, c') \<Rightarrow> (Inl e, c') | (None, c') \<Rightarrow> (Inr (), c'))"

definition server_Heartbeat :: "'c core_ops \<Rightarrow> 'c server \<Rightarrow> (goerr + heartbeat_response) \<times> 'c server" where
  "server_Heartbeat ops s =
     (case requireAuth MethodHeartbeat s of
        (Some e, s1) \<Rightarrow> (Inl e, s1)
      | (None, s1) \<Rightarrow> run_handler MethodHeartbeat (co_Heartbeat ops) s1)"

definition server_Shutdown :: "'c core_ops \<Rightarrow> 'c server \<Rightarrow> (goerr + unit) \<times> 'c server" where
  "server_Shutdown ops s =
     (case requireAuth MethodShutdown s of
        (Some e, s1) \<Rightarrow> (Inl e, s1)
      | (None, s1) \<Rightarrow>
          run_handler MethodShutdown (unit_handler (co_Shutdown ops))
            (plog (pev [] EventPluginShutdownCalled MethodShutdown ''plugin shutdown requested'') s1))"

text \<open>\<open>Echo\<close>, \<open>Sleep\<close> and \<open>Crash\<close>: a plugin without the interface answers \<open>rpc.ErrShutdown\<close>.\<close>

definition optional_handler :: "string \<Rightarrow> ('c \<Rightarrow> (goerr + 'r) \<times> 'c) option \<Rightarrow> 'c server \<Rightarrow> (goerr + 'r) \<times> 'c server" where
  "optional_handler meth f s =
     (case requireAuth meth s of
        (Some e, s1) \<Rightarrow> (Inl e, s1)
      | (None, s1) \<Rightarrow>
          (case f of
             None \<Rightarrow> (Inl (Sentinel RpcErrShutdown), logRPC meth (Some (Sentinel RpcErrShutdown)) s1)
           | Some g \<Rightarrow> run_handler meth g s1))"

definition server_Echo :: "'c core_ops \<Rightarrow> string \<Rightarrow> 'c server \<Rightarrow> (goerr + string) \<times> 'c server" where
  "server_Echo ops msg s = optional_handler MethodEcho (map_option (\<lambda>f. f msg) (co_Echo ops)) s"

definition server_Sleep :: "'c core_ops \<Rightarrow> duration \<Rightarrow> 'c server \<Rightarrow> (goerr + unit) \<times> 'c server" where
  "server_Sleep ops d s = optional_handler MethodSleep (map_option (\<lambda>f. unit_handler (f d)) (co_Sleep ops)) s"

definition server_Crash :: "'c core_ops \<Rightarrow> int \<Rightarrow> 'c server \<Rightarrow> (goerr + unit) \<times> 'c server" where
  "server_Crash ops code s = optional_handler MethodCrash (map_option (\<lambda>f. unit_handler (f code)) (co_Crash ops)) s"

section \<open>Serving\<close>

datatype rpc_request =
    AuthReq string | CapabilitiesReq | HeartbeatReq | ShutdownReq | EchoReq string | SleepReq duration | CrashReq int

datatype rpc_reply =
    AuthRep auth_response | CapabilitiesRep capabilities_response | HeartbeatRep heartbeat_response
  | EmptyRep | EchoRep string

definition tag :: "('r \<Rightarrow> rpc_reply) \<Rightarrow> (goerr + 'r) \<times> 'c server \<Rightarrow> (goerr + rpc_reply) \<times> 'c server" where
  "tag f x = (case x of (Inl e, s) \<Rightarrow> (Inl e, s) | (Inr r, s) \<Rightarrow> (Inr (f r), s))"

fun serve :: "'c core_ops \<Rightarrow> rpc_request \<Rightarrow> 'c server \<Rightarrow> (goerr + rpc_reply) \<times> 'c server" where
  "serve ops (AuthReq token) s = tag AuthRep (server_Auth ops token s)"
| "serve ops CapabilitiesReq s = tag CapabilitiesRep (server_Capabilities ops s)"
| "serve ops HeartbeatReq s = tag HeartbeatRep (server_Heartbeat ops s)"
| "serve ops ShutdownReq s = tag (\<lambda>_. EmptyRep) (server_Shutdown ops s)"
| "serve ops (EchoReq msg) s = tag EchoRep (server_Echo ops msg s)"
| "serve ops (SleepReq d) s = tag (\<lambda>_. EmptyRep) (server_Sleep ops d s)"
| "serve ops (CrashReq code) s = tag (\<lambda>_. EmptyRep) (server_Crash ops code s)"

fun serve_all :: "'c core_ops \<Rightarrow> rpc_request list \<Rightarrow> 'c server \<Rightarrow> (goerr + rpc_reply) list \<times> 'c server" where
  "serve_all ops [] s = ([], s)"
| "serve_all ops (q # qs) s = (case serve ops q s of (r, s1) \<Rightarrow> (case serve_all ops qs s1 of (rs, s2) \<Rightarrow> (r # rs, s2)))"

text \<open>
  What \<open>ServeWithConfig\<close> meets: opening and closing the log, listening, registering the service, and how
  accepting ends. The requests are those served before the listener stops.
\<close>

record serve_env =
  sn_pid :: int
  sn_log_open :: "goerr option"
  sn_log_close :: "goerr option"
  sn_sys :: sys_env
  sn_register :: "goerr option"
  sn_accept :: goerr

text \<open>The outcome: error, replies and server if it got as far as serving, logged events, and the files.\<close>

record 'c served =
  sr_err :: "goerr option"
  sr_replies :: "(goerr + rpc_reply) list"
  sr_server :: "'c server option"
  sr_events :: "goerr option event list"
  sr_logger :: "plugin_logger option"
  sr_files :: files
  sr_tree :: fstree

definition not_served :: "goerr \<Rightarrow> files \<Rightarrow> fstree \<Rightarrow> 'c served" where
  "not_served e fs tree = \<lparr>sr_err = Some e, sr_replies = [], sr_server = None, sr_events = [], sr_logger = None,
     sr_files = fs, sr_tree = tree\<rparr>"

definition new_server :: "'c core_ops \<Rightarrow> sdk_config \<Rightarrow> plugin_logger \<Rightarrow> goerr option event list \<Rightarrow> 'c \<Rightarrow> 'c server" where
  "new_server ops cfg l evs c = \<lparr>sv_core = c, sv_cfg = cfg, sv_authUsed = False, sv_capabilities = detectCapabilities ops c,
     sv_logger = Some l, sv_events = evs\<rparr>"

text \<open>Closing a Unix listener removes its socket; the deferred calls close listener and logger.\<close>

definition ServeWithConfig :: "'c core_ops \<Rightarrow> serve_env \<Rightarrow> rpc_request list \<Rightarrow> sdk_config \<Rightarrow> 'c option \<Rightarrow> files \<Rightarrow> fstree
   \<Rightarrow> 'c served" where
  "ServeWithConfig ops env reqs cfg core fs tree =
     (case core of
        None \<Rightarrow> not_served (err ''plugin core is required'') fs tree
      | Some c \<Rightarrow>
          (case NewPluginLogger (sn_pid env) (sn_log_open env) cfg fs of
             (Inl e, fs1) \<Rightarrow> not_served (Wrapf ''create plugin logger: %w'' [] e) fs1 tree
           | (Inr l, fs1) \<Rightarrow>
               (let sock = sd_SocketPath cfg; closed = snd (ClosePluginLogger (sn_log_close env) (Some l));
                    evs = [plugin_event l (pev [] EventPluginBootStarted [] ''plugin boot starting''),
                           plugin_event l ((pev [] EventPluginConfigLoaded [] ''plugin config loaded'')
                             \<lparr>ev_Details := [(''socket_path'', VString sock)]\<rparr>)];
                    failed = (\<lambda>msg e. plugin_event l ((pev LevelError EventPluginBootFailed [] msg)\<lparr>ev_Error := Some e\<rparr>))
                in case ListenUnix (sn_sys env) sock tree of
                     ((Some e, _), tree1) \<Rightarrow>
                       (not_served (Wrapf ''listen unix socket: %w'' [] e) fs1 tree1)
                         \<lparr>sr_events := evs @ [failed ''plugin listener startup failed'' e], sr_logger := closed\<rparr>
                   | ((None, _), tree1) \<Rightarrow>
                       (let c1 = (case co_OnServeListener ops of None \<Rightarrow> c | Some f \<Rightarrow> f c);
                            evs1 = evs @ [plugin_event l ((pev [] EventPluginListenerStarted [] ''plugin listener ready'')
                                             \<lparr>ev_SocketPath := sock\<rparr>)];
                            s0 = new_server ops cfg l evs1 c1
                        in case sn_register env of
                             Some e \<Rightarrow>
                               (not_served (Wrapf ''register rpc service: %w'' [] e) fs1 (tree1(sock := None)))
                                 \<lparr>sr_events := evs1 @ [failed ''rpc service registration failed'' e], sr_logger := closed\<rparr>
                           | None \<Rightarrow>
                               (case serve_all ops reqs s0 of
                                  (rs, s1) \<Rightarrow>
                                    (let s2 = plog ((pev [] EventPluginServeStopped [] ''plugin listener stopped'')
                                                \<lparr>ev_Reason := ''listener closed'', ev_Error := Some (sn_accept env)\<rparr>) s1
                                     in \<lparr>sr_err = None, sr_replies = rs, sr_server = Some s2, sr_events = sv_events s2,
                                         sr_logger = closed, sr_files = fs1, sr_tree = tree1(sock := None)\<rparr>))))))"

definition Serve :: "'c core_ops \<Rightarrow> serve_env \<Rightarrow> (string \<Rightarrow> string) \<Rightarrow> (path \<Rightarrow> goerr option) \<Rightarrow> rpc_request list \<Rightarrow> 'c option \<Rightarrow> files \<Rightarrow> fstree
   \<Rightarrow> 'c served" where
  "Serve ops env getenv rd reqs core fs tree =
     (case LoadConfigFromEnv getenv rd fs of
        Inl e \<Rightarrow> not_served (Wrapf ''load plugin config from env: %w'' [] e) fs tree
      | Inr cfg \<Rightarrow> ServeWithConfig ops env reqs cfg core fs tree)"

section \<open>Template and echo plugins\<close>

record template_plugin =
  tp_PluginID :: string
  tp_GenerationID :: uint64
  tp_VersionName :: string
  tp_StartedAt :: gotime

definition NewTemplate :: "gotime \<Rightarrow> sdk_config \<Rightarrow> string \<Rightarrow> template_plugin" where
  "NewTemplate now cfg version = \<lparr>tp_PluginID = sd_PluginID cfg, tp_GenerationID = sd_GenerationID cfg,
     tp_VersionName = (if version = [] then ''0.1.0'' else version), tp_StartedAt = now\<rparr>"

text \<open>\<open>uptime\<close> is \<open>int64(time.Since(t).Seconds())\<close>, the whole seconds since \<open>t\<close> on the process's clock.\<close>

definition template_Heartbeat :: "(gotime \<Rightarrow> int) \<Rightarrow> template_plugin \<Rightarrow> (goerr + heartbeat_response) \<times> template_plugin" where
  "template_Heartbeat uptime p = (Inr (zero_heartbeat\<lparr>hr_PluginID := tp_PluginID p, hr_Version := tp_VersionName p,
     hr_GenerationID := tp_GenerationID p, hr_UptimeSeconds := uptime (tp_StartedAt p), hr_Status := StatusHealthy\<rparr>), p)"

definition template_ops :: "(gotime \<Rightarrow> int) \<Rightarrow> template_plugin core_ops" where
  "template_ops uptime = \<lparr>co_Version = tp_VersionName, co_Heartbeat = template_Heartbeat uptime,
     co_Shutdown = (\<lambda>p. (None, p)), co_Echo = None, co_Sleep = None, co_Crash = None, co_Capabilities = None,
     co_OnAuthAttempt = None, co_OnServeListener = None, co_Identity = None\<rparr>"

text \<open>\<open>Example_minimal\<close> (\<open>example_minimal.go\<close>): the template on its own; an error of either step becomes a panic.\<close>

definition Example_minimal :: "(gotime \<Rightarrow> int) \<Rightarrow> gotime \<Rightarrow> serve_env \<Rightarrow> (string \<Rightarrow> string) \<Rightarrow> (path \<Rightarrow> goerr option) \<Rightarrow> rpc_request list
   \<Rightarrow> files \<Rightarrow> fstree \<Rightarrow> template_plugin served" where
  "Example_minimal uptime now env getenv rd reqs fs tree =
     (case LoadConfigFromEnv getenv rd fs of
        Inl e \<Rightarrow> not_served e fs tree
      | Inr cfg \<Rightarrow> ServeWithConfig (template_ops uptime) env reqs cfg (Some (NewTemplate now cfg ''0.1.0'')) fs tree)"

text \<open>What the \<open>main\<close> functions make of it: the exit code of the process, 2 for a panic.\<close>

definition main_exit :: "'c served \<Rightarrow> int" where
  "main_exit r = (if sr_err r = None then 0 else 2)"

text \<open>
  The echo plugin (\<open>src/src/examples/rpcplugin-echo/main.go\<close>). \<open>Sleep\<close> and \<open>Shutdown\<close> differ from the template in timing
  and in the exit of the process only; a \<open>Crash\<close> ends the process, so no reply follows and its handler
  never returns: the kernel sees that call fail in transport.
\<close>

definition echo_ops :: "(gotime \<Rightarrow> int) \<Rightarrow> template_plugin core_ops" where
  "echo_ops uptime = (template_ops uptime)\<lparr>co_Echo := Some (\<lambda>msg p. (Inr msg, p)), co_Sleep := Some (\<lambda>d p. (None, p)),
     co_Crash := Some (\<lambda>code p. (None, p))\<rparr>"

section \<open>Lemmas\<close>

lemma plog_sel [simp]:
  "sv_core (plog e s) = sv_core s" "sv_cfg (plog e s) = sv_cfg s" "sv_authUsed (plog e s) = sv_authUsed s"
  "sv_capabilities (plog e s) = sv_capabilities s" "sv_logger (plog e s) = sv_logger s"
  by (simp_all add: plog_def split: option.splits)

lemma logRPC_sel [simp]:
  "sv_core (logRPC m e s) = sv_core s" "sv_cfg (logRPC m e s) = sv_cfg s" "sv_authUsed (logRPC m e s) = sv_authUsed s"
  "sv_capabilities (logRPC m e s) = sv_capabilities s" "sv_logger (logRPC m e s) = sv_logger s"
  by (simp_all add: logRPC_def split: option.splits)

lemma requireAuth_cases:
  "sv_authUsed s \<Longrightarrow> requireAuth meth s = (None, s)"
  "\<not> sv_authUsed s \<Longrightarrow> \<exists>s1. requireAuth meth s = (Some ErrPermission, s1) \<and> sv_core s1 = sv_core s \<and> sv_cfg s1 = sv_cfg s
     \<and> \<not> sv_authUsed s1 \<and> sv_capabilities s1 = sv_capabilities s"
  by (simp_all add: requireAuth_def)

definition accepted :: "rpc_request \<Rightarrow> goerr + rpc_reply \<Rightarrow> bool" where
  "accepted q r \<longleftrightarrow> (case (q, r) of (AuthReq _, Inr _) \<Rightarrow> True | _ \<Rightarrow> False)"

lemma accepted_simps [simp]:
  "accepted (AuthReq t) r = (case r of Inr _ \<Rightarrow> True | Inl _ \<Rightarrow> False)" "\<not> accepted CapabilitiesReq r" "\<not> accepted HeartbeatReq r"
  "\<not> accepted ShutdownReq r" "\<not> accepted (EchoReq m) r" "\<not> accepted (SleepReq d) r" "\<not> accepted (CrashReq k) r"
  by (simp_all add: accepted_def split: sum.splits)

lemma server_Auth_step:
  assumes a: "server_Auth ops t s = (r, s1)"
  shows "sv_cfg s1 = sv_cfg s \<and> sv_capabilities s1 = sv_capabilities s
    \<and> (case r of Inr _ \<Rightarrow> \<not> sv_authUsed s \<and> sv_authUsed s1 \<and> t = sd_AuthToken (sv_cfg s)
       | Inl _ \<Rightarrow> sv_authUsed s1 = sv_authUsed s)
    \<and> (co_OnAuthAttempt ops = None \<longrightarrow> sv_core s1 = sv_core s)"
proof (cases "co_OnAuthAttempt ops")
  case None
  show ?thesis using a None unfolding server_Auth_def
    by (simp add: Let_def EqualToken_iff split: if_split_asm prod.split_asm) (elim conjE; hypsubst; simp)+
next
  case (Some f)
  obtain e c where f: "f t (sv_core s) = (e, c)" by (cases "f t (sv_core s)")
  show ?thesis using a Some f unfolding server_Auth_def
    by (cases e; simp add: Let_def EqualToken_iff split: if_split_asm prod.split_asm) (elim conjE; hypsubst; simp)+
qed

lemma run_handler_sel:
  "run_handler meth f s = (r, s1) \<Longrightarrow> sv_cfg s1 = sv_cfg s \<and> sv_authUsed s1 = sv_authUsed s \<and> sv_capabilities s1 = sv_capabilities s"
  by (auto simp: run_handler_def split: prod.splits)

lemma serve_authenticated:
  assumes "sv_authUsed s" and "serve ops q s = (r, s1)"
  shows "\<not> accepted q r \<and> sv_authUsed s1 \<and> sv_cfg s1 = sv_cfg s"
proof (cases q)
  case (AuthReq t)
  obtain r1 s2 where a: "server_Auth ops t s = (r1, s2)" by (cases "server_Auth ops t s")
  from server_Auth_step [OF a] show ?thesis using assms AuthReq a by (cases r1) (auto simp: tag_def)
qed (use assms in \<open>auto simp: tag_def requireAuth_cases server_Capabilities_def server_Heartbeat_def server_Shutdown_def
      server_Echo_def server_Sleep_def server_Crash_def optional_handler_def Let_def
      dest: run_handler_sel split: prod.splits sum.splits option.splits\<close>)

lemma serve_unauthenticated:
  assumes "\<not> sv_authUsed s" and "serve ops q s = (r, s1)"
  shows "sv_cfg s1 = sv_cfg s \<and> (sv_authUsed s1 \<longleftrightarrow> accepted q r)
    \<and> (case q of AuthReq t \<Rightarrow> accepted q r \<longrightarrow> t = sd_AuthToken (sv_cfg s) | _ \<Rightarrow> r = Inl ErrPermission)
    \<and> (co_OnAuthAttempt ops = None \<longrightarrow> sv_core s1 = sv_core s)"
proof (cases q)
  case (AuthReq t)
  obtain r1 s2 where a: "server_Auth ops t s = (r1, s2)" by (cases "server_Auth ops t s")
  from server_Auth_step [OF a] show ?thesis using assms AuthReq a by (cases r1) (auto simp: tag_def)
qed (use assms requireAuth_cases(2) [OF assms(1)] in \<open>auto simp: tag_def requireAuth_def server_Capabilities_def server_Heartbeat_def
      server_Shutdown_def server_Echo_def server_Sleep_def server_Crash_def optional_handler_def\<close>)

text \<open>The server refines a gate: a single bit that an accepted authentication sets and nothing resets.\<close>

interpretation gate: simulation "\<lambda>_. True" sv_authUsed "serve ops" "\<lambda>q r a. a \<or> accepted q r" for ops :: "'c core_ops"
proof unfold_locales
  fix s q r and s' :: "'c server"
  assume "serve ops q s = (r, s')"
  then show "sv_authUsed s' = (sv_authUsed s \<or> accepted q r)"
    using serve_authenticated [of s ops q r s'] serve_unauthenticated [of s ops q r s'] by (cases "sv_authUsed s") simp_all
qed simp

lemma serve_all_authenticated:
  "sv_authUsed s \<Longrightarrow> serve_all ops qs s = (rs, s') \<Longrightarrow> length rs = length qs \<and> (\<forall>i < length qs. \<not> accepted (qs ! i) (rs ! i)) \<and> sv_authUsed s'"
proof (induction qs arbitrary: s rs)
  case (Cons q qs)
  obtain r s1 where a: "serve ops q s = (r, s1)" by (cases "serve ops q s")
  obtain rs1 where b: "serve_all ops qs s1 = (rs1, s')" "rs = r # rs1" using Cons.prems a by (auto split: prod.splits)
  note st = serve_authenticated [OF Cons.prems(1) a]
  note ih = Cons.IH [OF _ b(1)]
  show ?case
  proof (intro conjI allI impI)
    fix i assume "i < length (q # qs)"
    then show "\<not> accepted ((q # qs) ! i) (rs ! i)" using st ih b(2) by (cases i) auto
  qed (use st ih b(2) in auto)
qed simp

lemma serve_all_crun: "serve_all ops qs s = gate.crun ops qs s"
  by (induction qs arbitrary: s) simp_all

lemma fold_accepted:
  "fold (\<lambda>(q, r) a. a \<or> accepted q r) h a \<longleftrightarrow> a \<or> (\<exists>(q, r) \<in> set h. accepted q r)"
  by (induction h arbitrary: a) auto

lemma serve_all_gate:
  assumes "serve_all ops qs s = (rs, s')"
  shows "sv_authUsed s' \<longleftrightarrow> sv_authUsed s \<or> (\<exists>i < length qs. accepted (qs ! i) (rs ! i))"
proof -
  note r = gate.run_simulates [OF TrueI assms [unfolded serve_all_crun]]
  then have "sv_authUsed s' \<longleftrightarrow> sv_authUsed s \<or> (\<exists>(q, r) \<in> set (zip qs rs). accepted q r)"
    by (simp add: gate.arun_def fold_accepted)
  then show ?thesis using r by (auto simp: set_zip)
qed

lemma auth_gate_replies:
  assumes "\<not> sv_authUsed s" and "serve_all ops qs s = (rs, s')"
  shows "length rs = length qs
    \<and> (\<forall>i < length qs. (\<forall>j < i. \<not> accepted (qs ! j) (rs ! j)) \<longrightarrow>
         (case qs ! i of AuthReq t \<Rightarrow> accepted (qs ! i) (rs ! i) \<longrightarrow> t = sd_AuthToken (sv_cfg s)
          | _ \<Rightarrow> rs ! i = Inl ErrPermission))
    \<and> (\<forall>i j. i < j \<longrightarrow> j < length qs \<longrightarrow> accepted (qs ! i) (rs ! i) \<longrightarrow> \<not> accepted (qs ! j) (rs ! j))
    \<and> (co_OnAuthAttempt ops = None \<longrightarrow> (\<forall>i < length qs. \<not> accepted (qs ! i) (rs ! i)) \<longrightarrow> sv_core s' = sv_core s)"
  using assms
proof (induction qs arbitrary: s rs)
  case (Cons q qs)
  obtain r s1 where a: "serve ops q s = (r, s1)" by (cases "serve ops q s")
  obtain rs1 where b: "serve_all ops qs s1 = (rs1, s')" "rs = r # rs1" using Cons.prems a by (auto split: prod.splits)
  note st = serve_unauthenticated [OF Cons.prems(1) a]
  show ?case
  proof (cases "accepted q r")
    case True
    note later = serve_all_authenticated [OF _ b(1)]
    show ?thesis
    proof (intro conjI allI impI)
      show "length rs = length (q # qs)" using later st True b(2) by simp
      show "case (q # qs) ! i of AuthReq t \<Rightarrow> accepted ((q # qs) ! i) (rs ! i) \<longrightarrow> t = sd_AuthToken (sv_cfg s)
          | _ \<Rightarrow> rs ! i = Inl ErrPermission"
        if "i < length (q # qs)" "\<forall>j < i. \<not> accepted ((q # qs) ! j) (rs ! j)" for i
      proof -
        have "i = 0" using that(2) True b(2) by (cases i) force+
        then show ?thesis using b(2) conjunct1 [OF conjunct2 [OF conjunct2 [OF st]]] by (cases q) simp_all
      qed
      show "\<not> accepted ((q # qs) ! j) (rs ! j)" if "i < j" "j < length (q # qs)" for i j
        using that later st True b(2) by (cases j) auto
      show "sv_core s' = sv_core s" if "\<forall>i < length (q # qs). \<not> accepted ((q # qs) ! i) (rs ! i)"
        using that True b(2) by force
    qed
  next
    case False
    note ih = Cons.IH [OF _ b(1)]
    have n1: "\<not> sv_authUsed s1" using st False by simp
    show ?thesis
    proof (intro conjI allI impI)
      show "length rs = length (q # qs)" using ih [OF n1] b(2) by simp
      show "case (q # qs) ! i of AuthReq t \<Rightarrow> accepted ((q # qs) ! i) (rs ! i) \<longrightarrow> t = sd_AuthToken (sv_cfg s)
          | _ \<Rightarrow> rs ! i = Inl ErrPermission"
        if h: "i < length (q # qs)" "\<forall>j < i. \<not> accepted ((q # qs) ! j) (rs ! j)" for i
      proof (cases i)
        case 0
        then show ?thesis using st b(2) by (cases q) simp_all
      next
        case (Suc k)
        have "\<forall>j < k. \<not> accepted (qs ! j) (rs1 ! j)" using h(2) Suc b(2) by fastforce
        then show ?thesis using conjunct1 [OF conjunct2 [OF ih [OF n1]], rule_format, of k] h(1) Suc b(2) st by (cases "qs ! k") simp_all
      qed
      show "\<not> accepted ((q # qs) ! j) (rs ! j)" if h: "i < j" "j < length (q # qs)" "accepted ((q # qs) ! i) (rs ! i)" for i j
      proof -
        obtain i' j' where "i = Suc i'" "j = Suc j'" using h False b(2) by (cases i; cases j) auto
        then show ?thesis using conjunct1 [OF conjunct2 [OF conjunct2 [OF ih [OF n1]]]] h b(2) by simp
      qed
      show "sv_core s' = sv_core s" if "co_OnAuthAttempt ops = None" "\<forall>i < length (q # qs). \<not> accepted ((q # qs) ! i) (rs ! i)"
      proof -
        have "\<forall>i < length qs. \<not> accepted (qs ! i) (rs1 ! i)" using that(2) b(2) by fastforce
        then show ?thesis using conjunct2 [OF conjunct2 [OF conjunct2 [OF ih [OF n1]]]] that(1) st by simp
      qed
    qed
  qed
qed simp

text \<open>
  The gate opened: what the plugin itself answers to a request, as a function of its core alone, with its
  default identity and reported capabilities. A further authentication only runs the auth hook.
\<close>

fun plugin_answer :: "'c core_ops \<Rightarrow> sdk_config \<Rightarrow> string list \<Rightarrow> rpc_request \<Rightarrow> 'c \<Rightarrow> (goerr + rpc_reply) \<times> 'c" where
  "plugin_answer ops cfg caps (AuthReq t) c =
     (case co_OnAuthAttempt ops of
        None \<Rightarrow> (Inl ErrPermission, c)
      | Some f \<Rightarrow> (case f t c of (Some e, c') \<Rightarrow> (Inl e, c') | (None, c') \<Rightarrow> (Inl ErrPermission, c')))"
| "plugin_answer ops cfg caps CapabilitiesReq c =
     (let (pid, gen) = (case co_Identity ops of Some f \<Rightarrow> f c | None \<Rightarrow> (sd_PluginID cfg, sd_GenerationID cfg))
      in (Inr (CapabilitiesRep \<lparr>cr_PluginID = pid, cr_Version = co_Version ops c, cr_GenerationID = gen,
            cr_Capabilities = caps\<rparr>), c))"
| "plugin_answer ops cfg caps HeartbeatReq c = apfst (map_sum id HeartbeatRep) (co_Heartbeat ops c)"
| "plugin_answer ops cfg caps ShutdownReq c = apfst (map_sum id (\<lambda>_. EmptyRep)) (unit_handler (co_Shutdown ops) c)"
| "plugin_answer ops cfg caps (EchoReq msg) c =
     (case co_Echo ops of None \<Rightarrow> (Inl (Sentinel RpcErrShutdown), c) | Some f \<Rightarrow> apfst (map_sum id EchoRep) (f msg c))"
| "plugin_answer ops cfg caps (SleepReq d) c =
     (case co_Sleep ops of None \<Rightarrow> (Inl (Sentinel RpcErrShutdown), c)
      | Some f \<Rightarrow> apfst (map_sum id (\<lambda>_. EmptyRep)) (unit_handler (f d) c))"
| "plugin_answer ops cfg caps (CrashReq code) c =
     (case co_Crash ops of None \<Rightarrow> (Inl (Sentinel RpcErrShutdown), c)
      | Some f \<Rightarrow> apfst (map_sum id (\<lambda>_. EmptyRep)) (unit_handler (f code) c))"

fun plugin_answers :: "'c core_ops \<Rightarrow> sdk_config \<Rightarrow> string list \<Rightarrow> rpc_request list \<Rightarrow> 'c \<Rightarrow> (goerr + rpc_reply) list" where
  "plugin_answers ops cfg caps [] c = []"
| "plugin_answers ops cfg caps (q # qs) c =
     (case plugin_answer ops cfg caps q c of (r, c') \<Rightarrow> r # plugin_answers ops cfg caps qs c')"

lemma serve_answers:
  assumes "sv_authUsed s" and "serve ops q s = (r, s1)"
  shows "plugin_answer ops (sv_cfg s) (sv_capabilities s) q (sv_core s) = (r, sv_core s1)
    \<and> sv_authUsed s1 \<and> sv_cfg s1 = sv_cfg s \<and> sv_capabilities s1 = sv_capabilities s"
proof (cases q)
  case (AuthReq t)
  show ?thesis
    using assms AuthReq
    by (cases "co_OnAuthAttempt ops") (auto simp: tag_def server_Auth_def Let_def split: prod.splits option.splits)
qed (use assms in \<open>auto simp: tag_def requireAuth_cases server_Capabilities_def server_Heartbeat_def server_Shutdown_def
      server_Echo_def server_Sleep_def server_Crash_def optional_handler_def run_handler_def identity_def Let_def
      split: prod.splits sum.splits option.splits\<close>)

lemma serve_all_answers:
  "sv_authUsed s \<Longrightarrow> serve_all ops qs s = (rs, s') \<Longrightarrow> rs = plugin_answers ops (sv_cfg s) (sv_capabilities s) qs (sv_core s)"
proof (induction qs arbitrary: s rs)
  case (Cons q qs)
  obtain r s1 where a: "serve ops q s = (r, s1)" by (cases "serve ops q s")
  obtain rs1 where b: "serve_all ops qs s1 = (rs1, s')" "rs = r # rs1" using Cons.prems a by (auto split: prod.splits)
  show ?case using serve_answers [OF Cons.prems(1) a] Cons.IH [OF _ b(1)] b(2) by simp
qed simp

lemma served_after_auth:
  assumes "\<not> sv_authUsed s" and "serve_all ops qs s = (rs, s')" and "i < length qs" and "accepted (qs ! i) (rs ! i)"
  shows "\<exists>c. drop (Suc i) rs = plugin_answers ops (sv_cfg s) (sv_capabilities s) (drop (Suc i) qs) c
    \<and> (co_OnAuthAttempt ops = None \<longrightarrow> c = sv_core s)"
  using assms
proof (induction qs arbitrary: s rs i)
  case (Cons q qs)
  obtain r s1 where a: "serve ops q s = (r, s1)" by (cases "serve ops q s")
  obtain rs1 where b: "serve_all ops qs s1 = (rs1, s')" "rs = r # rs1" using Cons.prems a by (auto split: prod.splits)
  note st = serve_unauthenticated [OF Cons.prems(1) a]
  have caps: "sv_capabilities s1 = sv_capabilities s"
  proof (cases q)
    case (AuthReq t)
    obtain r1 s2 where t: "server_Auth ops t s = (r1, s2)" by (cases "server_Auth ops t s")
    from server_Auth_step [OF t] show ?thesis using a AuthReq t by (cases r1) (auto simp: tag_def)
  qed (use a Cons.prems(1) in \<open>auto simp: tag_def requireAuth_def server_Capabilities_def server_Heartbeat_def
      server_Shutdown_def server_Echo_def server_Sleep_def server_Crash_def optional_handler_def\<close>)
  show ?case
  proof (cases "accepted q r")
    case True
    have "i = 0"
    proof (rule ccontr)
      assume "i \<noteq> 0"
      then obtain k where "i = Suc k" by (cases i) auto
      then show False using serve_all_authenticated [OF _ b(1)] st True Cons.prems(3,4) b(2) by auto
    qed
    then show ?thesis using serve_all_answers [OF _ b(1)] st True caps b(2) by auto
  next
    case False
    then obtain k where k: "i = Suc k" using Cons.prems(4) b(2) by (cases i) auto
    have n1: "\<not> sv_authUsed s1" using st False by simp
    from Cons.IH [OF n1 b(1), of k] show ?thesis using Cons.prems(3,4) k b(2) st caps by auto
  qed
qed simp

section \<open>Properties\<close>

text \<open>
  C21: the authentication gate. In any sequence of requests to a fresh server: every request before the
  first accepted authentication is refused with a permission error, unless it is an authentication with
  exactly the configured token; at most one authentication is ever accepted, so the bootstrap token works
  once; as long as none is accepted the plugin's own code has not run (apart from its auth hook); the
  server counts as authenticated afterwards exactly if one was accepted; and from then on every request is
  served: the replies are exactly those the plugin's own handlers give, one after the other.
\<close>

theorem auth_gate:
  assumes "\<not> sv_authUsed s" and "serve_all ops qs s = (rs, s')"
  shows "length rs = length qs
    \<and> (\<forall>i < length qs. (\<forall>j < i. \<not> accepted (qs ! j) (rs ! j)) \<longrightarrow>
         (case qs ! i of AuthReq t \<Rightarrow> accepted (qs ! i) (rs ! i) \<longrightarrow> t = sd_AuthToken (sv_cfg s)
          | _ \<Rightarrow> rs ! i = Inl ErrPermission))
    \<and> (\<forall>i j. i < j \<longrightarrow> j < length qs \<longrightarrow> accepted (qs ! i) (rs ! i) \<longrightarrow> \<not> accepted (qs ! j) (rs ! j))
    \<and> (co_OnAuthAttempt ops = None \<longrightarrow> (\<forall>i < length qs. \<not> accepted (qs ! i) (rs ! i)) \<longrightarrow> sv_core s' = sv_core s)
    \<and> (sv_authUsed s' \<longleftrightarrow> (\<exists>i < length qs. accepted (qs ! i) (rs ! i)))
    \<and> (\<forall>i < length qs. accepted (qs ! i) (rs ! i) \<longrightarrow>
         (\<exists>c. drop (Suc i) rs = plugin_answers ops (sv_cfg s) (sv_capabilities s) (drop (Suc i) qs) c
            \<and> (co_OnAuthAttempt ops = None \<longrightarrow> c = sv_core s)))"
  using auth_gate_replies [OF assms] serve_all_gate [OF assms(2)] served_after_auth [OF assms] assms(1)
  by (intro conjI; simp)

definition sample_sdk_config :: sdk_config where
  "sample_sdk_config = \<lparr>sd_SocketPath = ''/run/p.sock'', sd_PluginID = ''echo'', sd_GenerationID = 1, sd_AuthToken = ''secret''\<rparr>"

definition sample_server :: "template_plugin server" where
  "sample_server = \<lparr>sv_core = NewTemplate 0 sample_sdk_config [], sv_cfg = sample_sdk_config, sv_authUsed = False,
     sv_capabilities = [''heartbeat'', ''shutdown'', ''echo''], sv_logger = None, sv_events = []\<rparr>"

definition sample_requests :: "rpc_request list" where
  "sample_requests = [HeartbeatReq, AuthReq ''guess'', AuthReq ''secret'', EchoReq ''hi'', AuthReq ''secret'']"

lemma sample_served:
  "\<not> sv_authUsed sample_server \<and>
   fst (serve_all (echo_ops (\<lambda>_. 0)) sample_requests sample_server)
     = [Inl ErrPermission, Inl ErrPermission, Inr (AuthRep \<lparr>ar_PluginID = ''echo'', ar_Version = ''0.1.0'', ar_GenerationID = 1\<rparr>),
        Inr (EchoRep ''hi''), Inl ErrPermission]"
  by code_simp

theorem auth_gate_witness:
  "let rs = fst (serve_all (echo_ops (\<lambda>_. 0)) sample_requests sample_server) in
     length rs = length sample_requests \<and> rs ! 0 = Inl ErrPermission \<and> accepted (sample_requests ! 2) (rs ! 2)
     \<and> \<not> accepted (sample_requests ! 4) (rs ! 4)
     \<and> drop 3 rs = [Inr (EchoRep ''hi''), Inl ErrPermission]"
proof -
  let ?rs = "fst (serve_all (echo_ops (\<lambda>_. 0)) sample_requests sample_server)"
  let ?s = "snd (serve_all (echo_ops (\<lambda>_. 0)) sample_requests sample_server)"
  note g = auth_gate [OF conjunct1 [OF sample_served], of "echo_ops (\<lambda>_. 0)" sample_requests ?rs ?s, simplified]
  have two: "accepted (sample_requests ! 2) (?rs ! 2)"
    unfolding conjunct2 [OF sample_served] by (simp add: sample_requests_def)
  have len: "length sample_requests = 5" by (simp add: sample_requests_def)
  have "\<not> accepted (sample_requests ! 4) (?rs ! 4)"
    by (rule conjunct1 [OF conjunct2 [OF conjunct2 [OF g]], rule_format, of 2]) (use two len in simp_all)
  moreover have "?rs ! 0 = Inl ErrPermission"
    using conjunct1 [OF conjunct2 [OF g], rule_format, of 0] len by (simp add: sample_requests_def)
  moreover have "drop 3 ?rs = [Inr (EchoRep ''hi''), Inl ErrPermission]"
  proof -
    obtain c where "drop (Suc 2) ?rs = plugin_answers (echo_ops (\<lambda>_. 0)) (sv_cfg sample_server) (sv_capabilities sample_server)
        (drop (Suc 2) sample_requests) c"
      using conjunct2 [OF conjunct2 [OF conjunct2 [OF conjunct2 [OF conjunct2 [OF g]]]], rule_format, of 2] two len by auto
    then show ?thesis by (simp add: sample_requests_def echo_ops_def template_ops_def numeral_3_eq_3 eval_nat_numeral)
  qed
  ultimately show ?thesis using g two by (simp add: Let_def)
qed

end
