(* ===== verification/Bootstrap.thy ===== *)
theory Bootstrap
  imports Plugin_Sdk Manager_Calls
begin

text \<open>
  Kernel and plugin together: the environment the manager gives the process it spawns, read back by the
  SDK of the plugin, and the handshake the manager then performs against the SDK's RPC server.
\<close>

section \<open>The SDK at the other end of the connection\<close>

text \<open>
  A server method seen through \<open>net/rpc\<close>: the reply, or an \<open>rpc.ServerError\<close> with the text of the error
  the method returned. \<open>etext\<close> is \<open>error.Error\<close>.
\<close>

definition wire :: "(goerr \<Rightarrow> string) \<Rightarrow> (goerr + 'r) \<Rightarrow> 'r rpc_outcome" where
  "wire etext r = (case r of Inl e \<Rightarrow> CallErr (ServerError (etext e)) | Inr x \<Rightarrow> Reply x)"

text \<open>
  A start whose process runs the SDK with core \<open>c\<close>: it reads its configuration from the environment it was
  given and from the token file the manager has just written, and then answers the two calls of the handshake
  in the order the manager makes them. If it cannot load its configuration no dial attempt ever connects.
\<close>

definition sdk_start :: "(goerr \<Rightarrow> string) \<Rightarrow> 'c core_ops \<Rightarrow> 'c \<Rightarrow> plugin_logger \<Rightarrow> (path \<Rightarrow> goerr option) \<Rightarrow> start_env \<Rightarrow> manager \<Rightarrow> start_env" where
  "sdk_start etext ops c l rd env m =
     (case NewToken (se_rand env) of
        Inl _ \<Rightarrow> env
      | Inr t \<Rightarrow>
          (case LoadConfigFromEnv (getenv_of (plugin_env (se_getenv env) (mg_gen m + 1) m)) rd ((w_files m)(mg_auth m \<mapsto> t)) of
             Inl _ \<Rightarrow> env\<lparr>se_dial := (\<lambda>_. (0, False))\<rparr>
           | Inr cfg \<Rightarrow>
               (let s = new_server ops cfg l [] c
                in env\<lparr>se_auth := (\<lambda>tok. wire etext (fst (server_Auth ops tok s))),
                       se_caps := wire etext (fst (server_Capabilities ops (snd (server_Auth ops t s))))\<rparr>)))"

section \<open>Lemmas\<close>

lemma join_with_nonempty: "f \<noteq> [] \<Longrightarrow> join_with sep (ws @ [f]) \<noteq> []"
  by (induction ws rule: induct_list012) simp_all

lemma id_path_nonempty:
  assumes "root \<noteq> []" and "pluginIDPattern p"
  shows "SocketPath root p \<noteq> []" "AuthPath root p \<noteq> []"
  using Join_entry_below [OF assms(1) pattern_plain [OF assms(2)]]
  by (simp_all add: SocketPath_def AuthPath_def entry_below_def join_with_nonempty)

lemma getenv_plugin_env:
  "getenv_of (plugin_env ge g m) EnvSocket = mg_socket m" "getenv_of (plugin_env ge g m) EnvPluginID = mg_id m"
  "getenv_of (plugin_env ge g m) EnvGeneration = dec (unat g)" "getenv_of (plugin_env ge g m) EnvAuthFile = mg_auth m"
  by (simp_all add: plugin_env_def)

lemma LoadConfig_of_plugin_env:
  assumes "cf_RuntimeDir (mg_cfg m) \<noteq> []" and "pluginIDPattern (mg_id m)" and "rd (mg_auth m) = None" and "fs (mg_auth m) = Some t"
  shows "LoadConfigFromEnv (getenv_of (plugin_env ge g m)) rd fs
    = Inr \<lparr>sd_SocketPath = mg_socket m, sd_PluginID = mg_id m, sd_GenerationID = g, sd_AuthToken = t\<rparr>"
proof -
  have "mg_socket m \<noteq> []" "mg_auth m \<noteq> []" using id_path_nonempty [OF assms(1,2)] by (simp_all add: mg_socket_def mg_auth_def)
  moreover have "mg_id m \<noteq> []" using pattern_head [OF assms(2)] by simp
  ultimately show ?thesis
    unfolding LoadConfigFromEnv_def getenv_plugin_env Let_def ParseUint_dec
    by (simp add: dec_nonempty ReadFile_def assms(3,4))
qed

lemma server_Auth_accepts:
  assumes "co_OnAuthAttempt ops = None" and "co_Identity ops = None"
  shows "fst (server_Auth ops (sd_AuthToken cfg) (new_server ops cfg l evs c))
      = Inr \<lparr>ar_PluginID = sd_PluginID cfg, ar_Version = co_Version ops c, ar_GenerationID = sd_GenerationID cfg\<rparr>"
    and "fst (server_Capabilities ops (snd (server_Auth ops (sd_AuthToken cfg) (new_server ops cfg l evs c))))
      = Inr \<lparr>cr_PluginID = sd_PluginID cfg, cr_Version = co_Version ops c, cr_GenerationID = sd_GenerationID cfg,
             cr_Capabilities = detectCapabilities ops c\<rparr>"
  using assms
  by (simp_all add: server_Auth_def server_Capabilities_def new_server_def identity_def requireAuth_def EqualToken_iff Let_def)

lemma sdk_start_answers:
  assumes "cf_RuntimeDir (mg_cfg m) \<noteq> []" and "pluginIDPattern (mg_id m)" and "rd (mg_auth m) = None"
    and "co_OnAuthAttempt ops = None" and "co_Identity ops = None" and "NewToken (se_rand env) = Inr t"
  shows "se_auth (sdk_start etext ops c l rd env m) t
      = Reply \<lparr>ar_PluginID = mg_id m, ar_Version = co_Version ops c, ar_GenerationID = mg_gen m + 1\<rparr>"
    and "se_caps (sdk_start etext ops c l rd env m)
      = Reply \<lparr>cr_PluginID = mg_id m, cr_Version = co_Version ops c, cr_GenerationID = mg_gen m + 1,
          cr_Capabilities = detectCapabilities ops c\<rparr>"
    and "\<exists>f k. sdk_start etext ops c l rd env m = env\<lparr>se_auth := f, se_caps := k\<rparr>"
proof -
  let ?cfg = "\<lparr>sd_SocketPath = mg_socket m, sd_PluginID = mg_id m, sd_GenerationID = mg_gen m + 1, sd_AuthToken = t\<rparr>"
  have cfg: "LoadConfigFromEnv (getenv_of (plugin_env (se_getenv env) (mg_gen m + 1) m)) rd ((w_files m)(mg_auth m \<mapsto> t)) = Inr ?cfg"
    using assms(1-3) by (intro LoadConfig_of_plugin_env) simp_all
  note a = server_Auth_accepts [OF assms(4,5), of ?cfg l "[]" c, simplified]
  show "se_auth (sdk_start etext ops c l rd env m) t
      = Reply \<lparr>ar_PluginID = mg_id m, ar_Version = co_Version ops c, ar_GenerationID = mg_gen m + 1\<rparr>"
    and "se_caps (sdk_start etext ops c l rd env m)
      = Reply \<lparr>cr_PluginID = mg_id m, cr_Version = co_Version ops c, cr_GenerationID = mg_gen m + 1,
          cr_Capabilities = detectCapabilities ops c\<rparr>"
    by (simp_all add: sdk_start_def assms(6) cfg a wire_def Let_def)
  show "\<exists>f k. sdk_start etext ops c l rd env m = env\<lparr>se_auth := f, se_caps := k\<rparr>"
    by (auto simp: sdk_start_def assms(6) cfg Let_def)
qed

section \<open>Properties\<close>

text \<open>
  The environment round trip: whatever runtime directory, valid plugin id and generation (any 64-bit
  value, printed in decimal) the manager encodes into the variables of the child process, the SDK reads back
  exactly: socket, id, generation, and the token as the bytes of the file the manager wrote, whatever
  behaviour variables are passed through as well.
\<close>

theorem plugin_env_roundtrip:
  assumes "cf_RuntimeDir (mg_cfg m) \<noteq> []" and "ValidatePluginID (mg_id m) = None"
    and "rd (mg_auth m) = None" and "fs (mg_auth m) = Some t"
  shows "LoadConfigFromEnv (getenv_of (plugin_env ge g m)) rd fs
    = Inr \<lparr>sd_SocketPath = mg_socket m, sd_PluginID = mg_id m, sd_GenerationID = g, sd_AuthToken = t\<rparr>"
  using assms LoadConfig_of_plugin_env by (simp add: ValidatePluginID_None_iff)

theorem plugin_env_roundtrip_witness:
  "LoadConfigFromEnv (getenv_of (plugin_env (\<lambda>_. ''x'') 18446744073709551615 sample_idle)) (\<lambda>_. None) [''/r/echo.auth'' \<mapsto> sample_token]
   = Inr \<lparr>sd_SocketPath = ''/r/echo.sock'', sd_PluginID = ''echo'', sd_GenerationID = 18446744073709551615, sd_AuthToken = sample_token\<rparr>"
proof -
  have paths: "mg_auth sample_idle = ''/r/echo.auth''" "mg_socket sample_idle = ''/r/echo.sock''"
    "cf_RuntimeDir (mg_cfg sample_idle) = ''/r''" "mg_id sample_idle = ''echo''"
    by code_simp+
  have "ValidatePluginID ''echo'' = None" by code_simp
  then show ?thesis using plugin_env_roundtrip [of sample_idle "\<lambda>_. None" "[''/r/echo.auth'' \<mapsto> sample_token]" sample_token "\<lambda>_. ''x''"
      18446744073709551615] by (simp add: paths)
qed

text \<open>
  C22: end to end: an open manager with nothing attached, started against a process that runs the SDK (with the
  default identity and no auth hook), comes up: if the token can be created and written, the process spawned,
  its socket dialled in time and the peer credentials are those of the process, the handshake succeeds and the
  manager publishes, as healthy and without a heartbeat, the next generation and exactly the capabilities the SDK
  detected, provided the plugin does not declare the capability that asks for a failure.
\<close>

theorem sdk_start_succeeds:
  assumes "\<not> mg_closed m" and "mg_cmd m = None" and "mg_client m = None"
    and "cf_RuntimeDir (mg_cfg m) \<noteq> []" and "ValidatePluginID (mg_id m) = None" and "rd (mg_auth m) = None"
    and "NewToken (se_rand env) = Inr t" and "se_write_auth env = None" and "se_spawn env = Inr pid"
    and "dial_loop (se_dial env) (cf_DialTimeout (mg_cfg m)) 0 0 = Some n"
    and "ReadPeerCred (se_cred env) = Inr cred" and "pc_PID cred = pid"
    and "co_OnAuthAttempt ops = None" and "co_Identity ops = None"
    and "''__capabilities_error__'' \<notin> set (detectCapabilities ops c)"
  shows "\<exists>m'. Start (sdk_start etext ops c l rd env m) m = (None, m')
    \<and> mg_state m' = \<lparr>st_PluginID = mg_id m, st_GenerationID = mg_gen m + 1, st_Healthy = True,
        st_Capabilities = detectCapabilities ops c, st_SocketPath = mg_socket m, st_PID = pid, st_Declared = None\<rparr>
    \<and> mg_client m' \<noteq> None"
proof -
  let ?env = "sdk_start etext ops c l rd env m"
  have pat: "pluginIDPattern (mg_id m)" using assms(5) by (simp add: ValidatePluginID_None_iff)
  note a = sdk_start_answers(1,2) [where rd = rd, OF assms(4) pat assms(6) assms(13,14,7), of etext c l]
  obtain f k where e: "?env = env\<lparr>se_auth := f, se_caps := k\<rparr>"
    using sdk_start_answers(3) [where rd = rd, OF assms(4) pat assms(6) assms(13,14,7)] by blast
  have fields: "se_rand ?env = se_rand env" "se_write_auth ?env = se_write_auth env" "se_spawn ?env = se_spawn env"
      "se_dial ?env = se_dial env" "se_cred ?env = se_cred env" by (simp_all add: e)
  have "idle m" using assms(1-3) by (simp add: idle_def)
  then obtain m' where s: "startLocked ?env m = (None, m')"
    using startLocked_succeeds [of m ?env t pid n cred, OF _ _ _ _ _ _ _ a(1) _ _ a(2)] assms(7-12,15) by (auto simp: fields)
  show ?thesis
  proof (intro exI [of _ m'] conjI)
    show st: "Start ?env m = (None, m')" using s by (simp add: Start_def)
    from Start_fields [OF st] show "mg_state m' = \<lparr>st_PluginID = mg_id m, st_GenerationID = mg_gen m + 1, st_Healthy = True,
        st_Capabilities = detectCapabilities ops c, st_SocketPath = mg_socket m, st_PID = pid, st_Declared = None\<rparr>"
      unfolding a(2) fields assms(9) by (elim exE conjE) (drule sym, simp)
    from Start_fields [OF st] show "mg_client m' \<noteq> None" by (elim exE conjE) simp
  qed
qed

definition sample_plugin_logger :: plugin_logger where
  "sample_plugin_logger = \<lparr>pg_pluginID = ''echo'', pg_generationID = 1, pg_pid = 7, pg_path = ''/r/plugin-events.jsonl'', pg_logger = None\<rparr>"

theorem sdk_start_succeeds_witness:
  "\<exists>m'. Start (sdk_start (\<lambda>_. []) (echo_ops (\<lambda>_. 0)) (NewTemplate 0 sample_sdk_config []) sample_plugin_logger (\<lambda>_. None) sample_start sample_idle) sample_idle
      = (None, m')
    \<and> st_Capabilities (mg_state m') = [''heartbeat'', ''shutdown'', ''echo'', ''sleep'', ''crash''] \<and> mg_healthy m'"
proof -
  have caps: "detectCapabilities (echo_ops (\<lambda>_. 0)) (NewTemplate 0 sample_sdk_config [])
      = [''heartbeat'', ''shutdown'', ''echo'', ''sleep'', ''crash'']"
    by (simp add: detectCapabilities_def echo_ops_def template_ops_def)
  have ops: "co_OnAuthAttempt (echo_ops (\<lambda>_. 0)) = None" "co_Identity (echo_ops (\<lambda>_. 0)) = None"
    by (simp_all add: echo_ops_def template_ops_def)
  have idle: "\<not> mg_closed sample_idle" "mg_cmd sample_idle = None" "mg_client sample_idle = None"
    by (simp_all add: fresh_manager_def)
  have cfg: "cf_RuntimeDir (mg_cfg sample_idle) \<noteq> []" "ValidatePluginID (mg_id sample_idle) = None" by code_simp+
  have tok: "NewToken (se_rand sample_start) = Inr sample_token"
    by (simp add: sample_start_def NewToken_def ReadFull_def sample_token_def)
  have dial: "dial_loop (se_dial sample_start) (cf_DialTimeout (mg_cfg sample_idle)) 0 0 = Some 0"
    by (subst dial_loop.simps) (simp add: sample_start_def fresh_manager_def sample_config_def)
  have cred: "ReadPeerCred (se_cred sample_start) = Inr \<lparr>pc_PID = 7, pc_UID = 0, pc_GID = 0\<rparr>"
    by (simp add: sample_start_def ReadPeerCred_def)
  have out: "se_write_auth sample_start = None" "se_spawn sample_start = Inr 7" by (simp_all add: sample_start_def)
  show ?thesis
    using sdk_start_succeeds [where rd = "\<lambda>_. None" and etext = "\<lambda>_. []" and l = sample_plugin_logger and c = "NewTemplate 0 sample_sdk_config []",
        OF idle cfg _ tok out dial cred _ ops] by (auto simp: caps)
qed

text \<open>
  Application errors never cost the connection. A call to a running SDK server (here \<open>Echo\<close>; the same
  holds for every method) returns the plugin's answer, or its error as a server error, and leaves client,
  health and connections of the manager untouched. In particular a plugin that does not implement \<open>Echo\<close> and
  answers with \<open>rpc.ErrShutdown\<close> is not mistaken for a broken transport, although that very error poisons the
  client when the transport itself reports it.
\<close>

theorem sdk_errors_do_not_poison:
  assumes "\<not> mg_closed m" and "mg_client m = Some k"
  shows "fst (Echo id (\<lambda>msg. wire etext (fst (server_Echo ops msg s))) msg m)
      = (case fst (server_Echo ops msg s) of Inl e \<Rightarrow> Inl (ServerError (etext e)) | Inr x \<Rightarrow> Inr x)
    \<and> core (snd (Echo id (\<lambda>msg. wire etext (fst (server_Echo ops msg s))) msg m)) = core m
    \<and> (sv_authUsed s \<longrightarrow> co_Echo ops = None \<longrightarrow> fst (server_Echo ops msg s) = Inl (Sentinel RpcErrShutdown))
    \<and> isRPCPoisonError (Some (Sentinel RpcErrShutdown))"
proof (intro conjI impI)
  have np: "\<not> poisons (wire etext r)" for r :: "goerr + string"
    by (simp add: wire_def isRPCPoisonError_def split: sum.splits)
  then show "core (snd (Echo id (\<lambda>msg. wire etext (fst (server_Echo ops msg s))) msg m)) = core m"
    unfolding Echo_def by (simp add: plugin_call_core [OF assms])
  show "fst (Echo id (\<lambda>msg. wire etext (fst (server_Echo ops msg s))) msg m)
      = (case fst (server_Echo ops msg s) of Inl e \<Rightarrow> Inl (ServerError (etext e)) | Inr x \<Rightarrow> Inr x)"
    using assms by (simp add: Echo_def plugin_call_def call_def stale_response_def wire_def Let_def split: sum.splits)
  show "fst (server_Echo ops msg s) = Inl (Sentinel RpcErrShutdown)" if "sv_authUsed s" "co_Echo ops = None"
    using that by (simp add: server_Echo_def optional_handler_def requireAuth_cases(1))
qed (simp add: isRPCPoisonError_def)

theorem sdk_errors_do_not_poison_witness:
  "\<exists>m. mg_client m = Some 0
    \<and> fst (Echo id (\<lambda>msg. wire (\<lambda>_. ''connection is shut down'')
         (fst (server_Echo (template_ops (\<lambda>_. 0)) msg (sample_server\<lparr>sv_authUsed := True\<rparr>)))) ''hi'' m)
       = Inl (ServerError ''connection is shut down'')
    \<and> mg_client (snd (Echo id (\<lambda>msg. wire (\<lambda>_. ''connection is shut down'')
         (fst (server_Echo (template_ops (\<lambda>_. 0)) msg (sample_server\<lparr>sv_authUsed := True\<rparr>)))) ''hi'' m)) = Some 0"
proof -
  obtain m :: manager where m: "\<not> mg_closed m" "mg_client m = Some 0" by (rule sample_running) (rule that)
  note p = sdk_errors_do_not_poison [OF m, of "\<lambda>_. ''connection is shut down''" "template_ops (\<lambda>_. 0)" "sample_server\<lparr>sv_authUsed := True\<rparr>" "''hi''"]
  have "fst (server_Echo (template_ops (\<lambda>_. 0)) ''hi'' (sample_server\<lparr>sv_authUsed := True\<rparr>)) = Inl (Sentinel RpcErrShutdown)"
    using p by (simp add: template_ops_def)
  then show ?thesis using p m core_eqD(4) [OF conjunct1 [OF conjunct2 [OF p]]] by (intro exI [of _ m]) simp
qed

end
