(* ===== verification/Go_Json.thy ===== *)
theory Go_Json
  imports Go_Numbers
begin

text \<open>
  \<open>encoding/json\<close> as the program uses it: how text is quoted and unquoted, the syntax of values, and
  printing. Strings are byte strings; text that is not valid UTF-8 comes back with the replacement character
  for each bad byte, in both directions. Reading is split into tokens and a parser on tokens; the scanner's limit
  on the nesting depth (10000) is checked on the value read. A number is kept as the text it is written with.
\<close>

section \<open>UTF-8\<close>

text \<open>Length of the encoding a lead byte starts and the range of the byte after it.\<close>

definition lead :: "nat \<Rightarrow> (nat \<times> nat \<times> nat) option" where
  "lead b =
     (if b < 0x80 then Some (1, 0, 0)
      else if b < 0xC2 then None
      else if b < 0xE0 then Some (2, 0x80, 0xBF)
      else if b = 0xE0 then Some (3, 0xA0, 0xBF)
      else if b = 0xED then Some (3, 0x80, 0x9F)
      else if b < 0xF0 then Some (3, 0x80, 0xBF)
      else if b = 0xF0 then Some (4, 0x90, 0xBF)
      else if b < 0xF4 then Some (4, 0x80, 0xBF)
      else if b = 0xF4 then Some (4, 0x80, 0x8F)
      else None)"

text \<open>\<open>utf8.DecodeRune\<close>: the number of bytes of the code point at the front, 0 if there is none.\<close>

definition rune_len :: "string \<Rightarrow> nat" where
  "rune_len s =
     (case s of
        [] \<Rightarrow> 0
      | c # cs \<Rightarrow>
          (case lead (of_char c) of
             None \<Rightarrow> 0
           | Some (n, lo, hi) \<Rightarrow>
               if n = 1 then 1
               else (case take (n - 1) cs of
                       [] \<Rightarrow> 0
                     | d # ds \<Rightarrow> if length ds = n - 2 \<and> in_range lo hi d \<and> list_all (in_range 0x80 0xBF) ds then n else 0)))"

definition replacement :: string where "replacement = [CHR 0xEF, CHR 0xBF, CHR 0xBD]"

text \<open>\<open>utf8.AppendRune\<close>.\<close>

definition encode_rune :: "nat \<Rightarrow> string" where
  "encode_rune r =
     (if r < 0x80 then [char_of r]
      else if r < 0x800 then [char_of (0xC0 + r div 64), char_of (0x80 + r mod 64)]
      else if 0xD800 \<le> r \<and> r < 0xE000 \<or> 0x10FFFF < r then replacement
      else if r < 0x10000 then [char_of (0xE0 + r div 4096), char_of (0x80 + r div 64 mod 64), char_of (0x80 + r mod 64)]
      else [char_of (0xF0 + r div 262144), char_of (0x80 + r div 4096 mod 64), char_of (0x80 + r div 64 mod 64), char_of (0x80 + r mod 64)])"

text \<open>The text with every byte that is no part of a code point replaced (\<open>strings.ToValidUTF8\<close>, byte by byte).\<close>

function to_valid :: "string \<Rightarrow> string" where
  "to_valid [] = []"
| "to_valid (c # s) =
     (case rune_len (c # s) of 0 \<Rightarrow> replacement @ to_valid s | Suc n \<Rightarrow> take (Suc n) (c # s) @ to_valid (drop n s))"
  by pat_completeness auto
termination by (relation "measure length") auto

function valid_utf8 :: "string \<Rightarrow> bool" where
  "valid_utf8 [] = True"
| "valid_utf8 (c # s) = (case rune_len (c # s) of 0 \<Rightarrow> False | Suc n \<Rightarrow> valid_utf8 (drop n s))"
  by pat_completeness auto
termination by (relation "measure length") auto

section \<open>Strings\<close>

definition hexd :: "nat \<Rightarrow> char" where
  "hexd d = (if d < 10 then char_of (48 + d) else char_of (87 + d))"

text \<open>One ASCII byte of a quoted string (\<open>appendString\<close> with HTML escaping).\<close>

definition escape_byte :: "char \<Rightarrow> string" where
  "escape_byte c =
     (if c = CHR 0x22 \<or> c = CHR 0x5C then [CHR 0x5C, c]
      else if c = CHR 0x08 then [CHR 0x5C, CHR ''b'']
      else if c = CHR 0x0C then [CHR 0x5C, CHR ''f'']
      else if c = CHR 0x0A then [CHR 0x5C, CHR ''n'']
      else if c = CHR 0x0D then [CHR 0x5C, CHR ''r'']
      else if c = CHR 0x09 then [CHR 0x5C, CHR ''t'']
      else if (of_char c :: nat) < 0x20 \<or> c \<in> {CHR ''<'', CHR ''>'', CHR ''&''} then
        [CHR 0x5C, CHR ''u'', CHR ''0'', CHR ''0'', hexd (of_char c div 16), hexd (of_char c mod 16)]
      else [c])"

text \<open>The line and paragraph separators U+2028 and U+2029 are written as escapes too.\<close>

definition escape_rune :: "string \<Rightarrow> string" where
  "escape_rune r =
     (case r of
        [c] \<Rightarrow> escape_byte c
      | _ \<Rightarrow> if r = [CHR 0xE2, CHR 0x80, CHR 0xA8] then [CHR 0x5C] @ ''u2028''
             else if r = [CHR 0xE2, CHR 0x80, CHR 0xA9] then [CHR 0x5C] @ ''u2029''
             else r)"

function quote_body :: "string \<Rightarrow> string" where
  "quote_body [] = []"
| "quote_body (c # s) =
     (case rune_len (c # s) of
        0 \<Rightarrow> [CHR 0x5C] @ ''ufffd'' @ quote_body s
      | Suc n \<Rightarrow> escape_rune (take (Suc n) (c # s)) @ quote_body (drop n s))"
  by pat_completeness auto
termination by (relation "measure length") auto

definition quote :: "string \<Rightarrow> string" where
  "quote s = [CHR 0x22] @ quote_body s @ [CHR 0x22]"

text \<open>Reading a string, after its opening quote: one step at a time.\<close>

definition hex_val :: "char \<Rightarrow> nat option" where
  "hex_val c =
     (if is_digit c then Some (of_char c - 48)
      else if in_range 97 102 c then Some (of_char c - 87)
      else if in_range 65 70 c then Some (of_char c - 55)
      else None)"

fun hex4 :: "string \<Rightarrow> nat option" where
  "hex4 (a # b # c # d # s) =
     (case (hex_val a, hex_val b, hex_val c, hex_val d) of
        (Some x, Some y, Some z, Some w) \<Rightarrow> Some (((x * 16 + y) * 16 + z) * 16 + w)
      | _ \<Rightarrow> None)"
| "hex4 _ = None"

definition simple_escape :: "char \<Rightarrow> char option" where
  "simple_escape c = map_of
     [(CHR 0x22, CHR 0x22), (CHR 0x5C, CHR 0x5C), (CHR ''/'', CHR ''/''), (CHR ''b'', CHR 0x08), (CHR ''f'', CHR 0x0C),
      (CHR ''n'', CHR 0x0A), (CHR ''r'', CHR 0x0D), (CHR ''t'', CHR 0x09)] c"

datatype str_step = StrEnd string | StrBad | StrPut string string

text \<open>
  A \<open>\u\<close> escape that is the first half of a surrogate pair takes the second half with it if it follows; a
  surrogate on its own is the replacement character.
\<close>

definition unicode_escape :: "string \<Rightarrow> str_step" where
  "unicode_escape s =
     (case hex4 s of
        None \<Rightarrow> StrBad
      | Some r \<Rightarrow>
          (let s1 = drop 4 s
           in if 0xD800 \<le> r \<and> r < 0xE000 then
                (case if has_prefix s1 [CHR 0x5C, CHR ''u''] then hex4 (drop 2 s1) else None of
                   Some r1 \<Rightarrow>
                     if r < 0xDC00 \<and> 0xDC00 \<le> r1 \<and> r1 < 0xE000 then
                       StrPut (encode_rune (0x10000 + (r - 0xD800) * 0x400 + (r1 - 0xDC00))) (drop 6 s1)
                     else StrPut replacement s1
                 | None \<Rightarrow> StrPut replacement s1)
              else StrPut (encode_rune r) s1))"

definition str_next :: "string \<Rightarrow> str_step" where
  "str_next s =
     (case s of
        [] \<Rightarrow> StrBad
      | c # s1 \<Rightarrow>
          if c = CHR 0x22 then StrEnd s1
          else if c = CHR 0x5C then
            (case s1 of
               [] \<Rightarrow> StrBad
             | e # s2 \<Rightarrow>
                 (case simple_escape e of
                    Some d \<Rightarrow> StrPut [d] s2
                  | None \<Rightarrow> if e = CHR ''u'' then unicode_escape s2 else StrBad))
          else if (of_char c :: nat) < 0x20 then StrBad
          else (case rune_len s of 0 \<Rightarrow> StrPut replacement s1 | Suc n \<Rightarrow> StrPut (take (Suc n) s) (drop n s1)))"

lemma hex4_length: "hex4 s = Some r \<Longrightarrow> 4 \<le> length s"
  by (cases s rule: hex4.cases) auto

lemma str_next_less: "str_next s = StrPut d s' \<Longrightarrow> length s' < length s"
  by (auto simp: str_next_def unicode_escape_def Let_def dest: hex4_length split: list.splits option.splits if_splits nat.splits)

function lex_string :: "string \<Rightarrow> (string \<times> string) option" where
  "lex_string s =
     (case str_next s of
        StrEnd rest \<Rightarrow> Some ([], rest)
      | StrBad \<Rightarrow> None
      | StrPut d s' \<Rightarrow> (case lex_string s' of None \<Rightarrow> None | Some (t, rest) \<Rightarrow> Some (d @ t, rest)))"
  by pat_completeness auto
termination by (relation "measure length") (auto dest: str_next_less)

declare lex_string.simps [simp del]

section \<open>Strings survive\<close>

lemma char_of_bytes [simp]:
  "char_of (0xE2 :: nat) = CHR 0xE2" "char_of (0x80 :: nat) = CHR 0x80" "char_of (0xA8 :: nat) = CHR 0xA8" "char_of (0xA9 :: nat) = CHR 0xA9"
  "char_of (0xEF :: nat) = CHR 0xEF" "char_of (0xBF :: nat) = CHR 0xBF" "char_of (0xBD :: nat) = CHR 0xBD"
  by code_simp+

lemma rune_len_cases:
  assumes "rune_len (c # s) = Suc n"
  obtains (ascii) "n = 0" "(of_char c :: nat) < 0x80"
  | (multi) lo hi d ds where "lead (of_char c) = Some (Suc n, lo, hi)" "0 < n" "take n s = d # ds" "length ds = n - 1"
      "in_range lo hi d" "list_all (in_range 0x80 0xBF) ds" "0x80 \<le> (of_char c :: nat)"
proof (cases "lead (of_char c)")
  case None
  then show ?thesis using assms by (simp add: rune_len_def)
next
  case (Some x)
  obtain k lo hi where x: "x = (k, lo, hi)" by (cases x)
  show ?thesis
  proof (cases "k = 1")
    case True
    then have "(of_char c :: nat) < 0x80" using Some x by (auto simp: lead_def split: if_splits)
    then show ?thesis using assms Some x True by (intro ascii) (simp_all add: rune_len_def)
  next
    case False
    obtain d ds where t: "take (k - 1) s = d # ds" "length ds = k - 2" "in_range lo hi d" "list_all (in_range 0x80 0xBF) ds" "k = Suc n"
      using assms Some x False by (auto simp: rune_len_def split: list.splits if_splits)
    have "0x80 \<le> (of_char c :: nat)" using Some x False by (auto simp: lead_def split: if_splits)
    moreover have "0 < n" using t(1,5) by (cases n) simp_all
    ultimately show ?thesis using t Some x by (intro multi) simp_all
  qed
qed

lemma rune_len_length: "rune_len s \<le> length s"
proof (cases s)
  case (Cons c cs)
  show ?thesis
  proof (cases "rune_len (c # cs)")
    case (Suc n)
    then show ?thesis
    proof (cases rule: rune_len_cases)
      case (multi lo hi d ds)
      have "length (take n cs) = n" using multi by simp
      then show ?thesis using Suc Cons by simp
    qed (use Cons Suc in simp)
  qed (use Cons in simp)
qed (simp add: rune_len_def)

text \<open>A code point is recognised whatever follows it.\<close>

lemma rune_len_append:
  assumes "rune_len (c # s) = Suc n"
  shows "rune_len (take (Suc n) (c # s) @ r) = Suc n"
  using assms
proof (cases rule: rune_len_cases)
  case ascii
  then show ?thesis by (simp add: rune_len_def lead_def)
next
  case (multi lo hi d ds)
  then have "take n (d # ds @ r) = d # ds" by (cases n) simp_all
  then show ?thesis using multi by (simp add: rune_len_def)
qed

lemma hex_val_hexd: "d < 16 \<Longrightarrow> hex_val (hexd d) = Some d"
  by (auto simp: hexd_def hex_val_def byte_class_defs)

lemma str_next_escape_byte:
  assumes "(of_char c :: nat) < 0x80"
  shows "str_next (escape_byte c @ r) = StrPut [c] r"
proof (cases "c \<in> {CHR 0x22, CHR 0x5C, CHR 0x08, CHR 0x0C, CHR 0x0A, CHR 0x0D, CHR 0x09}")
  case True
  then show ?thesis by (auto simp: escape_byte_def str_next_def simple_escape_def)
next
  case False
  show ?thesis
  proof (cases "(of_char c :: nat) < 0x20 \<or> c \<in> {CHR ''<'', CHR ''>'', CHR ''&''}")
    case True
    have "hex4 (CHR ''0'' # CHR ''0'' # hexd (of_char c div 16) # hexd (of_char c mod 16) # r) = Some (of_char c)"
      using hex_val_hexd [of "of_char c div 16"] hex_val_hexd [of "of_char c mod 16"] assms
      by (simp add: hex_val_def byte_class_defs)
    moreover have "escape_byte c = [CHR 0x5C, CHR ''u'', CHR ''0'', CHR ''0'', hexd (of_char c div 16), hexd (of_char c mod 16)]"
      using True False by (auto simp: escape_byte_def)
    ultimately show ?thesis
      using assms by (simp add: str_next_def simple_escape_def unicode_escape_def encode_rune_def)
  next
    case plain: False
    then have "escape_byte c = [c]" using False by (auto simp: escape_byte_def)
    moreover have "rune_len (c # r) = Suc 0" using assms by (simp add: rune_len_def lead_def)
    ultimately show ?thesis using False plain by (simp add: str_next_def)
  qed
qed

lemma str_next_escape_rune:
  assumes "rune_len (c # s) = Suc n"
  shows "str_next (escape_rune (take (Suc n) (c # s)) @ r) = StrPut (take (Suc n) (c # s)) r"
  using assms
proof (cases rule: rune_len_cases)
  case ascii
  then show ?thesis using str_next_escape_byte by (simp add: escape_rune_def)
next
  case (multi lo hi d ds)
  let ?p = "take (Suc n) (c # s)"
  have p: "?p = c # d # ds" using multi(3) by simp
  have e: "escape_rune ?p = (if ?p = [CHR 0xE2, CHR 0x80, CHR 0xA8] then [CHR 0x5C] @ ''u2028''
      else if ?p = [CHR 0xE2, CHR 0x80, CHR 0xA9] then [CHR 0x5C] @ ''u2029'' else ?p)"
    unfolding p by (simp add: escape_rune_def)
  have u: "str_next ([CHR 0x5C] @ ''u2028'' @ r) = StrPut [CHR 0xE2, CHR 0x80, CHR 0xA8] r"
    "str_next ([CHR 0x5C] @ ''u2029'' @ r) = StrPut [CHR 0xE2, CHR 0x80, CHR 0xA9] r"
    by (simp_all add: str_next_def simple_escape_def unicode_escape_def hex_val_def byte_class_defs encode_rune_def)
  have k: "rune_len (?p @ r) = Suc n" by (rule rune_len_append [OF assms])
  have l: "length ?p = Suc n" using multi by simp
  have "str_next (?p @ r) = StrPut ?p r"
    using k l multi(7) unfolding p by (auto simp: str_next_def)
  then show ?thesis using u unfolding e by simp
qed

lemma lex_string_put: "str_next s = StrPut d s' \<Longrightarrow> lex_string s = map_option (apfst ((@) d)) (lex_string s')"
  by (subst lex_string.simps) (simp split: option.splits)

lemma lex_string_quote_body: "lex_string (quote_body s @ CHR 0x22 # rest) = Some (to_valid s, rest)"
proof (induction s rule: quote_body.induct)
  case 1
  show ?case by (subst lex_string.simps) (simp add: str_next_def)
next
  case (2 c s)
  show ?case
  proof (cases "rune_len (c # s)")
    case 0
    have "str_next ([CHR 0x5C] @ ''ufffd'' @ quote_body s @ CHR 0x22 # rest) = StrPut replacement (quote_body s @ CHR 0x22 # rest)"
      by (simp add: str_next_def simple_escape_def unicode_escape_def hex_val_def byte_class_defs encode_rune_def replacement_def)
    from lex_string_put [OF this] show ?thesis using 0 "2.IH"(1) [OF 0] by simp
  next
    case (Suc n)
    from lex_string_put [OF str_next_escape_rune [OF Suc, of "quote_body (drop n s) @ CHR 0x22 # rest"]]
    show ?thesis using Suc "2.IH"(2) [OF Suc] by simp
  qed
qed

lemma to_valid_id: "valid_utf8 s \<Longrightarrow> to_valid s = s"
proof (induction s rule: valid_utf8.induct)
  case (2 c s)
  then show ?case by (cases "rune_len (c # s)") auto
qed simp

lemma to_valid_ascii: "list_all (\<lambda>c. (of_char c :: nat) < 0x80) s \<Longrightarrow> to_valid s = s"
  by (induction s) (simp_all add: rune_len_def lead_def)

section \<open>Tokens\<close>

datatype token =
    TLBrace | TRBrace | TLBrack | TRBrack | TColon | TComma | TTrue | TFalse | TNull | TNum string | TStr string

definition is_space :: "char \<Rightarrow> bool" where
  "is_space c \<longleftrightarrow> c \<in> {CHR '' '', CHR 0x09, CHR 0x0A, CHR 0x0D}"

definition num_char :: "char \<Rightarrow> bool" where
  "num_char c \<longleftrightarrow> is_digit c \<or> c \<in> {CHR ''+'', CHR ''-'', CHR ''.'', CHR ''e'', CHR ''E''}"

text \<open>The syntax of numbers: sign, integer part without leading zero, fraction, exponent.\<close>

definition valid_exponent :: "string \<Rightarrow> bool" where
  "valid_exponent s =
     (case s of
        [] \<Rightarrow> True
      | c # t \<Rightarrow>
          (c = CHR ''e'' \<or> c = CHR ''E'')
          \<and> (let ds = (if t \<noteq> [] \<and> (hd t = CHR ''+'' \<or> hd t = CHR ''-'') then tl t else t) in ds \<noteq> [] \<and> list_all is_digit ds))"

definition valid_number :: "string \<Rightarrow> bool" where
  "valid_number s =
     (let s1 = (if s \<noteq> [] \<and> hd s = CHR ''-'' then tl s else s); ip = takeWhile is_digit s1; s2 = dropWhile is_digit s1
      in ip \<noteq> [] \<and> (hd ip = CHR ''0'' \<longrightarrow> length ip = 1)
         \<and> (if s2 \<noteq> [] \<and> hd s2 = CHR ''.'' then takeWhile is_digit (tl s2) \<noteq> [] \<and> valid_exponent (dropWhile is_digit (tl s2))
            else valid_exponent s2))"

datatype lex_step = LexEnd | LexBad | LexSkip string | LexTok token string

definition lex_next :: "string \<Rightarrow> lex_step" where
  "lex_next s =
     (case s of
        [] \<Rightarrow> LexEnd
      | c # s1 \<Rightarrow>
          if is_space c then LexSkip s1
          else if c = CHR ''{'' then LexTok TLBrace s1
          else if c = CHR ''}'' then LexTok TRBrace s1
          else if c = CHR ''['' then LexTok TLBrack s1
          else if c = CHR '']'' then LexTok TRBrack s1
          else if c = CHR '':'' then LexTok TColon s1
          else if c = CHR '','' then LexTok TComma s1
          else if c = CHR 0x22 then (case lex_string s1 of None \<Rightarrow> LexBad | Some (t, r) \<Rightarrow> LexTok (TStr t) r)
          else if has_prefix s ''true'' then LexTok TTrue (drop 4 s)
          else if has_prefix s ''false'' then LexTok TFalse (drop 5 s)
          else if has_prefix s ''null'' then LexTok TNull (drop 4 s)
          else if is_digit c \<or> c = CHR ''-'' then
            (if valid_number (takeWhile num_char s) then LexTok (TNum (takeWhile num_char s)) (dropWhile num_char s) else LexBad)
          else LexBad)"

lemma lex_string_less: "lex_string s = Some (t, r) \<Longrightarrow> length r < length s"
proof (induction s arbitrary: t rule: lex_string.induct)
  case (1 s)
  show ?case
  proof (cases "str_next s")
    case (StrEnd rest)
    then have "length rest < length s"
      by (auto simp: str_next_def unicode_escape_def Let_def split: list.splits option.splits if_splits nat.splits)
    then show ?thesis using "1.prems" StrEnd by (simp add: lex_string.simps [of s])
  next
    case (StrPut d s')
    then obtain t' where "lex_string s' = Some (t', r)" using "1.prems" by (auto simp: lex_string.simps [of s] split: option.splits)
    from "1.IH" [OF StrPut this] str_next_less [OF StrPut] show ?thesis by simp
  qed (use "1.prems" in \<open>simp add: lex_string.simps [of s]\<close>)
qed

lemma lex_next_less:
  "lex_next s = LexTok t r \<Longrightarrow> length r < length s" "lex_next s = LexSkip r \<Longrightarrow> length r < length s"
  using length_dropWhile_le [of num_char "tl s"]
  by (auto simp: lex_next_def num_char_def dest: lex_string_less split: list.splits if_splits option.splits)

function lex :: "string \<Rightarrow> token list option" where
  "lex s =
     (case lex_next s of
        LexEnd \<Rightarrow> Some []
      | LexBad \<Rightarrow> None
      | LexSkip r \<Rightarrow> lex r
      | LexTok t r \<Rightarrow> map_option ((#) t) (lex r))"
  by pat_completeness auto
termination by (relation "measure length") (auto dest: lex_next_less)

declare lex.simps [simp del]

section \<open>Values\<close>

datatype json =
    JsonNull | JsonBool bool | JsonNum string | JsonStr string | JsonArr "json list" | JsonObj "(string \<times> json) list"

text \<open>
  The parser on tokens. \<open>n\<close> bounds the number of nested calls; \<open>parse_json\<close> gives it a bound that the length of the
  input makes sufficient (\<open>pvalue_fuel\<close> below).
\<close>

fun pvalue :: "nat \<Rightarrow> token list \<Rightarrow> (json \<times> token list) option"
  and pelems :: "nat \<Rightarrow> token list \<Rightarrow> (json list \<times> token list) option"
  and pmembers :: "nat \<Rightarrow> token list \<Rightarrow> ((string \<times> json) list \<times> token list) option" where
  "pvalue 0 ts = None"
| "pvalue (Suc n) [] = None"
| "pvalue (Suc n) (t # r) =
     (case t of
        TNull \<Rightarrow> Some (JsonNull, r)
      | TTrue \<Rightarrow> Some (JsonBool True, r)
      | TFalse \<Rightarrow> Some (JsonBool False, r)
      | TNum l \<Rightarrow> Some (JsonNum l, r)
      | TStr s \<Rightarrow> Some (JsonStr s, r)
      | TLBrack \<Rightarrow> if r \<noteq> [] \<and> hd r = TRBrack then Some (JsonArr [], tl r) else map_option (apfst JsonArr) (pelems n r)
      | TLBrace \<Rightarrow> if r \<noteq> [] \<and> hd r = TRBrace then Some (JsonObj [], tl r) else map_option (apfst JsonObj) (pmembers n r)
      | _ \<Rightarrow> None)"
| "pelems 0 ts = None"
| "pelems (Suc n) ts =
     (case pvalue n ts of
        None \<Rightarrow> None
      | Some (v, r) \<Rightarrow>
          if r = [] then None
          else if hd r = TComma then map_option (apfst ((#) v)) (pelems n (tl r))
          else if hd r = TRBrack then Some ([v], tl r)
          else None)"
| "pmembers 0 ts = None"
| "pmembers (Suc n) (TStr k # TColon # ts) =
     (case pvalue n ts of
        None \<Rightarrow> None
      | Some (v, r) \<Rightarrow>
          if r = [] then None
          else if hd r = TComma then map_option (apfst ((#) (k, v))) (pmembers n (tl r))
          else if hd r = TRBrace then Some ([(k, v)], tl r)
          else None)"
| "pmembers (Suc n) _ = None"

text \<open>How deep arrays and objects nest; \<open>encoding/json\<close> refuses a text that nests more than 10000 of them.\<close>

fun depth :: "json \<Rightarrow> int" and depth_elems :: "json list \<Rightarrow> int" and depth_members :: "(string \<times> json) list \<Rightarrow> int" where
  "depth (JsonArr vs) = 1 + depth_elems vs"
| "depth (JsonObj kvs) = 1 + depth_members kvs"
| "depth _ = 0"
| "depth_elems [] = 0"
| "depth_elems (v # vs) = max (depth v) (depth_elems vs)"
| "depth_members [] = 0"
| "depth_members ((k, v) # kvs) = max (depth v) (depth_members kvs)"

definition maxNestingDepth :: int where "maxNestingDepth = 10000"

definition parse_json :: "string \<Rightarrow> json option" where
  "parse_json s =
     (case lex s of
        None \<Rightarrow> None
      | Some ts \<Rightarrow> (case pvalue (2 * length ts + 1) ts of
          Some (v, []) \<Rightarrow> if depth v \<le> maxNestingDepth then Some v else None
        | _ \<Rightarrow> None))"

text \<open>Printing without indentation.\<close>

fun print_json :: "json \<Rightarrow> string" and print_elems :: "json list \<Rightarrow> string" and print_members :: "(string \<times> json) list \<Rightarrow> string" where
  "print_json JsonNull = ''null''"
| "print_json (JsonBool b) = (if b then ''true'' else ''false'')"
| "print_json (JsonNum l) = l"
| "print_json (JsonStr s) = quote s"
| "print_json (JsonArr vs) = ''['' @ print_elems vs @ '']''"
| "print_json (JsonObj kvs) = ''{'' @ print_members kvs @ ''}''"
| "print_elems [] = []"
| "print_elems (v # vs) = print_json v @ (if vs = [] then [] else '','' @ print_elems vs)"
| "print_members [] = []"
| "print_members ((k, v) # kvs) = quote k @ '':'' @ print_json v @ (if kvs = [] then [] else '','' @ print_members kvs)"

section \<open>The bound of the parser\<close>

lemma parser_consumes:
  "pvalue n ts = Some (v, r) \<Longrightarrow> length r < length ts"
  "pelems n ts = Some (vs, r) \<Longrightarrow> length r < length ts"
  "pmembers n ts = Some (kvs, r) \<Longrightarrow> length r < length ts"
proof (induction n ts and n ts and n ts arbitrary: v r and vs r and kvs r rule: pvalue_pelems_pmembers.induct)
  case (3 n t ts)
  then show ?case by (cases t) (fastforce split: if_splits)+
next
  case (5 n ts)
  then show ?case by (fastforce split: option.splits if_splits)
next
  case (7 n k ts)
  then show ?case by (fastforce split: option.splits if_splits)
qed simp_all

text \<open>More fuel than the number of tokens calls for changes nothing.\<close>

lemma parser_fuel:
  "2 * length ts < n \<Longrightarrow> pvalue (Suc n) ts = pvalue n ts"
  "2 * length ts + 1 < n \<Longrightarrow> pelems (Suc n) ts = pelems n ts"
  "2 * length ts + 1 < n \<Longrightarrow> pmembers (Suc n) ts = pmembers n ts"
proof (induction n ts and n ts and n ts rule: pvalue_pelems_pmembers.induct)
  case (3 n t ts)
  then show ?case by (cases t) auto
next
  case (5 n ts)
  show ?case
  proof (cases "pvalue n ts")
    case None
    then show ?thesis using 5 by simp
  next
    case (Some x)
    obtain v r where x: "x = (v, r)" by (cases x)
    have "pelems (Suc n) (tl r) = pelems n (tl r)" if "r \<noteq> []" "hd r = TComma"
      using "5.IH"(2) [OF Some x [symmetric] that] "5.prems" parser_consumes(1) [of n ts v r] Some x that by (cases r) auto
    then show ?thesis using 5 Some x by (subst pelems.simps(2), subst (2) pelems.simps(2)) simp
  qed
next
  case (7 n k ts)
  show ?case
  proof (cases "pvalue n ts")
    case None
    then show ?thesis using 7 by simp
  next
    case (Some x)
    obtain v r where x: "x = (v, r)" by (cases x)
    have "pmembers (Suc n) (tl r) = pmembers n (tl r)" if "r \<noteq> []" "hd r = TComma"
      using "7.IH"(2) [OF Some x [symmetric] that] "7.prems" parser_consumes(1) [of n ts v r] Some x that by (cases r) auto
    then show ?thesis using 7 Some x by (subst pmembers.simps(2), subst pmembers.simps(2)) simp
  qed
qed simp_all

lemma pvalue_fuel: "n \<le> m \<Longrightarrow> 2 * length ts < n \<Longrightarrow> pvalue m ts = pvalue n ts"
  by (induction m rule: dec_induct) (simp_all add: parser_fuel(1))

section \<open>Printing and reading\<close>

text \<open>The tokens of a value, and the value with all text made valid.\<close>

fun toks :: "json \<Rightarrow> token list" and toks_elems :: "json list \<Rightarrow> token list" and toks_members :: "(string \<times> json) list \<Rightarrow> token list" where
  "toks JsonNull = [TNull]"
| "toks (JsonBool b) = [if b then TTrue else TFalse]"
| "toks (JsonNum l) = [TNum l]"
| "toks (JsonStr s) = [TStr s]"
| "toks (JsonArr vs) = TLBrack # toks_elems vs @ [TRBrack]"
| "toks (JsonObj kvs) = TLBrace # toks_members kvs @ [TRBrace]"
| "toks_elems [] = []"
| "toks_elems (v # vs) = toks v @ (if vs = [] then [] else TComma # toks_elems vs)"
| "toks_members [] = []"
| "toks_members ((k, v) # kvs) = TStr k # TColon # toks v @ (if kvs = [] then [] else TComma # toks_members kvs)"

fun sanitize :: "json \<Rightarrow> json" and sanitize_elems :: "json list \<Rightarrow> json list"
  and sanitize_members :: "(string \<times> json) list \<Rightarrow> (string \<times> json) list" where
  "sanitize JsonNull = JsonNull"
| "sanitize (JsonBool b) = JsonBool b"
| "sanitize (JsonNum l) = JsonNum l"
| "sanitize (JsonStr s) = JsonStr (to_valid s)"
| "sanitize (JsonArr vs) = JsonArr (sanitize_elems vs)"
| "sanitize (JsonObj kvs) = JsonObj (sanitize_members kvs)"
| "sanitize_elems [] = []"
| "sanitize_elems (v # vs) = sanitize v # sanitize_elems vs"
| "sanitize_members [] = []"
| "sanitize_members ((k, v) # kvs) = (to_valid k, sanitize v) # sanitize_members kvs"

fun nums_ok :: "json \<Rightarrow> bool" and nums_ok_elems :: "json list \<Rightarrow> bool" and nums_ok_members :: "(string \<times> json) list \<Rightarrow> bool" where
  "nums_ok (JsonNum l) = (valid_number l \<and> list_all num_char l)"
| "nums_ok (JsonArr vs) = nums_ok_elems vs"
| "nums_ok (JsonObj kvs) = nums_ok_members kvs"
| "nums_ok _ = True"
| "nums_ok_elems [] = True"
| "nums_ok_elems (v # vs) = (nums_ok v \<and> nums_ok_elems vs)"
| "nums_ok_members [] = True"
| "nums_ok_members ((k, v) # kvs) = (nums_ok v \<and> nums_ok_members kvs)"

lemma sanitize_Nil_iff [simp]: "sanitize_elems vs = [] \<longleftrightarrow> vs = []" "sanitize_members kvs = [] \<longleftrightarrow> kvs = []"
  by (cases vs; simp) (cases kvs; auto)

text \<open>Where a value may end: not before a byte that could continue a number.\<close>

definition stops :: "string \<Rightarrow> bool" where
  "stops r \<longleftrightarrow> (case r of [] \<Rightarrow> True | c # _ \<Rightarrow> \<not> num_char c)"

lemma lex_tok: "lex_next s = LexTok t r \<Longrightarrow> lex s = map_option ((#) t) (lex r)"
  by (subst lex.simps) simp

lemma lex_quote: "lex (quote s @ r) = map_option ((#) (TStr (to_valid s))) (lex r)"
  by (rule lex_tok) (simp add: lex_next_def quote_def is_space_def lex_string_quote_body)

lemma takeWhile_stops: "list_all num_char l \<Longrightarrow> stops r \<Longrightarrow> takeWhile num_char (l @ r) = l \<and> dropWhile num_char (l @ r) = r"
  by (induction l) (auto simp: stops_def split: list.splits)

lemma valid_number_hd: "valid_number l \<Longrightarrow> l \<noteq> [] \<and> (is_digit (hd l) \<or> hd l = CHR ''-'')"
  by (cases l) (auto simp: valid_number_def Let_def split: if_splits)

lemma lex_num:
  assumes "valid_number l" and "list_all num_char l" and "stops r"
  shows "lex (l @ r) = map_option ((#) (TNum l)) (lex r)"
proof (rule lex_tok)
  obtain c cs where l: "l = c # cs" "is_digit c \<or> c = CHR ''-''" using valid_number_hd [OF assms(1)] by (cases l) auto
  have n: "\<not> is_space c" "c \<notin> {CHR ''{'', CHR ''}'', CHR ''['', CHR '']'', CHR '':'', CHR '','', CHR 0x22, CHR ''t'', CHR ''f'', CHR ''n''}"
    using l(2) by (auto simp: is_space_def byte_class_defs)
  show "lex_next (l @ r) = LexTok (TNum l) r"
    using takeWhile_stops [OF assms(2,3)] assms(1) l n by (auto simp: lex_next_def)
qed

lemma lex_punct:
  "lex (CHR ''{'' # r) = map_option ((#) TLBrace) (lex r)" "lex (CHR ''}'' # r) = map_option ((#) TRBrace) (lex r)"
  "lex (CHR ''['' # r) = map_option ((#) TLBrack) (lex r)" "lex (CHR '']'' # r) = map_option ((#) TRBrack) (lex r)"
  "lex (CHR '':'' # r) = map_option ((#) TColon) (lex r)" "lex (CHR '','' # r) = map_option ((#) TComma) (lex r)"
  "lex (CHR ''n'' # CHR ''u'' # CHR ''l'' # CHR ''l'' # r) = map_option ((#) TNull) (lex r)"
  "lex (CHR ''t'' # CHR ''r'' # CHR ''u'' # CHR ''e'' # r) = map_option ((#) TTrue) (lex r)"
  "lex (CHR ''f'' # CHR ''a'' # CHR ''l'' # CHR ''s'' # CHR ''e'' # r) = map_option ((#) TFalse) (lex r)"
  by (rule lex_tok; simp add: lex_next_def is_space_def)+

lemma stops_punct [simp]: "stops []" "stops (CHR '','' # r)" "stops (CHR '']'' # r)" "stops (CHR ''}'' # r)"
  by (simp_all add: stops_def num_char_def byte_class_defs)

lemma lex_print:
  "nums_ok v \<Longrightarrow> stops r \<Longrightarrow> lex (print_json v @ r) = map_option ((@) (toks (sanitize v))) (lex r)"
  "nums_ok_elems vs \<Longrightarrow> stops r \<Longrightarrow> lex (print_elems vs @ r) = map_option ((@) (toks_elems (sanitize_elems vs))) (lex r)"
  "nums_ok_members kvs \<Longrightarrow> stops r \<Longrightarrow> lex (print_members kvs @ r) = map_option ((@) (toks_members (sanitize_members kvs))) (lex r)"
proof (induction v and vs and kvs arbitrary: r and r and r rule: print_json_print_elems_print_members.induct)
  case (3 l)
  then show ?case by (cases "lex r") (simp_all add: lex_num)
next
  case (8 v vs)
  then show ?case by (cases "lex r") (auto simp: lex_punct)
next
  case (10 k v kvs)
  then show ?case by (cases "lex r") (auto simp: lex_punct lex_quote)
next
  case (5 vs)
  then show ?case by (cases "lex r") (simp_all add: lex_punct)
next
  case (6 kvs)
  then show ?case by (cases "lex r") (simp_all add: lex_punct)
next
  case (2 b)
  then show ?case by (cases "lex r") (simp_all add: lex_punct)
next
  case (4 s)
  then show ?case by (cases "lex r") (simp_all add: lex_quote)
next
  case 1
  then show ?case by (cases "lex r") (simp_all add: lex_punct)
next
  case 7
  then show ?case by (cases "lex r") simp_all
next
  case 9
  then show ?case by (cases "lex r") simp_all
qed

lemma toks_hd: "toks v \<noteq> [] \<and> hd (toks v) \<noteq> TRBrack \<and> hd (toks v) \<noteq> TRBrace"
  by (cases v) auto

lemma parse_toks:
  "2 * length (toks v) \<le> n \<Longrightarrow> pvalue n (toks v @ r) = Some (v, r)"
  "vs \<noteq> [] \<Longrightarrow> 2 * length (toks_elems vs) < n \<Longrightarrow> pelems n (toks_elems vs @ TRBrack # r) = Some (vs, r)"
  "kvs \<noteq> [] \<Longrightarrow> 2 * length (toks_members kvs) < n \<Longrightarrow> pmembers n (toks_members kvs @ TRBrace # r) = Some (kvs, r)"
proof (induction v and vs and kvs arbitrary: n r and n r and n r rule: toks_toks_elems_toks_members.induct)
  case (5 vs)
  obtain n' where n: "n = Suc n'" using "5.prems" by (cases n) auto
  show ?case
  proof (cases vs)
    case (Cons w ws)
    have "hd (toks_elems vs @ TRBrack # r) \<noteq> TRBrack" using toks_hd [of w] Cons by simp
    then show ?thesis using 5 n Cons by simp
  qed (use n in simp)
next
  case (6 kvs)
  obtain n' where n: "n = Suc n'" using "6.prems" by (cases n) auto
  show ?case
  proof (cases kvs)
    case (Cons w ws)
    have "hd (toks_members kvs @ TRBrace # r) \<noteq> TRBrace" using Cons by (cases w) simp
    then show ?thesis using 6 n Cons by simp
  qed (use n in simp)
next
  case (8 v vs)
  obtain n' where n: "n = Suc n'" using "8.prems" by (cases n) auto
  then show ?case using 8 by (cases vs) simp_all
next
  case (10 k v kvs)
  obtain n' where n: "n = Suc n'" using "10.prems" by (cases n) auto
  then show ?case using 10 by (cases kvs) simp_all
next
  case 1
  then show ?case by (cases n) simp_all
next
  case (2 b)
  then show ?case by (cases n) simp_all
next
  case (3 l)
  then show ?case by (cases n) simp_all
next
  case (4 s)
  then show ?case by (cases n) simp_all
qed simp_all

lemma lex_Nil [simp]: "lex [] = Some []"
  by (subst lex.simps) (simp add: lex_next_def)

text \<open>What was printed is read back, with invalid text replaced.\<close>

lemma depth_sanitize [simp]:
  "depth (sanitize v) = depth v" "depth_elems (sanitize_elems vs) = depth_elems vs"
  "depth_members (sanitize_members kvs) = depth_members kvs"
  by (induction v and vs and kvs rule: sanitize_sanitize_elems_sanitize_members.induct) simp_all

lemma parse_print:
  "nums_ok v \<Longrightarrow> depth v \<le> maxNestingDepth \<Longrightarrow> parse_json (print_json v) = Some (sanitize v)"
  using lex_print(1) [of v "[]"] parse_toks(1) [of "sanitize v" "2 * length (toks (sanitize v)) + 1" "[]"]
  by (simp add: parse_json_def)

lemma depth_nonneg: "0 \<le> depth_members kvs"
  by (induction kvs) (auto simp: max_def)

lemma depth_members_le: "0 \<le> n \<Longrightarrow> depth_members kvs \<le> n \<longleftrightarrow> (\<forall>x \<in> set kvs. depth (snd x) \<le> n)"
  by (induction kvs) auto

lemma depth_append [simp]: "depth_members (xs @ ys) = max (depth_members xs) (depth_members ys)"
  using depth_nonneg [of ys] by (induction xs) (auto simp: max.assoc)

text \<open>A printed value is one line: no control byte occurs in it.\<close>

definition printable :: "string \<Rightarrow> bool" where
  "printable s \<longleftrightarrow> list_all (\<lambda>c. 0x20 \<le> (of_char c :: nat)) s"

lemma hexd_printable: "d < 16 \<Longrightarrow> 0x20 \<le> (of_char (hexd d) :: nat)"
  by (simp add: hexd_def)

lemma escape_byte_printable: "(of_char c :: nat) < 0x80 \<Longrightarrow> printable (escape_byte c)"
  by (auto simp: escape_byte_def printable_def hexd_printable)

lemma escape_rune_printable:
  assumes "rune_len (c # s) = Suc n"
  shows "printable (escape_rune (take (Suc n) (c # s)))"
  using assms
proof (cases rule: rune_len_cases)
  case ascii
  then show ?thesis using escape_byte_printable by (simp add: escape_rune_def)
next
  case (multi lo hi d ds)
  have p: "take (Suc n) (c # s) = c # d # ds" using multi(3) by simp
  have "0x80 \<le> lo" using multi(1,2) by (auto simp: lead_def split: if_splits)
  then have "list_all (\<lambda>c. 0x20 \<le> (of_char c :: nat)) (c # d # ds)" using multi by (auto simp: in_range_def list_all_iff)
  then show ?thesis unfolding p by (simp add: escape_rune_def printable_def)
qed

lemma quote_body_printable: "printable (quote_body s)"
proof (induction s rule: quote_body.induct)
  case (2 c s)
  show ?case
  proof (cases "rune_len (c # s)")
    case 0
    then show ?thesis using 2 by (simp add: printable_def)
  next
    case (Suc n)
    then show ?thesis using 2 escape_rune_printable [OF Suc] by (simp add: printable_def)
  qed
qed (simp add: printable_def)

lemma print_printable:
  "nums_ok v \<Longrightarrow> printable (print_json v)" "nums_ok_elems vs \<Longrightarrow> printable (print_elems vs)"
  "nums_ok_members kvs \<Longrightarrow> printable (print_members kvs)"
proof (induction v and vs and kvs rule: print_json_print_elems_print_members.induct)
  case (3 l)
  then show ?case by (auto simp: printable_def list_all_iff num_char_def byte_class_defs)
next
  case (4 s)
  then show ?case using quote_body_printable [of s] by (simp add: printable_def quote_def)
next
  case (10 k v kvs)
  then show ?case using quote_body_printable [of k] by (simp add: printable_def quote_def)
qed (auto simp: printable_def)

end
