(* ===== verification/Go_Time.thy ===== *)
theory Go_Time
  imports Go_Numbers "HOL-Library.Monad_Syntax"
begin

text \<open>
  Times as text: the format of \<open>time.Time.MarshalJSON\<close> (RFC 3339 in UTC with a trimmed fraction), the layout of the
  event listing, and the reader
  \<open>time.Parse(time.RFC3339, s)\<close> that \<open>UnmarshalJSON\<close> accepts times with. A time is the number of nanoseconds since
  the start of year 1 in UTC, which is Go's zero time; other zones occur only as offsets in what is read. The lemma
  \<open>ParseRFC3339_Format\<close> shows that what is written is read back, for every year that can be written.
\<close>

section \<open>Dates\<close>

definition leap :: "int \<Rightarrow> bool" where
  "leap y \<longleftrightarrow> 4 dvd y \<and> (\<not> 100 dvd y \<or> 400 dvd y)"

definition month_lengths :: "bool \<Rightarrow> nat list" where
  "month_lengths l = [31, if l then 29 else 28, 31, 30, 31, 30, 31, 31, 30, 31, 30, 31]"

text \<open>Years and days before the start of year \<open>Y + 1\<close>, for full years \<open>Y\<close> from year 1.\<close>

definition days_before :: "int \<Rightarrow> int" where
  "days_before Y = 365 * Y + Y div 4 - Y div 100 + Y div 400"

text \<open>The full years and the day in the year, taking whole cycles of 400, 100, 4 and 1 years out of the days.\<close>

definition year_day :: "int \<Rightarrow> int \<times> int" where
  "year_day d =
     (let a = d div 146097; d1 = d mod 146097;
          b = min 3 (d1 div 36524); d2 = d1 - 36524 * b;
          c = d2 div 1461; d3 = d2 mod 1461;
          e = min 3 (d3 div 365)
      in (400 * a + 100 * b + 4 * c + e, d3 - 365 * e))"

fun month_day :: "nat list \<Rightarrow> nat \<Rightarrow> nat \<times> nat" where
  "month_day [] d = (0, d + 1)"
| "month_day (l # ls) d = (if d < l then (1, d + 1) else (case month_day ls (d - l) of (m, k) \<Rightarrow> (m + 1, k)))"

definition date_of :: "int \<Rightarrow> int \<times> nat \<times> nat" where
  "date_of d = (case year_day d of (Y, yd) \<Rightarrow> (Y + 1, month_day (month_lengths (leap (Y + 1))) (nat yd)))"

definition days_of :: "int \<Rightarrow> nat \<Rightarrow> nat \<Rightarrow> int" where
  "days_of y m d = days_before (y - 1) + int (sum_list (take (m - 1) (month_lengths (leap y)))) + int d - 1"

lemma dvd_last:
  assumes "0 \<le> r" "r < (n :: int)"
  shows "n dvd n * q + r + 1 \<longleftrightarrow> r = n - 1"
proof -
  have "n dvd n * q + r + 1 \<longleftrightarrow> n dvd r + 1" by (metis add.assoc dvd_add_right_iff dvd_triv_left)
  also have "\<dots> \<longleftrightarrow> r = n - 1" using assms zdvd_imp_le [of n "r + 1"] by auto
  finally show ?thesis .
qed

lemma year_day:
  assumes "year_day d = (Y, yd)"
  shows "days_before Y + yd = d \<and> 0 \<le> yd \<and> yd < (if leap (Y + 1) then 366 else 365)"
proof -
  define a d1 b d2 c d3 e where "a = d div 146097" "d1 = d mod 146097" "b = min 3 (d1 div 36524)" "d2 = d1 - 36524 * b"
    "c = d2 div 1461" "d3 = d2 mod 1461" "e = min 3 (d3 div 365)"
  note defs = this
  have Y: "Y = 400 * a + 100 * b + 4 * c + e" "yd = d3 - 365 * e"
    using assms unfolding year_day_def Let_def defs by (simp_all only: prod.inject)
  have d: "d = 146097 * a + d1" "0 \<le> d1" "d1 < 146097" by (simp_all add: defs)
  have b: "0 \<le> b" "b \<le> 3" "0 \<le> d2" "d2 < 36524 + (if b = 3 then 1 else 0)" using d by (auto simp: defs min_def)
  have "d2 < 36525" using b by (simp split: if_splits)
  then have c: "d2 = 1461 * c + d3" "0 \<le> d3" "d3 < 1461" "0 \<le> c" "c \<le> 24" using b(3) unfolding defs(5,6) by simp_all
  have e: "0 \<le> e" "e \<le> 3" "0 \<le> d3 - 365 * e" "d3 - 365 * e < 365 + (if e = 3 then 1 else 0)" using c by (auto simp: defs(7) min_def)
  have Y4: "Y + 1 = 4 * (100 * a + 25 * b + c) + e + 1" and Y4': "Y = 4 * (100 * a + 25 * b + c) + e"
    and Y100: "Y + 1 = 100 * (4 * a + b) + (4 * c + e) + 1" and Y100': "Y = 100 * (4 * a + b) + (4 * c + e)"
    and Y400: "Y + 1 = 400 * a + (100 * b + 4 * c + e) + 1" and Y400': "Y = 400 * a + (100 * b + 4 * c + e)"
    unfolding Y by simp_all
  have q: "Y div 4 = 100 * a + 25 * b + c" "Y div 100 = 4 * a + b" "Y div 400 = a"
    using b c e by (auto intro!: int_div_pos_eq [OF Y4'] int_div_pos_eq [OF Y100'] int_div_pos_eq [OF Y400'])
  have sum: "days_before Y + yd = d"
    using d(1) c(1) defs(4) unfolding days_before_def q unfolding Y by simp
  have lp: "4 dvd (Y + 1) \<longleftrightarrow> e = 3" "100 dvd (Y + 1) \<longleftrightarrow> e = 3 \<and> c = 24" "400 dvd (Y + 1) \<longleftrightarrow> e = 3 \<and> c = 24 \<and> b = 3"
    subgoal using e dvd_last [of e 4 "100 * a + 25 * b + c"] unfolding Y4 by simp
    subgoal using c e dvd_last [of "4 * c + e" 100 "4 * a + b"] unfolding Y100 by simp linarith
    subgoal using b c e dvd_last [of "100 * b + 4 * c + e" 400 a] unfolding Y400 by simp linarith
    done
  have last: "yd < 365" if "e = 3" "c = 24" "b \<noteq> 3"
    using that b c unfolding Y(2) by auto
  show ?thesis using sum e last unfolding leap_def lp unfolding Y(2) by (auto split: if_splits)
qed

section \<open>Printing\<close>

fun digits :: "nat \<Rightarrow> nat \<Rightarrow> string" where
  "digits 0 n = []"
| "digits (Suc w) n = digits w (n div 10) @ [digit_char (n mod 10)]"

definition trim_zeros :: "string \<Rightarrow> string" where
  "trim_zeros s = rev (dropWhile (\<lambda>c. c = CHR ''0'') (rev s))"

definition fraction :: "nat \<Rightarrow> string" where
  "fraction ns = (if ns = 0 then [] else CHR ''.'' # trim_zeros (digits 9 ns))"

abbreviation day_ns :: int where "day_ns \<equiv> 86400000000000"

text \<open>\<open>appendStrictRFC3339\<close>: a year that does not have four digits is an error.\<close>

definition FormatRFC3339 :: "gotime \<Rightarrow> goerr + string" where
  "FormatRFC3339 t =
     (let (y, m, d) = date_of (t div day_ns); r = nat (t mod day_ns)
      in if y < 0 \<or> 9999 < y then Inl (err ''year outside of range [0,9999]'')
         else Inr (digits 4 (nat y) @ ''-'' @ digits 2 m @ ''-'' @ digits 2 d @ ''T''
           @ digits 2 (r div 3600000000000) @ '':'' @ digits 2 (r div 60000000000 mod 60) @ '':''
           @ digits 2 (r div 1000000000 mod 60) @ fraction (r mod 1000000000) @ ''Z''))"

text \<open>\<open>Time.Format("2006-01-02 15:04:05Z07:00")\<close> of a time in UTC; a year has at least four digits.\<close>

definition year_text :: "int \<Rightarrow> string" where
  "year_text y =
     (let n = nat \<bar>y\<bar> in (if y < 0 then ''-'' else []) @ (if n < 10000 then digits 4 n else dec n))"

definition FormatSeconds :: "gotime \<Rightarrow> string" where
  "FormatSeconds t =
     (let (y, m, d) = date_of (t div day_ns); r = nat (t mod day_ns)
      in year_text y @ ''-'' @ digits 2 m @ ''-'' @ digits 2 d @ '' '' @ digits 2 (r div 3600000000000) @ '':''
         @ digits 2 (r div 60000000000 mod 60) @ '':'' @ digits 2 (r div 1000000000 mod 60) @ ''Z'')"

section \<open>Reading\<close>

fun skip :: "char \<Rightarrow> string \<Rightarrow> string option" where
  "skip c [] = None"
| "skip c (d # s) = (if d = c then Some s else None)"

text \<open>\<open>getnum\<close>: one or two digits, exactly two if \<open>fixed\<close>.\<close>

fun getnum :: "bool \<Rightarrow> string \<Rightarrow> (nat \<times> string) option" where
  "getnum fixed [] = None"
| "getnum fixed [c] = (if is_digit c \<and> \<not> fixed then Some (digit_value c, []) else None)"
| "getnum fixed (c # d # s) =
     (if \<not> is_digit c then None
      else if is_digit d then Some (digit_value c * 10 + digit_value d, s)
      else if fixed then None else Some (digit_value c, d # s))"

definition number :: "string \<Rightarrow> nat" where
  "number s = foldl (\<lambda>n c. n * 10 + digit_value c) 0 s"

definition getyear :: "string \<Rightarrow> (nat \<times> string) option" where
  "getyear s = (if 4 \<le> length s \<and> list_all is_digit (take 4 s) then Some (number (take 4 s), drop 4 s) else None)"

text \<open>A fraction after the seconds: a period or a comma and digits, of which the first nine count.\<close>

definition getfrac :: "string \<Rightarrow> nat \<times> string" where
  "getfrac s =
     (case s of
        c # d # r \<Rightarrow>
          if (c = CHR ''.'' \<or> c = CHR '','') \<and> is_digit d
          then (let ds = take 9 (takeWhile is_digit (d # r))
                in (number ds * 10 ^ (9 - length ds), dropWhile is_digit (d # r)))
          else (0, s)
      | _ \<Rightarrow> (0, s))"

text \<open>The zone: \<open>Z\<close> or an offset in hours and minutes, in seconds.\<close>

definition getzone :: "string \<Rightarrow> (int \<times> string) option" where
  "getzone s =
     (case s of
        CHR ''Z'' # r \<Rightarrow> Some (0, r)
      | sign # h1 # h2 # c # m1 # m2 # r \<Rightarrow>
          if c \<noteq> CHR '':'' then None
          else (case (getnum True [h1, h2], getnum True [m1, m2]) of
                  (Some (hr, _), Some (mm, _)) \<Rightarrow>
                    if 24 < hr \<or> 60 < mm then None
                    else if sign = CHR ''+'' then Some (int (hr * 60 + mm) * 60, r)
                    else if sign = CHR ''-'' then Some (- (int (hr * 60 + mm) * 60), r)
                    else None
                | _ \<Rightarrow> None)
      | _ \<Rightarrow> None)"

definition ParseRFC3339 :: "string \<Rightarrow> gotime option" where
  "ParseRFC3339 s0 =
     do { (y, s) \<leftarrow> getyear s0;
          s \<leftarrow> skip CHR ''-'' s;
          (m, s) \<leftarrow> getnum True s;
          (if m = 0 \<or> 12 < m then None else Some ());
          s \<leftarrow> skip CHR ''-'' s;
          (d, s) \<leftarrow> getnum True s;
          s \<leftarrow> skip CHR ''T'' s;
          (hh, s) \<leftarrow> getnum False s;
          (if 24 \<le> hh then None else Some ());
          s \<leftarrow> skip CHR '':'' s;
          (mi, s) \<leftarrow> getnum True s;
          (if 60 \<le> mi then None else Some ());
          s \<leftarrow> skip CHR '':'' s;
          (ss, s) \<leftarrow> getnum True s;
          (if 60 \<le> ss then None else Some ());
          let (ns, s) = getfrac s;
          (zone, s) \<leftarrow> getzone s;
          (if s \<noteq> [] \<or> d = 0 \<or> month_lengths (leap (int y)) ! (m - 1) < d then None else Some ());
          Some (days_of (int y) m d * day_ns
            + (int ((hh * 60 + mi) * 60 + ss) - zone) * 1000000000 + int ns) }"

section \<open>What is printed is read back\<close>

lemma month_day:
  assumes "d < sum_list ls" "month_day ls d = (m, k)"
  shows "1 \<le> m \<and> m \<le> length ls \<and> 1 \<le> k \<and> k \<le> ls ! (m - 1) \<and> sum_list (take (m - 1) ls) + k = Suc d"
  using assms
proof (induction ls arbitrary: d m)
  case (Cons l ls)
  show ?case
  proof (cases "d < l")
    case False
    obtain m' where m': "month_day ls (d - l) = (m', k)" "m = Suc m'"
      using Cons.prems False by (auto split: prod.splits)
    have "d - l < sum_list ls" using Cons.prems(1) False by simp
    from Cons.IH [OF this m'(1)] False m'(2) show ?thesis
      by (cases m') auto
  qed (use Cons.prems in auto)
qed simp

lemma date_of:
  assumes "date_of D = (y, m, d)"
  shows "days_of y m d = D \<and> 1 \<le> m \<and> m \<le> 12 \<and> 1 \<le> d \<and> d \<le> month_lengths (leap y) ! (m - 1) \<and> d \<le> 31"
proof -
  obtain Y yd where Y: "year_day D = (Y, yd)" by fastforce
  have y: "y = Y + 1" "month_day (month_lengths (leap y)) (nat yd) = (m, d)"
    using assms by (auto simp: date_of_def Y)
  note yd = year_day [OF Y]
  have "nat yd < sum_list (month_lengths (leap y))"
    using yd y(1) by (auto simp: month_lengths_def split: if_splits)
  from month_day [OF this y(2)] have m: "1 \<le> m" "m \<le> 12" "1 \<le> d" "d \<le> month_lengths (leap y) ! (m - 1)"
    "sum_list (take (m - 1) (month_lengths (leap y))) + d = Suc (nat yd)"
    by (auto simp: month_lengths_def)
  have "list_all (\<lambda>n. n \<le> 31) (month_lengths (leap y))" by (simp add: month_lengths_def)
  then have "month_lengths (leap y) ! (m - 1) \<le> 31"
    using m(1,2) by (auto simp: list_all_length month_lengths_def)
  with m yd y(1) show ?thesis by (auto simp: days_of_def)
qed

lemma digits_simps [simp]: "length (digits w n) = w" "list_all is_digit (digits w n)"
  by (induction w arbitrary: n) (simp_all add: digit_char_digit)

lemma number_append: "number (s @ t) = number s * 10 ^ length t + number t"
proof (induction t rule: rev_induct)
  case (snoc c t)
  then show ?case by (simp add: number_def algebra_simps)
qed (simp add: number_def)

lemma number_zeros: "number (replicate k CHR ''0'') = 0"
  by (induction k) (simp_all add: number_def digit_value_def)

lemma number_digits: "number (digits w n) = n mod 10 ^ w"
proof (induction w arbitrary: n)
  case (Suc w)
  have "number [digit_char (n mod 10)] = n mod 10" by (simp add: number_def digit_char_digit)
  with Suc show ?case by (simp add: number_append mod_mult2_eq)
qed (simp add: number_def)

lemma getnum_digits: "n < 100 \<Longrightarrow> getnum fixed (digits 2 n @ s) = Some (n, s)"
  by (simp add: numeral_2_eq_2 digit_char_digit)

lemma getyear_digits: "n < 10000 \<Longrightarrow> getyear (digits 4 n @ s) = Some (n, s)"
  by (simp add: getyear_def number_digits)

lemma trim_zeros: "\<exists>k. s = trim_zeros s @ replicate k CHR ''0''"
proof (induction s rule: rev_induct)
  case (snoc c s)
  show ?case
  proof (cases "c = CHR ''0''")
    case True
    obtain k where k: "s = trim_zeros s @ replicate k CHR ''0''" using snoc by blast
    have "trim_zeros (s @ [c]) = trim_zeros s" using True by (simp add: trim_zeros_def)
    then have "s @ [c] = trim_zeros (s @ [c]) @ replicate (Suc k) CHR ''0''"
      using arg_cong [OF k, of "\<lambda>x. x @ [CHR ''0'']"] True by (simp add: replicate_append_same)
    then show ?thesis by blast
  qed (auto simp: trim_zeros_def intro: exI [of _ 0])
qed (simp add: trim_zeros_def)

lemma getfrac_fraction:
  assumes "ns < 1000000000"
  shows "getfrac (fraction ns @ ''Z'') = (ns, ''Z'')"
proof (cases "ns = 0")
  case False
  obtain k where k: "digits 9 ns = trim_zeros (digits 9 ns) @ replicate k CHR ''0''" using trim_zeros by blast
  let ?ds = "trim_zeros (digits 9 ns)"
  have len: "length ?ds + k = 9" by (metis digits_simps(1) k length_append length_replicate)
  have dig: "list_all is_digit ?ds" using digits_simps(2) [of 9 ns] by (subst (asm) k) simp
  have num: "number ?ds * 10 ^ k = ns"
    using arg_cong [OF k, of number] assms by (simp add: number_digits number_append number_zeros)
  then have "?ds \<noteq> []" using False by (auto simp: number_def)
  then obtain c ds where ds: "?ds = c # ds" by (cases ?ds) auto
  have tw: "takeWhile is_digit (c # ds @ ''Z'') = ?ds" "dropWhile is_digit (c # ds @ ''Z'') = ''Z''"
    using dig takeWhile_append2 [of ?ds is_digit "''Z''"] dropWhile_append2 [of ?ds is_digit "''Z''"]
    by (simp_all add: ds list_all_iff byte_class_defs)
  have "getfrac (CHR ''.'' # ?ds @ ''Z'') = (number ?ds * 10 ^ (9 - length ?ds), ''Z'')"
    using dig tw len unfolding ds getfrac_def by simp
  moreover have "9 - length ?ds = k" using len by simp
  ultimately show ?thesis using num False by (simp add: fraction_def)
qed (simp add: getfrac_def fraction_def)

definition writable_time :: "gotime \<Rightarrow> bool" where
  "writable_time t \<longleftrightarrow> (case date_of (t div day_ns) of (y, _, _) \<Rightarrow> 0 \<le> y \<and> y \<le> 9999)"

lemma clock_split:
  assumes "r < (86400000000000 :: nat)"
  shows "((r div 3600000000000 * 60 + r div 60000000000 mod 60) * 60 + r div 1000000000 mod 60) * 1000000000
      + r mod 1000000000 = r" and "r div 3600000000000 < 24"
proof -
  define q where "q = r div 1000000000"
  have m: "r div 60000000000 = q div 60" and h: "r div 3600000000000 = q div 60 div 60"
    by (simp_all add: q_def div_mult2_eq [symmetric])
  show "((r div 3600000000000 * 60 + r div 60000000000 mod 60) * 60 + r div 1000000000 mod 60) * 1000000000
      + r mod 1000000000 = r"
    unfolding m h q_def [symmetric] by (simp add: q_def)
  show "r div 3600000000000 < 24" using assms by (simp add: div_less_iff_less_mult)
qed

lemma ParseRFC3339_Format:
  assumes "writable_time t"
  shows "\<exists>s. FormatRFC3339 t = Inr s \<and> ParseRFC3339 s = Some t"
proof -
  obtain y m d where ymd: "date_of (t div day_ns) = (y, m, d)" by (cases "date_of (t div day_ns)") auto
  have y: "0 \<le> y" "y \<le> 9999" using assms by (simp_all add: writable_time_def ymd)
  note dt = date_of [OF ymd]
  define r where "r = nat (t mod day_ns)"
  have rt: "r < 86400000000000" "t = t div day_ns * day_ns + int r" by (simp_all add: r_def)
  note cl = clock_split [OF rt(1)]
  let ?hh = "r div 3600000000000" and ?mi = "r div 60000000000 mod 60" and ?ss = "r div 1000000000 mod 60"
  let ?ns = "r mod 1000000000"
  let ?s = "digits 4 (nat y) @ ''-'' @ digits 2 m @ ''-'' @ digits 2 d @ ''T'' @ digits 2 ?hh @ '':'' @ digits 2 ?mi
    @ '':'' @ digits 2 ?ss @ fraction ?ns @ ''Z''"
  have f: "FormatRFC3339 t = Inr ?s" using y by (simp add: FormatRFC3339_def ymd r_def Let_def)
  have small: "m < 100" "d < 100" "?hh < 100" "?mi < 100" "?ss < 100" "nat y < 10000" "?ns < 1000000000"
    using dt y less_trans [OF cl(2), of 100] less_trans [of ?mi 60 100] less_trans [of ?ss 60 100]
    by (simp_all only: mod_less_divisor zero_less_numeral) (simp_all add: nat_less_iff)
  have val: "days_of y m d * day_ns + int ((?hh * 60 + ?mi) * 60 + ?ss) * 1000000000 + int ?ns = t"
  proof -
    have "D * day_ns + int x * 1000000000 + int n = D * day_ns + int k" if "x * 1000000000 + n = k" for D x n k
      using that by auto
    from this [OF cl(1)] show ?thesis using dt rt(2) by metis
  qed
  have ranges: "\<not> (m = 0 \<or> 12 < m)" "\<not> 24 \<le> ?hh" "\<not> 60 \<le> ?mi" "\<not> 60 \<le> ?ss"
    "\<not> (d = 0 \<or> month_lengths (leap y) ! (m - 1) < d)"
    using dt cl(2) by (auto simp: not_le)
  have zone: "getzone ''Z'' = Some (0, [])" "int (nat y) = y" using y(1) by (simp_all add: getzone_def)
  have "ParseRFC3339 ?s = Some (days_of y m d * day_ns + (int ((?hh * 60 + ?mi) * 60 + ?ss) - 0) * 1000000000 + int ?ns)"
    unfolding ParseRFC3339_def append_Cons append_Nil
    by (simp only: getyear_digits getnum_digits getfrac_fraction small skip.simps bind.bind_lunit prod.case Let_def if_True
        ranges if_False zone refl not_True_eq_False simp_thms)
  then have "ParseRFC3339 ?s = Some t" using val by simp
  then show ?thesis using f by blast
qed

lemma FormatRFC3339_error: "\<not> writable_time t \<Longrightarrow> \<exists>e. FormatRFC3339 t = Inl e"
  by (auto simp: writable_time_def FormatRFC3339_def Let_def split: prod.splits)

definition time_char :: "char \<Rightarrow> bool" where
  "time_char c \<longleftrightarrow> is_digit c \<or> c \<in> {CHR ''-'', CHR '':'', CHR ''.'', CHR ''T'', CHR ''Z''}"

lemma trim_zeros_set: "set (trim_zeros s) \<subseteq> set s"
  by (auto simp: trim_zeros_def dest: set_dropWhileD)

lemma FormatRFC3339_chars: "FormatRFC3339 t = Inr s \<Longrightarrow> list_all time_char s"
proof -
  have d: "list_all time_char (digits w n)" for w n
    using digits_simps(2) [of w n] unfolding list_all_iff time_char_def by blast
  moreover have "list_all time_char (fraction n)" for n
    using d [of 9 n] trim_zeros_set [of "digits 9 n"] by (auto simp: fraction_def list_all_iff time_char_def)
  moreover have "time_char CHR ''-''" "time_char CHR '':''" "time_char CHR ''T''" "time_char CHR ''Z''"
    by (simp_all add: time_char_def)
  ultimately show "FormatRFC3339 t = Inr s \<Longrightarrow> list_all time_char s"
    by (auto simp del: digits.simps simp: FormatRFC3339_def Let_def split: prod.splits if_splits)
qed

end
