(* ===== verification/Json_Struct.thy ===== *)
theory Json_Struct
  imports Go_Json Go_Time
begin

text \<open>
  How \<open>encoding/json\<close> prints and fills a structure: members in field order with \<open>omitempty\<close>, field lookup by exact name
  and then without regard to case, unknown members skipped, \<open>null\<close> as no change, later members over earlier ones. A
  structure is given by its field names and a function that sets one field from a value; the locale \<open>json_struct\<close> holds
  the steps in which what was printed is read back. The messages of codec errors are not modelled.
\<close>

section \<open>Printing\<close>

definition plain_num :: "string \<Rightarrow> bool" where
  "plain_num l \<longleftrightarrow> valid_number l \<and> list_all num_char l"

definition opt_field :: "string \<Rightarrow> bool \<Rightarrow> json \<Rightarrow> (string \<times> json) list" where
  "opt_field name nonempty v = (if nonempty then [(name, v)] else [])"

abbreviation opt_str :: "string \<Rightarrow> string \<Rightarrow> (string \<times> json) list" where
  "opt_str name s \<equiv> opt_field name (s \<noteq> []) (JsonStr s)"

section \<open>Reading\<close>

text \<open>
  Whether \<open>strconv.ParseFloat(l, 64)\<close> is in range: the digits as one number, scaled by the exponent, lie below the
  point from which rounding leaves the finite values.
\<close>

definition number_parts :: "string \<Rightarrow> nat \<times> int" where
  "number_parts l =
     (let s1 = (if l \<noteq> [] \<and> hd l = CHR ''-'' then tl l else l); ip = takeWhile is_digit s1; s2 = dropWhile is_digit s1;
          (fp, s3) = (if s2 \<noteq> [] \<and> hd s2 = CHR ''.'' then (takeWhile is_digit (tl s2), dropWhile is_digit (tl s2)) else ([], s2));
          ex = (if s3 = [] then 0
                else let t = tl s3 in
                  if t \<noteq> [] \<and> hd t = CHR ''-'' then - int (number (tl t))
                  else if t \<noteq> [] \<and> hd t = CHR ''+'' then int (number (tl t)) else int (number t))
      in (number (ip @ fp), ex - int (length fp)))"

definition float_limit :: nat where "float_limit = (2 ^ 54 - 1) * 2 ^ 970"

definition float_fits :: "string \<Rightarrow> bool" where
  "float_fits l =
     (let (m, ex) = number_parts l
      in if 0 \<le> ex then m * 10 ^ nat ex < float_limit else m < float_limit * 10 ^ nat (- ex))"

text \<open>
  Field names without regard to case: ASCII letters, and the two other code points that fold to one (the Kelvin
  sign and the long s).
\<close>

fun fold_name :: "string \<Rightarrow> string" where
  "fold_name [] = []"
| "fold_name (c # s) =
     (if c = CHR 0xE2 \<and> take 2 s = [CHR 0x84, CHR 0xAA] then CHR ''K'' # fold_name (drop 2 s)
      else if c = CHR 0xC5 \<and> take 1 s = [CHR 0xBF] then CHR ''S'' # fold_name (drop 1 s)
      else (if in_range 97 122 c then char_of (of_char c - 32 :: nat) else c) # fold_name s)"

definition field_key :: "string list \<Rightarrow> string \<Rightarrow> string option" where
  "field_key fields k = (if k \<in> set fields then Some k else find (\<lambda>n. fold_name n = fold_name k) fields)"

definition mismatch :: goerr where "mismatch = err ''json: cannot unmarshal''"

fun get_str :: "json \<Rightarrow> string \<Rightarrow> goerr + string" where
  "get_str JsonNull old = Inr old"
| "get_str (JsonStr s) old = Inr s"
| "get_str _ old = Inl mismatch"

fun get_int :: "json \<Rightarrow> int \<Rightarrow> goerr + int" where
  "get_int JsonNull old = Inr old"
| "get_int (JsonNum l) old = (case Atoi l of Inl _ \<Rightarrow> Inl mismatch | Inr n \<Rightarrow> Inr n)"
| "get_int _ old = Inl mismatch"

fun get_uint64 :: "json \<Rightarrow> uint64 \<Rightarrow> goerr + uint64" where
  "get_uint64 JsonNull old = Inr old"
| "get_uint64 (JsonNum l) old = (case ParseUint l of Inl _ \<Rightarrow> Inl mismatch | Inr n \<Rightarrow> Inr n)"
| "get_uint64 _ old = Inl mismatch"

fun get_time :: "json \<Rightarrow> gotime \<Rightarrow> goerr + gotime" where
  "get_time JsonNull old = Inr old"
| "get_time (JsonStr s) old = (case ParseRFC3339 s of None \<Rightarrow> Inl mismatch | Some t \<Rightarrow> Inr t)"
| "get_time _ old = Inl mismatch"

definition put :: "goerr + 'a \<Rightarrow> ('a \<Rightarrow> 'r) \<Rightarrow> goerr + 'r" where
  "put r upd = (case r of Inl e \<Rightarrow> Inl e | Inr x \<Rightarrow> Inr (upd x))"

fun set_fields :: "string list \<Rightarrow> (string \<Rightarrow> json \<Rightarrow> 'r \<Rightarrow> goerr + 'r) \<Rightarrow> (string \<times> json) list \<Rightarrow> 'r \<Rightarrow> goerr + 'r" where
  "set_fields fields setf [] r = Inr r"
| "set_fields fields setf ((k, v) # kvs) r =
     (case field_key fields k of
        None \<Rightarrow> set_fields fields setf kvs r
      | Some n \<Rightarrow> (case setf n v r of Inl er \<Rightarrow> Inl er | Inr r1 \<Rightarrow> set_fields fields setf kvs r1))"

section \<open>Lemmas\<close>

lemma split_dec [simp]: "takeWhile is_digit (dec n) = dec n" "dropWhile is_digit (dec n) = []" "\<forall>x \<in> set (dec n). is_digit x"
  using dec_digits [of n] by (simp_all add: list_all_iff)

lemma plain_num_dec: "plain_num (dec n)"
proof -
  have "hd (dec n) = CHR ''0'' \<longrightarrow> length (dec n) = 1"
    using dec_leading_zero [of n] by (auto simp: dec.simps [of 0])
  moreover have "list_all num_char (dec n)" using dec_digits [of n] by (auto simp: list_all_iff num_char_def)
  ultimately show ?thesis
    using dec_hd [of n] by (simp add: plain_num_def valid_number_def valid_exponent_def Let_def)
qed

lemma plain_num_fmt_int: "plain_num (fmt_int n)"
proof (cases "n < 0")
  case True
  have "valid_number (CHR ''-'' # dec k)" for k
    using plain_num_dec [of k] dec_hd [of k] by (simp add: plain_num_def valid_number_def valid_exponent_def Let_def)
  with True plain_num_dec show ?thesis by (simp add: fmt_int_def plain_num_def num_char_def)
qed (simp add: fmt_int_def plain_num_dec)

lemma time_to_valid: "FormatRFC3339 t = Inr s \<Longrightarrow> to_valid s = s"
proof -
  assume "FormatRFC3339 t = Inr s"
  then have "list_all time_char s" by (rule FormatRFC3339_chars)
  then have "list_all (\<lambda>c. (of_char c :: nat) < 0x80) s"
    by (auto simp: list_all_iff time_char_def byte_class_defs)
  then show ?thesis by (rule to_valid_ascii)
qed

lemma number_dec: "number (dec n) = n"
proof (induction n rule: dec.induct)
  case (1 n)
  show ?case
  proof (cases "n < 10")
    case True
    then show ?thesis using digit_char_digit by (simp add: dec.simps [of n] number_def)
  next
    case False
    have "number [digit_char (n mod 10)] = n mod 10" using digit_char_digit [of "n mod 10"] by (simp add: number_def)
    then show ?thesis using 1 False by (simp add: dec.simps [of n] number_append)
  qed
qed

lemma number_parts_fmt_int: "number_parts (fmt_int n) = (nat \<bar>n\<bar>, 0)"
proof -
  have "number_parts (dec k) = (k, 0)" "number_parts (CHR ''-'' # dec k) = (k, 0)" for k
    using dec_hd [of k] by (simp_all add: number_parts_def number_dec Let_def)
  then show ?thesis by (simp add: fmt_int_def)
qed

lemma float_fits_fmt_int:
  assumes "- (2 ^ 63) \<le> n" "n < 2 ^ 64"
  shows "float_fits (fmt_int n)"
proof -
  have "nat \<bar>n\<bar> < 2 ^ 64" using assms by simp
  also have "(2 :: nat) ^ 64 \<le> float_limit" unfolding float_limit_def by simp
  finally show ?thesis by (simp add: float_fits_def number_parts_fmt_int)
qed

lemma nums_ok_members_all: "nums_ok_members kvs \<longleftrightarrow> list_all (nums_ok \<circ> snd) kvs"
  by (induction kvs) auto

lemma nums_ok_append: "nums_ok_members (xs @ ys) \<longleftrightarrow> nums_ok_members xs \<and> nums_ok_members ys"
  by (simp add: nums_ok_members_all)

lemma nums_ok_opt: "nums_ok_members (opt_field n c v) \<longleftrightarrow> (c \<longrightarrow> nums_ok v)"
  by (simp add: opt_field_def)

text \<open>A printed object is one line that ends in a brace.\<close>

lemma print_object_line:
  assumes "nums_ok_members kvs"
  shows "print_json (JsonObj kvs) \<noteq> [] \<and> CHR 0x0A \<notin> set (print_json (JsonObj kvs)) \<and> last (print_json (JsonObj kvs)) \<noteq> CHR 0x0D"
proof -
  have "printable (print_json (JsonObj kvs))" using print_printable(1) [of "JsonObj kvs"] assms by simp
  then have "CHR 0x0A \<notin> set (print_json (JsonObj kvs))" by (auto simp: printable_def list_all_iff)
  then show ?thesis by simp
qed

section \<open>What is printed is read back\<close>

text \<open>One member of the printed object: what it sets, whether it is there or left out as empty.\<close>

locale json_struct =
  fixes fields :: "string list" and setf :: "string \<Rightarrow> json \<Rightarrow> 'r \<Rightarrow> goerr + 'r"
  assumes ascii: "k \<in> set fields \<Longrightarrow> list_all (\<lambda>c. (of_char c :: nat) < 0x80) k"
begin

lemma known: "k \<in> set fields \<Longrightarrow> field_key fields k = Some k \<and> to_valid k = k"
  by (simp add: field_key_def to_valid_ascii ascii)

lemma set_member:
  "n \<in> set fields \<Longrightarrow> set_fields fields setf (sanitize_members ((n, v) # rest)) r
    = (case setf n (sanitize v) r of Inl er \<Rightarrow> Inl er | Inr r1 \<Rightarrow> set_fields fields setf (sanitize_members rest) r1)"
  by (simp add: known)

lemma set_opt_str:
  "n \<in> set fields \<Longrightarrow> setf n (JsonStr []) r = Inr r \<Longrightarrow> set_fields fields setf (sanitize_members (opt_str n x @ rest)) r
    = (case setf n (JsonStr (to_valid x)) r of Inl er \<Rightarrow> Inl er | Inr r1 \<Rightarrow> set_fields fields setf (sanitize_members rest) r1)"
  by (simp add: opt_field_def known)

lemma set_opt_num:
  "n \<in> set fields \<Longrightarrow> c \<or> setf n (JsonNum l) r = Inr r \<Longrightarrow> set_fields fields setf (sanitize_members (opt_field n c (JsonNum l) @ rest)) r
    = (case setf n (JsonNum l) r of Inl er \<Rightarrow> Inl er | Inr r1 \<Rightarrow> set_fields fields setf (sanitize_members rest) r1)"
  by (auto simp: opt_field_def known)

lemma set_opt_bool:
  "n \<in> set fields \<Longrightarrow> c \<or> setf n (JsonBool b) r = Inr r \<Longrightarrow> set_fields fields setf (sanitize_members (opt_field n c (JsonBool b) @ rest)) r
    = (case setf n (JsonBool b) r of Inl er \<Rightarrow> Inl er | Inr r1 \<Rightarrow> set_fields fields setf (sanitize_members rest) r1)"
  by (auto simp: opt_field_def known)

lemma set_opt_last:
  "n \<in> set fields \<Longrightarrow> c \<or> setf n (JsonBool b) r = Inr r
    \<Longrightarrow> set_fields fields setf (sanitize_members (opt_field n c (JsonBool b))) r = setf n (JsonBool b) r"
  by (auto simp: opt_field_def known split: sum.splits)

lemma set_opt_obj:
  "n \<in> set fields \<Longrightarrow> c \<or> setf n (JsonObj (sanitize_members ds)) r = Inr r
    \<Longrightarrow> set_fields fields setf (sanitize_members (opt_field n c (JsonObj ds))) r = setf n (JsonObj (sanitize_members ds)) r"
  by (auto simp: opt_field_def known split: sum.splits)

end

end
