(* ===== verification/Go_Parsers.thy ===== *)
theory Go_Parsers
  imports Go_Numbers
begin

text \<open>
  The parsers behind typed flags and configured durations: \<open>strconv.ParseUint(s, 0, 64)\<close> and \<open>ParseInt(s, 0, 64)\<close> with
  base prefixes and underscores, and \<open>time.ParseDuration\<close>. The fraction of a duration is computed in \<open>float64\<close>, so the
  theory defines the nearest-even rounding of that type to a 53-bit significand; infinities and subnormal numbers, which
  a fraction with hundreds of digits could reach, lead to the same truncated number of nanoseconds (zero). Lemmas bound
  the results to their machine types.
\<close>

section \<open>Integers with a base prefix\<close>

abbreviation lower :: "char \<Rightarrow> nat" where "lower c \<equiv> (if in_range 65 90 c then of_char c + 32 else of_char c)"

definition digit_in :: "nat \<Rightarrow> char \<Rightarrow> nat option" where
  "digit_in base c =
     (let d = (if is_digit c then Some (digit_value c)
               else if 97 \<le> lower c \<and> lower c \<le> 122 then Some (lower c - 97 + 10) else None)
      in case d of None \<Rightarrow> None | Some v \<Rightarrow> if base \<le> v then None else Some v)"

text \<open>The scanning loop; underscores are skipped and checked afterwards.\<close>

fun scan_base :: "nat \<Rightarrow> int \<Rightarrow> string \<Rightarrow> goerr + int" where
  "scan_base base n [] = Inr n"
| "scan_base base n (c # cs) =
     (if c = CHR ''_'' then scan_base base n cs
      else (case digit_in base c of
              None \<Rightarrow> Inl ErrSyntax
            | Some d \<Rightarrow> if 2 ^ 64 \<le> n * int base + int d then Inl ErrRange else scan_base base (n * int base + int d) cs))"

definition base_prefix :: "string \<Rightarrow> nat \<times> string" where
  "base_prefix s =
     (if s = [] \<or> hd s \<noteq> CHR ''0'' then (10, s)
      else if 3 \<le> length s \<and> lower (s ! 1) = 98 then (2, drop 2 s)
      else if 3 \<le> length s \<and> lower (s ! 1) = 111 then (8, drop 2 s)
      else if 3 \<le> length s \<and> lower (s ! 1) = 120 then (16, drop 2 s)
      else (8, drop 1 s))"

text \<open>\<open>underscoreOK\<close>: an underscore stands between digits or after the prefix.\<close>

datatype saw = SawStart | SawDigit | SawUnderscore | SawOther

fun underscore_loop :: "bool \<Rightarrow> saw \<Rightarrow> string \<Rightarrow> bool" where
  "underscore_loop hex saw [] = (saw \<noteq> SawUnderscore)"
| "underscore_loop hex saw (c # cs) =
     (if is_digit c \<or> hex \<and> 97 \<le> lower c \<and> lower c \<le> 102 then underscore_loop hex SawDigit cs
      else if c = CHR ''_'' then saw = SawDigit \<and> underscore_loop hex SawUnderscore cs
      else saw \<noteq> SawUnderscore \<and> underscore_loop hex SawOther cs)"

definition underscoreOK :: "string \<Rightarrow> bool" where
  "underscoreOK s0 =
     (let s = (if s0 \<noteq> [] \<and> (hd s0 = CHR ''-'' \<or> hd s0 = CHR ''+'') then tl s0 else s0)
      in if 2 \<le> length s \<and> hd s = CHR ''0'' \<and> lower (s ! 1) \<in> {98, 111, 120}
         then underscore_loop (lower (s ! 1) = 120) SawDigit (drop 2 s)
         else underscore_loop False SawStart s)"

definition scan_prefixed :: "string \<Rightarrow> goerr + int" where
  "scan_prefixed s =
     (if s = [] then Inl ErrSyntax
      else (case scan_base (fst (base_prefix s)) 0 (snd (base_prefix s)) of
              Inl e \<Rightarrow> Inl e
            | Inr n \<Rightarrow> if CHR ''_'' \<in> set (snd (base_prefix s)) \<and> \<not> underscoreOK s then Inl ErrSyntax else Inr n))"

definition ParseUint0 :: "string \<Rightarrow> goerr + uint64" where
  "ParseUint0 s = (case scan_prefixed s of Inl e \<Rightarrow> Inl e | Inr n \<Rightarrow> Inr (of_int n))"

definition ParseInt0 :: "string \<Rightarrow> goerr + int" where
  "ParseInt0 s =
     (let neg = (s \<noteq> [] \<and> hd s = CHR ''-''); t = (if s \<noteq> [] \<and> (hd s = CHR ''-'' \<or> hd s = CHR ''+'') then tl s else s)
      in if s = [] then Inl ErrSyntax
         else (case scan_prefixed t of
                 Inl e \<Rightarrow> Inl e
               | Inr n \<Rightarrow>
                   if \<not> neg \<and> 2 ^ 63 \<le> n then Inl ErrRange
                   else if neg \<and> 2 ^ 63 < n then Inl ErrRange
                   else Inr (if neg then - n else n)))"

section \<open>Rounding to \<open>float64\<close>\<close>

text \<open>A number \<open>m * 2 ^ e\<close>.\<close>

type_synonym float64 = "int \<times> int"

function bitlen :: "int \<Rightarrow> nat" where
  "bitlen n = (if n \<le> 0 then 0 else Suc (bitlen (n div 2)))"
  by pat_completeness auto
termination by (relation "measure nat") auto

declare bitlen.simps [simp del]

text \<open>The float nearest to \<open>a / b\<close>, ties to even: 54 or 55 bits of the quotient and whether it is exact decide.\<close>

definition fl :: "int \<Rightarrow> int \<Rightarrow> float64" where
  "fl a b =
     (if a = 0 then (0, 0)
      else
        (let sh = int (bitlen b) + 54 - int (bitlen a);
             num = a * 2 ^ nat sh; den = b * 2 ^ nat (- sh);
             q = num div den; sticky = (num mod den \<noteq> 0);
             extra = bitlen q - 53; m = q div 2 ^ extra; r = q mod 2 ^ extra; half = 2 ^ (extra - 1)
         in (if half < r \<or> r = half \<and> (sticky \<or> odd m) then m + 1 else m, int extra - sh)))"

definition fl_mul :: "float64 \<Rightarrow> float64 \<Rightarrow> float64" where
  "fl_mul x y = (case fl (fst x * fst y) 1 of (m, e) \<Rightarrow> (m, e + snd x + snd y))"

definition fl_div :: "float64 \<Rightarrow> float64 \<Rightarrow> float64" where
  "fl_div x y = (case fl (fst x) (fst y) of (m, e) \<Rightarrow> (m, e + snd x - snd y))"

definition fl_trunc :: "float64 \<Rightarrow> int" where
  "fl_trunc x = fst x * 2 ^ nat (snd x) div 2 ^ nat (- snd x)"

section \<open>Durations\<close>

text \<open>\<open>leadingInt\<close>: \<open>None\<close> is the overflow error.\<close>

fun leadingInt :: "int \<Rightarrow> string \<Rightarrow> (int \<times> string) option" where
  "leadingInt x [] = Some (x, [])"
| "leadingInt x (c # s) =
     (if \<not> is_digit c then Some (x, c # s)
      else if 2 ^ 63 div 10 < x then None
      else if 2 ^ 63 < x * 10 + int (digit_value c) then None
      else leadingInt (x * 10 + int (digit_value c)) s)"

text \<open>\<open>leadingFraction\<close>: digits after an overflow are skipped.\<close>

fun leadingFraction :: "bool \<Rightarrow> int \<Rightarrow> float64 \<Rightarrow> string \<Rightarrow> int \<times> float64 \<times> string" where
  "leadingFraction overflow x scale [] = (x, scale, [])"
| "leadingFraction overflow x scale (c # s) =
     (if \<not> is_digit c then (x, scale, c # s)
      else if overflow \<or> (2 ^ 63 - 1) div 10 < x \<or> 2 ^ 63 < x * 10 + int (digit_value c) then leadingFraction True x scale s
      else leadingFraction False (x * 10 + int (digit_value c)) (fl_mul scale (10, 0)) s)"

definition unitMap :: "(string \<times> int) list" where
  "unitMap = [(''ns'', 1), (''us'', 1000), ([CHR 0xC2, CHR 0xB5, CHR ''s''], 1000), ([CHR 0xCE, CHR 0xBC, CHR ''s''], 1000),
     (''ms'', 1000000), (''s'', 1000000000), (''m'', 60000000000), (''h'', 3600000000000)]"

abbreviation num_byte :: "char \<Rightarrow> bool" where "num_byte c \<equiv> c = CHR ''.'' \<or> is_digit c"

text \<open>One round of the loop: a number, a fraction and a unit, as nanoseconds, and what is left.\<close>

definition duration_part :: "string \<Rightarrow> (int \<times> string) option" where
  "duration_part s =
     (if s = [] \<or> \<not> num_byte (hd s) then None
      else (case leadingInt 0 s of
        None \<Rightarrow> None
      | Some (v, s1) \<Rightarrow>
          (let pre = (length s1 \<noteq> length s); dot = (s1 \<noteq> [] \<and> hd s1 = CHR ''.'');
               (f, scale, s2) = (if dot then leadingFraction False 0 (1, 0) (tl s1) else (0, (1, 0), s1));
               post = (dot \<and> length s2 \<noteq> length (tl s1));
               u = takeWhile (\<lambda>c. \<not> num_byte c) s2; s3 = dropWhile (\<lambda>c. \<not> num_byte c) s2
           in if \<not> pre \<and> \<not> post then None
              else if u = [] then None
              else (case map_of unitMap u of
                None \<Rightarrow> None
              | Some unit \<Rightarrow>
                  if 2 ^ 63 div unit < v then None
                  else
                    (let v1 = v * unit + (if 0 < f then fl_trunc (fl_mul (fl f 1) (fl_div (fl unit 1) scale)) else 0)
                     in if 0 < f \<and> 2 ^ 63 < v1 then None else Some (v1, s3))))))"

lemma leadingInt_shrinks: "leadingInt x s = Some (v, r) \<Longrightarrow> length r \<le> length s"
  by (induction s arbitrary: x) (auto split: if_splits dest: le_SucI)

lemma leadingFraction_shrinks: "leadingFraction ov x sc s = (f, sc', r) \<Longrightarrow> length r \<le> length s"
proof (induction s arbitrary: ov x sc)
  case (Cons c s)
  from Cons.prems show ?case by (auto simp del: split_paired_All split: if_splits dest!: Cons.IH)
qed simp

lemma duration_part_shrinks: "duration_part s = Some (v, r) \<Longrightarrow> length r < length s"
proof -
  assume a: "duration_part s = Some (v, r)"
  obtain w s1 where 1: "leadingInt 0 s = Some (w, s1)" using a by (auto simp: duration_part_def split: if_splits option.splits)
  let ?r = "if s1 \<noteq> [] \<and> hd s1 = CHR ''.'' then leadingFraction False 0 (1, 0) (tl s1) else (0, (1, 0), s1)"
  obtain f sc s2 where 2: "?r = (f, sc, s2)" by (metis prod_cases3)
  have le: "length s1 \<le> length s" "length s2 \<le> length s1"
    using leadingInt_shrinks [OF 1] 2 by (auto split: if_splits dest!: leadingFraction_shrinks)
  have "takeWhile (\<lambda>c. \<not> num_byte c) s2 \<noteq> []" "r = dropWhile (\<lambda>c. \<not> num_byte c) s2"
    using a unfolding duration_part_def by (auto simp: 1 2 Let_def split: if_splits option.splits)
  then have "length r < length s2"
    by (metis (lifting) add_less_cancel_right add_0 length_append length_greater_0_conv takeWhile_dropWhile_id)
  with le show ?thesis by simp
qed

text \<open>The loop over the parts. The sum is a \<open>uint64\<close>: it wraps before it is checked.\<close>

function duration_loop :: "int \<Rightarrow> string \<Rightarrow> int option" where
  "duration_loop d s =
     (if s = [] then Some d
      else (case duration_part s of
              None \<Rightarrow> None
            | Some (v, r) \<Rightarrow> if 2 ^ 63 < (d + v) mod 2 ^ 64 then None else duration_loop ((d + v) mod 2 ^ 64) r))"
  by pat_completeness auto
termination by (relation "measure (length \<circ> snd)") (auto dest: duration_part_shrinks)

declare duration_loop.simps [simp del]

definition ParseDuration :: "string \<Rightarrow> goerr + duration" where
  "ParseDuration s0 =
     (let neg = (s0 \<noteq> [] \<and> hd s0 = CHR ''-''); s = (if s0 \<noteq> [] \<and> (hd s0 = CHR ''-'' \<or> hd s0 = CHR ''+'') then tl s0 else s0)
      in if s = ''0'' then Inr 0
         else if s = [] then Inl (Errorf ''time: invalid duration %q'' [FStr s0])
         else (case duration_loop 0 s of
                 None \<Rightarrow> Inl (Errorf ''time: invalid duration %q'' [FStr s0])
               | Some d \<Rightarrow>
                   if neg then Inr (- d)
                   else if 2 ^ 63 - 1 < d then Inl (Errorf ''time: invalid duration %q'' [FStr s0])
                   else Inr d))"

section \<open>Bounds\<close>

lemma scan_base_bound: "scan_base base n s = Inr k \<Longrightarrow> 0 \<le> n \<Longrightarrow> n < 2 ^ 64 \<Longrightarrow> 0 \<le> k \<and> k < 2 ^ 64"
  by (induction base n s rule: scan_base.induct) (auto split: if_splits option.splits)

lemma scan_prefixed_bound: "scan_prefixed s = Inr k \<Longrightarrow> 0 \<le> k \<and> k < 2 ^ 64"
  using scan_base_bound [of "fst (base_prefix s)" 0 "snd (base_prefix s)"]
  by (auto simp: scan_prefixed_def split: if_splits sum.splits)

lemma ParseInt0_bounds: "ParseInt0 s = Inr k \<Longrightarrow> - (2 ^ 63) \<le> k \<and> k < 2 ^ 63"
  by (auto simp: ParseInt0_def Let_def split: if_splits sum.splits dest!: scan_prefixed_bound)

lemma duration_loop_bound: "duration_loop d s = Some k \<Longrightarrow> 0 \<le> d \<Longrightarrow> d \<le> 2 ^ 63 \<Longrightarrow> 0 \<le> k \<and> k \<le> 2 ^ 63"
proof (induction d s rule: duration_loop.induct)
  case (1 d s)
  show ?case
  proof (cases "s = []")
    case True
    then have "k = d" using "1.prems"(1) by (simp add: duration_loop.simps [of d "[]"])
    then show ?thesis using "1.prems" by simp
  next
    case False
    then obtain v r where p: "duration_part s = Some (v, r)" "\<not> 2 ^ 63 < (d + v) mod 2 ^ 64"
      "duration_loop ((d + v) mod 2 ^ 64) r = Some k"
      using "1.prems"(1) by (subst (asm) duration_loop.simps) (auto split: option.splits if_splits)
    show ?thesis using "1.IH" [OF False p(1) refl p(2,3)] p(2) by simp
  qed
qed

lemma ParseDuration_bounds: "ParseDuration s = Inr d \<Longrightarrow> - (2 ^ 63) \<le> d \<and> d < 2 ^ 63"
proof -
  have "0 \<le> k \<and> k \<le> 2 ^ 63" if "duration_loop 0 t = Some k" for t k using duration_loop_bound [OF that] by simp
  then show "ParseDuration s = Inr d \<Longrightarrow> - (2 ^ 63) \<le> d \<and> d < 2 ^ 63"
    by (auto simp: ParseDuration_def Let_def split: if_splits option.splits) fastforce+
qed

section \<open>Decimal text\<close>

lemma digit_in_10: "is_digit c \<Longrightarrow> digit_in 10 c = Some (digit_value c)"
  by (auto simp: digit_in_def digit_value_def byte_class_defs)

text \<open>On decimal digits the scanner with bases agrees with the decimal one.\<close>

lemma scan_base_10:
  "list_all is_digit s \<Longrightarrow> scan_base 10 (int n) s = (case scan_uint (2 ^ 64) n s of Inl e \<Rightarrow> Inl e | Inr k \<Rightarrow> Inr (int k))"
proof (induction s arbitrary: n)
  case (Cons c s)
  have "c \<noteq> CHR ''_''" using Cons.prems by (auto simp: byte_class_defs)
  moreover have "int n * 10 + int (digit_value c) = int (n * 10 + digit_value c)" by simp
  moreover have "2 ^ 64 \<le> int k \<longleftrightarrow> 2 ^ 64 \<le> k" for k by (metis of_nat_le_iff of_nat_numeral of_nat_power)
  ultimately show ?case using Cons.prems Cons.IH [of "n * 10 + digit_value c"] digit_in_10 [of c] by simp
qed simp

lemma ParseUint0_dec: "ParseUint0 (dec (unat (g :: uint64))) = Inr g"
proof (cases "unat g = 0")
  case True
  have "dec 0 = ''0''" by code_simp
  moreover have "ParseUint0 ''0'' = Inr 0" by code_simp
  ultimately show ?thesis using True by (simp add: unat_eq_zero)
next
  case False
  have "hd (dec (unat g)) \<noteq> CHR ''0''" using False by (rule contrapos_nn) (rule dec_leading_zero)
  then have b: "base_prefix (dec (unat g)) = (10, dec (unat g))"
    unfolding base_prefix_def by (subst if_P) simp_all
  have under: "\<not> is_digit CHR ''_''" by (simp add: byte_class_defs)
  have u: "CHR ''_'' \<notin> set (dec (unat g))" using dec_digits [of "unat g"] under by (auto simp: list_all_iff)
  have "unat g < 2 ^ 64" using unsigned_less [of g] by simp
  then have "scan_base 10 (int 0) (dec (unat g)) = Inr (int (unat g))"
    by (simp only: scan_base_10 [OF dec_digits] scan_uint_dec) simp
  then show ?thesis using u by (simp add: ParseUint0_def scan_prefixed_def b)
qed

end
