(* ===== verification/Go_Flags.thy ===== *)
theory Go_Flags
  imports Go_Parsers
begin

text \<open>
  Go's \<open>flag\<close> package as both commands use it: \<open>FlagSet.Parse\<close> with \<open>ContinueOnError\<close>, from the argument list to
  the settings in order, the value of a flag after parsing (its last setting, or its default) and
  \<open>Visit\<close>, the flags that were set. \<open>Uint64\<close>, \<open>Int\<close> and \<open>Duration\<close> flags use the parsers of \<open>Go_Parsers\<close>.
\<close>

datatype flag_kind = FlagString | FlagBool | FlagUint64 | FlagInt | FlagDuration

type_synonym settings = "(string \<times> string) list"

abbreviation ErrHelp :: goerr where "ErrHelp \<equiv> err ''flag: help requested''"

text \<open>\<open>strconv.ParseBool\<close>.\<close>

definition ParseBool :: "string \<Rightarrow> goerr + bool" where
  "ParseBool s =
     (if s \<in> {''1'', ''t'', ''T'', ''true'', ''TRUE'', ''True''} then Inr True
      else if s \<in> {''0'', ''f'', ''F'', ''false'', ''FALSE'', ''False''} then Inr False
      else Inl (err ''invalid syntax''))"

text \<open>\<open>Value.Set\<close>: whether a flag of that kind takes the text.\<close>

definition set_ok :: "flag_kind \<Rightarrow> string \<Rightarrow> bool" where
  "set_ok k v =
     (case k of
        FlagString \<Rightarrow> True
      | FlagBool \<Rightarrow> (case ParseBool v of Inl _ \<Rightarrow> False | Inr _ \<Rightarrow> True)
      | FlagUint64 \<Rightarrow> (case ParseUint0 v of Inl _ \<Rightarrow> False | Inr _ \<Rightarrow> True)
      | FlagInt \<Rightarrow> (case ParseInt0 v of Inl _ \<Rightarrow> False | Inr _ \<Rightarrow> True)
      | FlagDuration \<Rightarrow> (case ParseDuration v of Inl _ \<Rightarrow> False | Inr _ \<Rightarrow> True))"

definition flag_name :: "string \<Rightarrow> string" where
  "flag_name s = (if has_prefix s ''--'' then drop 2 s else drop 1 s)"

text \<open>
  \<open>FlagSet.parseOne\<close>: \<open>kind name\<close> says whether a flag is defined and of which kind. An argument ends the flags,
  is at fault, or sets a flag and leaves the arguments after it.
\<close>

datatype parsed = EndOfFlags "string list" | BadFlag goerr | SetFlag string string "string list"

definition Set_flag :: "flag_kind \<Rightarrow> string \<Rightarrow> string \<Rightarrow> string list \<Rightarrow> parsed" where
  "Set_flag k nm v args =
     (if set_ok k v then SetFlag nm v args
      else BadFlag (Errorf (if k = FlagBool then ''invalid boolean value %q for -%s'' else ''invalid value %q for flag -%s'') [FStr v, FStr nm]))"

definition parseOne :: "(string \<Rightarrow> flag_kind option) \<Rightarrow> string \<Rightarrow> string list \<Rightarrow> parsed" where
  "parseOne kind s args =
     (if length s < 2 \<or> hd s \<noteq> CHR ''-'' then EndOfFlags (s # args)
      else if s = ''--'' then EndOfFlags args
      else
        (let body = flag_name s; nm = takeWhile (\<lambda>c. c \<noteq> CHR ''='') body; has_value = (CHR ''='' \<in> set body);
             val = tl (dropWhile (\<lambda>c. c \<noteq> CHR ''='') body)
         in if body = [] \<or> hd body = CHR ''-'' \<or> hd body = CHR ''='' then BadFlag (Errorf ''bad flag syntax: %s'' [FStr s])
            else (case kind nm of
              None \<Rightarrow> BadFlag (if nm = ''help'' \<or> nm = ''h'' then ErrHelp
                        else Errorf ''flag provided but not defined: -%s'' [FStr nm])
            | Some k \<Rightarrow>
                if k = FlagBool then Set_flag k nm (if has_value then val else ''true'') args
                else if has_value then Set_flag k nm val args
                else (case args of
                  [] \<Rightarrow> BadFlag (Errorf ''flag needs an argument: -%s'' [FStr nm])
                | v # args' \<Rightarrow> Set_flag k nm v args'))))"

lemma Set_flag_SetFlag: "Set_flag k nm v args = SetFlag nm' v' args' \<longleftrightarrow> set_ok k v \<and> nm' = nm \<and> v' = v \<and> args' = args"
  by (auto simp: Set_flag_def)

lemma parseOne_SetFlag:
  "parseOne kind s args = SetFlag nm v args' \<Longrightarrow> (\<exists>k. kind nm = Some k \<and> set_ok k v) \<and> length args' \<le> length args"
  by (auto simp: parseOne_def Let_def Set_flag_SetFlag split: if_splits option.splits list.splits)

text \<open>
  \<open>FlagSet.Parse\<close>. Flags are set one by one, so the first fault decides the error. The result are the settings in
  order and the remaining arguments.
\<close>

function flag_scan :: "(string \<Rightarrow> flag_kind option) \<Rightarrow> string list \<Rightarrow> goerr + (settings \<times> string list)" where
  "flag_scan kind [] = Inr ([], [])"
| "flag_scan kind (s # args) =
     (case parseOne kind s args of
        EndOfFlags rest \<Rightarrow> Inr ([], rest)
      | BadFlag e \<Rightarrow> Inl e
      | SetFlag nm v args' \<Rightarrow>
          (case flag_scan kind args' of Inl e \<Rightarrow> Inl e | Inr (fs, rest) \<Rightarrow> Inr ((nm, v) # fs, rest)))"
  by pat_completeness auto
termination by (relation "measure (\<lambda>(_, args). length args)") (auto dest!: parseOne_SetFlag)

declare flag_scan.simps(2) [simp del]

text \<open>The value of a flag after parsing.\<close>

definition setting :: "settings \<Rightarrow> string \<Rightarrow> string option" where
  "setting fs nm = map_of (rev fs) nm"

definition String_flag :: "settings \<Rightarrow> string \<Rightarrow> string \<Rightarrow> string" where
  "String_flag fs nm dflt = (case setting fs nm of None \<Rightarrow> dflt | Some v \<Rightarrow> v)"

definition typed_flag :: "(string \<Rightarrow> goerr + 'a) \<Rightarrow> settings \<Rightarrow> string \<Rightarrow> 'a \<Rightarrow> 'a" where
  "typed_flag parse fs nm dflt =
     (case setting fs nm of None \<Rightarrow> dflt | Some v \<Rightarrow> (case parse v of Inl _ \<Rightarrow> dflt | Inr x \<Rightarrow> x))"

section \<open>Lemmas\<close>

lemma setting_None_iff: "setting fs nm = None \<longleftrightarrow> nm \<notin> fst ` set fs"
  by (simp add: setting_def map_of_eq_None_iff)

lemma setting_last [simp]: "setting (fs @ [(nm, v)]) nm = Some v"
  by (simp add: setting_def)

text \<open>Every setting the parser accepts belongs to a defined flag and has a text of its kind.\<close>

definition set_to :: "(string \<Rightarrow> flag_kind option) \<Rightarrow> string \<times> string \<Rightarrow> bool" where
  "set_to kind = (\<lambda>(nm, v). \<exists>k. kind nm = Some k \<and> set_ok k v)"

lemma flag_scan_ok: "flag_scan kind args = Inr (fs, rest) \<Longrightarrow> list_all (set_to kind) fs"
  by (induction kind args arbitrary: fs rule: flag_scan.induct)
    (auto simp: flag_scan.simps(2) set_to_def dest!: parseOne_SetFlag split: parsed.splits sum.splits)

lemma setting_ok:
  assumes "flag_scan kind args = Inr (fs, rest)" "setting fs nm = Some v"
  shows "\<exists>k. kind nm = Some k \<and> set_ok k v"
proof -
  have "(nm, v) \<in> set fs" using assms(2) map_of_SomeD [of "rev fs" nm v] by (simp add: setting_def)
  then show ?thesis using flag_scan_ok [OF assms(1)] by (auto simp: list_all_iff set_to_def)
qed

end
