(* ===== verification/Test_Plugin_Api.thy ===== *)
theory Test_Plugin_Api
  imports Plugin_Sdk Json_Struct Go_Flags
begin

text \<open>
  The behaviour of the fault-injecting plugin (\<open>src/src/test/testpluginapi/config.go\<close>): the record, its delays, and how it
  is loaded from a JSON file or from environment variables and written to a file. A \<open>float64\<close> is represented by the
  decimal text that denotes it; \<open>strconv.ParseFloat\<close> of a variable is the argument \<open>pf\<close>. The theory shows that what
  \<open>WriteConfig\<close> writes is what \<open>LoadConfig\<close> reads. At the end is the exit of a plugin process after \<open>Shutdown\<close>.
\<close>

section \<open>Behaviour\<close>

record behavior =
  bh_PluginID :: string
  bh_Version :: string
  bh_GenerationOffset :: int64
  bh_CapabilitiesMode :: string
  bh_HeartbeatStatus :: status
  bh_HeartbeatErrors :: int
  bh_HeartbeatDelayMS :: int64
  bh_SleepScale :: string
  bh_CrashOnEcho :: bool
  bh_ShutdownDelayMS :: int64
  bh_FailAuth :: bool
  bh_CloseOnAccept :: bool
  bh_CloseOnEcho :: bool

text \<open>\<open>time.Duration(ms) * time.Millisecond\<close> in 64-bit arithmetic.\<close>

definition HeartbeatDelay :: "behavior \<Rightarrow> int64" where
  "HeartbeatDelay e = (if sint (bh_HeartbeatDelayMS e) \<le> 0 then 0 else bh_HeartbeatDelayMS e * 1000000)"

definition ShutdownDelay :: "behavior \<Rightarrow> int64" where
  "ShutdownDelay e = (if sint (bh_ShutdownDelayMS e) \<le> 0 then 50 * 1000000 else bh_ShutdownDelayMS e * 1000000)"

section \<open>Environment variables\<close>

definition getenvDefault :: "(string \<Rightarrow> string) \<Rightarrow> string \<Rightarrow> string \<Rightarrow> string" where
  "getenvDefault getenv key fallback = (if getenv key \<noteq> [] then getenv key else fallback)"

definition getenv_parsed :: "(string \<Rightarrow> goerr + 'a) \<Rightarrow> (string \<Rightarrow> string) \<Rightarrow> string \<Rightarrow> 'a \<Rightarrow> 'a" where
  "getenv_parsed parse getenv key fallback =
     (if getenv key = [] then fallback else (case parse (getenv key) of Inl _ \<Rightarrow> fallback | Inr x \<Rightarrow> x))"

definition getenvInt64 :: "(string \<Rightarrow> string) \<Rightarrow> string \<Rightarrow> int64 \<Rightarrow> int64" where
  "getenvInt64 getenv key fallback = word_of_int (getenv_parsed Atoi getenv key (sint fallback))"

definition getenvFloat64 :: "(string \<Rightarrow> goerr + string) \<Rightarrow> (string \<Rightarrow> string) \<Rightarrow> string \<Rightarrow> string \<Rightarrow> string" where
  "getenvFloat64 pf = getenv_parsed pf"

definition getenvBool :: "(string \<Rightarrow> string) \<Rightarrow> string \<Rightarrow> bool \<Rightarrow> bool" where
  "getenvBool = getenv_parsed ParseBool"

definition LoadEnv :: "(string \<Rightarrow> goerr + string) \<Rightarrow> (string \<Rightarrow> string) \<Rightarrow> behavior" where
  "LoadEnv pf getenv =
     \<lparr>bh_PluginID = getenvDefault getenv ''RPC_PLUGIN_SYSTEM_PLUGIN_BEHAVIOR_ID'' [],
      bh_Version = getenvDefault getenv ''RPC_PLUGIN_SYSTEM_PLUGIN_BEHAVIOR_VERSION'' ''0.1.0'',
      bh_GenerationOffset = getenvInt64 getenv ''RPC_PLUGIN_SYSTEM_PLUGIN_BEHAVIOR_GENERATION_OFFSET'' 0,
      bh_CapabilitiesMode = getenvDefault getenv ''RPC_PLUGIN_SYSTEM_PLUGIN_BEHAVIOR_CAPABILITIES_MODE'' ''normal'',
      bh_HeartbeatStatus = getenvDefault getenv ''RPC_PLUGIN_SYSTEM_PLUGIN_BEHAVIOR_HEARTBEAT_STATUS'' StatusHealthy,
      bh_HeartbeatErrors = sint (getenvInt64 getenv ''RPC_PLUGIN_SYSTEM_PLUGIN_BEHAVIOR_HEARTBEAT_ERRORS'' 0),
      bh_HeartbeatDelayMS = getenvInt64 getenv ''RPC_PLUGIN_SYSTEM_PLUGIN_BEHAVIOR_HEARTBEAT_DELAY_MS'' 0,
      bh_SleepScale = getenvFloat64 pf getenv ''RPC_PLUGIN_SYSTEM_PLUGIN_BEHAVIOR_SLEEP_SCALE'' ''1'',
      bh_CrashOnEcho = getenvBool getenv ''RPC_PLUGIN_SYSTEM_PLUGIN_BEHAVIOR_CRASH_ON_ECHO'' False,
      bh_ShutdownDelayMS = getenvInt64 getenv ''RPC_PLUGIN_SYSTEM_PLUGIN_BEHAVIOR_SHUTDOWN_DELAY_MS'' 50,
      bh_FailAuth = getenvBool getenv ''RPC_PLUGIN_SYSTEM_PLUGIN_BEHAVIOR_FAIL_AUTH'' False,
      bh_CloseOnAccept = getenvBool getenv ''RPC_PLUGIN_SYSTEM_PLUGIN_BEHAVIOR_CLOSE_ON_ACCEPT'' False,
      bh_CloseOnEcho = getenvBool getenv ''RPC_PLUGIN_SYSTEM_PLUGIN_BEHAVIOR_CLOSE_ON_ECHO'' False\<rparr>"

section \<open>The file\<close>

text \<open>Whether a number is zero as a \<open>float64\<close>: it is, or it is at most half of the smallest positive one.\<close>

definition float_zero :: "string \<Rightarrow> bool" where
  "float_zero l = (let (m, ex) = number_parts l in if 0 \<le> ex then m = 0 else m * 2 ^ 1075 \<le> 10 ^ nat (- ex))"

definition behavior_members :: "behavior \<Rightarrow> (string \<times> json) list" where
  "behavior_members b =
     opt_str ''plugin_id'' (bh_PluginID b)
     @ opt_str ''version'' (bh_Version b)
     @ opt_field ''generation_offset'' (bh_GenerationOffset b \<noteq> 0) (JsonNum (fmt_int (sint (bh_GenerationOffset b))))
     @ opt_str ''capabilities_mode'' (bh_CapabilitiesMode b)
     @ opt_str ''heartbeat_status'' (bh_HeartbeatStatus b)
     @ opt_field ''heartbeat_errors'' (bh_HeartbeatErrors b \<noteq> 0) (JsonNum (fmt_int (bh_HeartbeatErrors b)))
     @ opt_field ''heartbeat_delay_ms'' (bh_HeartbeatDelayMS b \<noteq> 0) (JsonNum (fmt_int (sint (bh_HeartbeatDelayMS b))))
     @ opt_field ''sleep_scale'' (\<not> float_zero (bh_SleepScale b)) (JsonNum (bh_SleepScale b))
     @ opt_field ''crash_on_echo'' (bh_CrashOnEcho b) (JsonBool (bh_CrashOnEcho b))
     @ opt_field ''shutdown_delay_ms'' (bh_ShutdownDelayMS b \<noteq> 0) (JsonNum (fmt_int (sint (bh_ShutdownDelayMS b))))
     @ opt_field ''fail_auth'' (bh_FailAuth b) (JsonBool (bh_FailAuth b))
     @ opt_field ''close_on_accept'' (bh_CloseOnAccept b) (JsonBool (bh_CloseOnAccept b))
     @ opt_field ''close_on_echo'' (bh_CloseOnEcho b) (JsonBool (bh_CloseOnEcho b))"

definition marshal_behavior :: "behavior \<Rightarrow> goerr + string" where
  "marshal_behavior b =
     (if \<not> float_zero (bh_SleepScale b) \<and> \<not> plain_num (bh_SleepScale b) then Inl (err ''json: unsupported value'')
      else Inr (print_json (JsonObj (behavior_members b))))"

fun get_bool :: "json \<Rightarrow> bool \<Rightarrow> goerr + bool" where
  "get_bool JsonNull old = Inr old"
| "get_bool (JsonBool b) old = Inr b"
| "get_bool _ old = Inl mismatch"

fun get_float :: "json \<Rightarrow> string \<Rightarrow> goerr + string" where
  "get_float JsonNull old = Inr old"
| "get_float (JsonNum l) old = (if float_fits l then Inr l else Inl mismatch)"
| "get_float _ old = Inl mismatch"

definition behavior_fields :: "string list" where
  "behavior_fields = [''plugin_id'', ''version'', ''generation_offset'', ''capabilities_mode'', ''heartbeat_status'', ''heartbeat_errors'', ''heartbeat_delay_ms'', ''sleep_scale'', ''crash_on_echo'', ''shutdown_delay_ms'', ''fail_auth'', ''close_on_accept'', ''close_on_echo'']"

definition set_behavior :: "string \<Rightarrow> json \<Rightarrow> behavior \<Rightarrow> goerr + behavior" where
  "set_behavior n v b =
     (if n = ''plugin_id'' then put (get_str v (bh_PluginID b)) (\<lambda>x. b\<lparr>bh_PluginID := x\<rparr>)
      else if n = ''version'' then put (get_str v (bh_Version b)) (\<lambda>x. b\<lparr>bh_Version := x\<rparr>)
      else if n = ''generation_offset'' then put (get_int v (sint (bh_GenerationOffset b))) (\<lambda>x. b\<lparr>bh_GenerationOffset := word_of_int x\<rparr>)
      else if n = ''capabilities_mode'' then put (get_str v (bh_CapabilitiesMode b)) (\<lambda>x. b\<lparr>bh_CapabilitiesMode := x\<rparr>)
      else if n = ''heartbeat_status'' then put (get_str v (bh_HeartbeatStatus b)) (\<lambda>x. b\<lparr>bh_HeartbeatStatus := x\<rparr>)
      else if n = ''heartbeat_errors'' then put (get_int v (bh_HeartbeatErrors b)) (\<lambda>x. b\<lparr>bh_HeartbeatErrors := x\<rparr>)
      else if n = ''heartbeat_delay_ms'' then put (get_int v (sint (bh_HeartbeatDelayMS b))) (\<lambda>x. b\<lparr>bh_HeartbeatDelayMS := word_of_int x\<rparr>)
      else if n = ''sleep_scale'' then put (get_float v (bh_SleepScale b)) (\<lambda>x. b\<lparr>bh_SleepScale := x\<rparr>)
      else if n = ''crash_on_echo'' then put (get_bool v (bh_CrashOnEcho b)) (\<lambda>x. b\<lparr>bh_CrashOnEcho := x\<rparr>)
      else if n = ''shutdown_delay_ms'' then put (get_int v (sint (bh_ShutdownDelayMS b))) (\<lambda>x. b\<lparr>bh_ShutdownDelayMS := word_of_int x\<rparr>)
      else if n = ''fail_auth'' then put (get_bool v (bh_FailAuth b)) (\<lambda>x. b\<lparr>bh_FailAuth := x\<rparr>)
      else if n = ''close_on_accept'' then put (get_bool v (bh_CloseOnAccept b)) (\<lambda>x. b\<lparr>bh_CloseOnAccept := x\<rparr>)
      else put (get_bool v (bh_CloseOnEcho b)) (\<lambda>x. b\<lparr>bh_CloseOnEcho := x\<rparr>))"

definition zero_behavior :: behavior where
  "zero_behavior = \<lparr>bh_PluginID = [], bh_Version = [], bh_GenerationOffset = 0, bh_CapabilitiesMode = [], bh_HeartbeatStatus = [],
     bh_HeartbeatErrors = 0, bh_HeartbeatDelayMS = 0, bh_SleepScale = ''0'', bh_CrashOnEcho = False, bh_ShutdownDelayMS = 0,
     bh_FailAuth = False, bh_CloseOnAccept = False, bh_CloseOnEcho = False\<rparr>"

definition unmarshal_behavior :: "string \<Rightarrow> goerr + behavior" where
  "unmarshal_behavior s =
     (case parse_json s of
        None \<Rightarrow> Inl (err ''json: syntax error'')
      | Some JsonNull \<Rightarrow> Inr zero_behavior
      | Some (JsonObj kvs) \<Rightarrow> set_fields behavior_fields set_behavior kvs zero_behavior
      | Some _ \<Rightarrow> Inl mismatch)"

text \<open>The defaults \<open>LoadConfig\<close> puts for what a file leaves out.\<close>

definition behavior_defaults :: "behavior \<Rightarrow> behavior" where
  "behavior_defaults b =
     (let b1 = (if bh_Version b = [] then b\<lparr>bh_Version := ''0.1.0''\<rparr> else b);
          b2 = (if bh_HeartbeatStatus b1 = [] then b1\<lparr>bh_HeartbeatStatus := StatusHealthy\<rparr> else b1)
      in if float_zero (bh_SleepScale b2) then b2\<lparr>bh_SleepScale := ''1''\<rparr> else b2)"


definition LoadConfig :: "(string \<Rightarrow> goerr + string) \<Rightarrow> (string \<Rightarrow> string) \<Rightarrow> (path \<Rightarrow> goerr option) \<Rightarrow> files \<Rightarrow> behavior" where
  "LoadConfig pf getenv rd fs =
     (let p = getenv BehaviorConfigEnv
      in if p = [] then LoadEnv pf getenv
         else (case ReadFile rd fs p of
                 Inl _ \<Rightarrow> LoadEnv pf getenv
               | Inr data \<Rightarrow> (case unmarshal_behavior data of Inl _ \<Rightarrow> LoadEnv pf getenv | Inr cfg \<Rightarrow> behavior_defaults cfg)))"

text \<open>
  \<open>os.WriteFile\<close> creates or truncates the file and then writes: \<open>wr\<close> is the error, if any, with the number of bytes
  written, or none if the file could not be opened.
\<close>

definition WriteFile :: "(nat option \<times> goerr) option \<Rightarrow> path \<Rightarrow> string \<Rightarrow> files \<Rightarrow> goerr option \<times> files" where
  "WriteFile wr p d fs =
     (case wr of
        None \<Rightarrow> (None, fs(p \<mapsto> d))
      | Some (None, e) \<Rightarrow> (Some e, fs)
      | Some (Some n, e) \<Rightarrow> (Some e, fs(p \<mapsto> take n d)))"

definition WriteConfig :: "(nat option \<times> goerr) option \<Rightarrow> path \<Rightarrow> behavior \<Rightarrow> files \<Rightarrow> goerr option \<times> files" where
  "WriteConfig wr p cfg fs =
     (case marshal_behavior cfg of
        Inl e \<Rightarrow> (Some (Wrapf ''marshal behavior config: %w'' [] e), fs)
      | Inr data \<Rightarrow>
          (case WriteFile wr p data fs of
             (Some e, fs1) \<Rightarrow> (Some (Wrapf ''write behavior config: %w'' [] e), fs1)
           | (None, fs1) \<Rightarrow> (None, fs1)))"

section \<open>The exit after a shutdown\<close>

text \<open>
  What the goroutine that \<open>Shutdown\<close> of both example plugins starts does: it writes the marker file, if one is asked for,
  waits, and ends the process with code 0.
\<close>

definition shutdown_exit :: "(string \<Rightarrow> string) \<Rightarrow> (nat option \<times> goerr) option \<Rightarrow> files \<Rightarrow> files \<times> int" where
  "shutdown_exit getenv wr fs =
     (let marker = getenv ShutdownMarkerEnv
      in (if marker \<noteq> [] then snd (WriteFile wr marker (''shutdown'' @ [CHR 0x0A]) fs) else fs, 0))"

section \<open>What is written is loaded\<close>

interpretation bf: json_struct behavior_fields set_behavior
  by unfold_locales (auto simp: behavior_fields_def)

text \<open>A behaviour Go can hold, with its scale in the text \<open>json.Marshal\<close> prints; zero is printed as \<open>0\<close>.\<close>

definition storable :: "behavior \<Rightarrow> bool" where
  "storable b \<longleftrightarrow> - (2 ^ 63) \<le> bh_HeartbeatErrors b \<and> bh_HeartbeatErrors b < 2 ^ 63
     \<and> plain_num (bh_SleepScale b) \<and> float_fits (bh_SleepScale b)
     \<and> (\<not> float_zero (bh_SleepScale b) \<or> bh_SleepScale b = ''0'')"

definition norm_behavior :: "behavior \<Rightarrow> behavior" where
  "norm_behavior b =
     \<lparr>bh_PluginID = to_valid (bh_PluginID b), bh_Version = to_valid (bh_Version b), bh_GenerationOffset = bh_GenerationOffset b,
      bh_CapabilitiesMode = to_valid (bh_CapabilitiesMode b), bh_HeartbeatStatus = to_valid (bh_HeartbeatStatus b), bh_HeartbeatErrors = bh_HeartbeatErrors b,
      bh_HeartbeatDelayMS = bh_HeartbeatDelayMS b, bh_SleepScale = bh_SleepScale b, bh_CrashOnEcho = bh_CrashOnEcho b, bh_ShutdownDelayMS = bh_ShutdownDelayMS b,
      bh_FailAuth = bh_FailAuth b, bh_CloseOnAccept = bh_CloseOnAccept b, bh_CloseOnEcho = bh_CloseOnEcho b\<rparr>"

lemma set_behavior_simps:
  "set_behavior ''plugin_id'' v b = put (get_str v (bh_PluginID b)) (\<lambda>x. b\<lparr>bh_PluginID := x\<rparr>)"
  "set_behavior ''version'' v b = put (get_str v (bh_Version b)) (\<lambda>x. b\<lparr>bh_Version := x\<rparr>)"
  "set_behavior ''generation_offset'' v b = put (get_int v (sint (bh_GenerationOffset b))) (\<lambda>x. b\<lparr>bh_GenerationOffset := word_of_int x\<rparr>)"
  "set_behavior ''capabilities_mode'' v b = put (get_str v (bh_CapabilitiesMode b)) (\<lambda>x. b\<lparr>bh_CapabilitiesMode := x\<rparr>)"
  "set_behavior ''heartbeat_status'' v b = put (get_str v (bh_HeartbeatStatus b)) (\<lambda>x. b\<lparr>bh_HeartbeatStatus := x\<rparr>)"
  "set_behavior ''heartbeat_errors'' v b = put (get_int v (bh_HeartbeatErrors b)) (\<lambda>x. b\<lparr>bh_HeartbeatErrors := x\<rparr>)"
  "set_behavior ''heartbeat_delay_ms'' v b = put (get_int v (sint (bh_HeartbeatDelayMS b))) (\<lambda>x. b\<lparr>bh_HeartbeatDelayMS := word_of_int x\<rparr>)"
  "set_behavior ''sleep_scale'' v b = put (get_float v (bh_SleepScale b)) (\<lambda>x. b\<lparr>bh_SleepScale := x\<rparr>)"
  "set_behavior ''crash_on_echo'' v b = put (get_bool v (bh_CrashOnEcho b)) (\<lambda>x. b\<lparr>bh_CrashOnEcho := x\<rparr>)"
  "set_behavior ''shutdown_delay_ms'' v b = put (get_int v (sint (bh_ShutdownDelayMS b))) (\<lambda>x. b\<lparr>bh_ShutdownDelayMS := word_of_int x\<rparr>)"
  "set_behavior ''fail_auth'' v b = put (get_bool v (bh_FailAuth b)) (\<lambda>x. b\<lparr>bh_FailAuth := x\<rparr>)"
  "set_behavior ''close_on_accept'' v b = put (get_bool v (bh_CloseOnAccept b)) (\<lambda>x. b\<lparr>bh_CloseOnAccept := x\<rparr>)"
  "set_behavior ''close_on_echo'' v b = put (get_bool v (bh_CloseOnEcho b)) (\<lambda>x. b\<lparr>bh_CloseOnEcho := x\<rparr>)"
  by (simp_all add: set_behavior_def)

lemma behavior_field_names:
  "''plugin_id'' \<in> set behavior_fields"
  "''version'' \<in> set behavior_fields"
  "''generation_offset'' \<in> set behavior_fields"
  "''capabilities_mode'' \<in> set behavior_fields"
  "''heartbeat_status'' \<in> set behavior_fields"
  "''heartbeat_errors'' \<in> set behavior_fields"
  "''heartbeat_delay_ms'' \<in> set behavior_fields"
  "''sleep_scale'' \<in> set behavior_fields"
  "''crash_on_echo'' \<in> set behavior_fields"
  "''shutdown_delay_ms'' \<in> set behavior_fields"
  "''fail_auth'' \<in> set behavior_fields"
  "''close_on_accept'' \<in> set behavior_fields"
  "''close_on_echo'' \<in> set behavior_fields"
  by (simp_all add: behavior_fields_def)

lemma Atoi_int64: "Atoi (fmt_int (sint (x :: int64))) = Inr (sint x)"
  using sint_range_size [of x] by (intro Atoi_fmt_int) (simp_all add: word_size)

lemma set_fields_behavior:
  assumes "storable b"
  shows "set_fields behavior_fields set_behavior (sanitize_members (behavior_members b)) zero_behavior = Inr (norm_behavior b)"
proof -
  have errs: "Atoi (fmt_int (bh_HeartbeatErrors b)) = Inr (bh_HeartbeatErrors b)"
    using assms by (intro Atoi_fmt_int) (simp_all add: storable_def)
  have scale: "float_fits (bh_SleepScale b)" "\<not> float_zero (bh_SleepScale b) \<or> bh_SleepScale b = ''0''"
    using assms by (simp_all add: storable_def)
  note steps = bf.set_opt_str bf.set_opt_num bf.set_opt_bool bf.set_opt_last behavior_field_names set_behavior_simps put_def errs
    scale(1) Atoi_int64
  show ?thesis
  proof (cases "float_zero (bh_SleepScale b)")
    case True
    then have z: "bh_SleepScale b = ''0''" using scale(2) by simp
    note True [unfolded z] scale(1) [unfolded z]
    with z show ?thesis
      unfolding behavior_members_def zero_behavior_def norm_behavior_def by (simp add: steps)
  next
    case False
    then show ?thesis unfolding behavior_members_def zero_behavior_def norm_behavior_def by (simp add: steps)
  qed
qed

lemma unmarshal_marshal_behavior:
  assumes "storable b"
  shows "\<exists>d. marshal_behavior b = Inr d \<and> unmarshal_behavior d = Inr (norm_behavior b)"
proof -
  have "nums_ok_members (behavior_members b)"
    using assms plain_num_fmt_int by (simp add: behavior_members_def nums_ok_append nums_ok_opt plain_num_def storable_def)
  moreover have "depth (JsonObj (behavior_members b)) \<le> maxNestingDepth"
    by (simp add: behavior_members_def opt_field_def maxNestingDepth_def)
  ultimately have "unmarshal_behavior (print_json (JsonObj (behavior_members b))) = Inr (norm_behavior b)"
    using parse_print [of "JsonObj (behavior_members b)"] set_fields_behavior [OF assms] by (simp add: unmarshal_behavior_def)
  then show ?thesis using assms by (simp add: marshal_behavior_def storable_def)
qed

lemma LoadConfig_WriteConfig:
  assumes "storable b" and "getenv BehaviorConfigEnv = p" and "p \<noteq> []" and "rd p = None"
  shows "\<exists>fs'. WriteConfig None p b fs = (None, fs') \<and> LoadConfig pf getenv rd fs' = behavior_defaults (norm_behavior b)"
  using unmarshal_marshal_behavior [OF assms(1)] assms(2-4)
  by (auto simp: WriteConfig_def WriteFile_def LoadConfig_def ReadFile_def Let_def)

end
