(* ===== verification/Failure_Plugin.thy ===== *)
theory Failure_Plugin
  imports Bootstrap Test_Plugin_Api
begin

text \<open>
  The fault-injecting plugin (\<open>src/src/examples/rpcplugin-failure/main.go\<close>), driven by the behaviour of theory
  \<open>Test_Plugin_Api\<close> on the server of theory \<open>Plugin_Sdk\<close>, and what the manager makes of it; at the end the \<open>run\<close>
  functions of both example plugins.

  A sleep has no effect on the state. The process exit that \<open>Crash\<close> and a crashing \<open>Echo\<close> perform is recorded as the exit
  code; the kernel sees such a call fail in transport, so what the handler would return is irrelevant.
\<close>

section \<open>The plugin\<close>

text \<open>\<open>fp_listener\<close>: none yet, or whether it is still open.\<close>

record failure_plugin =
  fp_pluginID :: string
  fp_version :: string
  fp_generationID :: uint64
  fp_startedAt :: gotime
  fp_behavior :: behavior
  fp_listener :: "bool option"
  fp_exit :: "int option"

definition failure_Identity :: "failure_plugin \<Rightarrow> string \<times> uint64" where
  "failure_Identity p =
     (if bh_PluginID (fp_behavior p) \<noteq> [] then bh_PluginID (fp_behavior p) else fp_pluginID p,
      fp_generationID p + bh_GenerationOffset (fp_behavior p))"

definition failure_OnAuthAttempt :: "string \<Rightarrow> failure_plugin \<Rightarrow> goerr option \<times> failure_plugin" where
  "failure_OnAuthAttempt token p =
     (if bh_FailAuth (fp_behavior p) then (Some (err ''auth failure requested''), p) else (None, p))"

definition failure_OnServeListener :: "failure_plugin \<Rightarrow> failure_plugin" where
  "failure_OnServeListener p = p\<lparr>fp_listener := Some (\<not> bh_CloseOnAccept (fp_behavior p))\<rparr>"

definition failure_Heartbeat :: "(gotime \<Rightarrow> int) \<Rightarrow> failure_plugin \<Rightarrow> (goerr + heartbeat_response) \<times> failure_plugin" where
  "failure_Heartbeat uptime p =
     (let b = fp_behavior p
      in if bh_HeartbeatErrors b > 0 then
           (Inl (err ''heartbeat failure requested''), p\<lparr>fp_behavior := b\<lparr>bh_HeartbeatErrors := bh_HeartbeatErrors b - 1\<rparr>\<rparr>)
         else
           (let (pluginID, generationID) = failure_Identity p
            in (Inr (zero_heartbeat\<lparr>hr_PluginID := pluginID, hr_Version := fp_version p, hr_GenerationID := generationID,
                  hr_UptimeSeconds := uptime (fp_startedAt p), hr_Status := bh_HeartbeatStatus b\<rparr>), p)))"

definition failure_Echo :: "string \<Rightarrow> failure_plugin \<Rightarrow> (goerr + string) \<times> failure_plugin" where
  "failure_Echo msg p =
     (if bh_CrashOnEcho (fp_behavior p) then (Inr [], p\<lparr>fp_exit := Some 9\<rparr>)
      else (Inr msg, if bh_CloseOnEcho (fp_behavior p) \<and> fp_listener p \<noteq> None then p\<lparr>fp_listener := Some False\<rparr> else p))"

definition failure_Sleep :: "duration \<Rightarrow> failure_plugin \<Rightarrow> goerr option \<times> failure_plugin" where
  "failure_Sleep d p = (None, p)"

definition failure_Crash :: "int \<Rightarrow> failure_plugin \<Rightarrow> goerr option \<times> failure_plugin" where
  "failure_Crash code p = (None, p\<lparr>fp_exit := Some code\<rparr>)"

text \<open>The exit of \<open>Shutdown\<close> comes later, after the reply (\<open>shutdown_exit\<close>).\<close>

definition failure_Shutdown :: "failure_plugin \<Rightarrow> goerr option \<times> failure_plugin" where
  "failure_Shutdown p = (None, p\<lparr>fp_exit := Some 0\<rparr>)"

definition failure_Capabilities :: "failure_plugin \<Rightarrow> string list" where
  "failure_Capabilities p =
     (if bh_CapabilitiesMode (fp_behavior p) = ''error'' then [''__capabilities_error__'']
      else if bh_CapabilitiesMode (fp_behavior p) = ''empty'' then []
      else [''heartbeat'', ''shutdown'', ''echo'', ''sleep'', ''crash''])"

definition failure_ops :: "(gotime \<Rightarrow> int) \<Rightarrow> failure_plugin core_ops" where
  "failure_ops uptime = \<lparr>co_Version = fp_version, co_Heartbeat = failure_Heartbeat uptime, co_Shutdown = failure_Shutdown,
     co_Echo = Some failure_Echo, co_Sleep = Some failure_Sleep, co_Crash = Some failure_Crash,
     co_Capabilities = Some failure_Capabilities, co_OnAuthAttempt = Some failure_OnAuthAttempt,
     co_OnServeListener = Some failure_OnServeListener, co_Identity = Some failure_Identity\<rparr>"

text \<open>The plugin \<open>run\<close> builds from its configuration and behaviour.\<close>

definition new_failure_plugin :: "gotime \<Rightarrow> sdk_config \<Rightarrow> behavior \<Rightarrow> failure_plugin" where
  "new_failure_plugin now cfg b = \<lparr>fp_pluginID = sd_PluginID cfg, fp_version = bh_Version b, fp_generationID = sd_GenerationID cfg,
     fp_startedAt = now, fp_behavior = b, fp_listener = None, fp_exit = None\<rparr>"

section \<open>Running an example plugin\<close>

text \<open>
  The two \<open>run\<close> functions have one shape: read the configuration, open a logger of their own beside the server's
  (\<open>open1\<close> is the error of that opening, if any), load the behaviour (the echo plugin has none), announce the start,
  build the plugin and serve. The events of both
  loggers go to the same file; their order is kept.
\<close>

definition example_run :: "'c core_ops \<Rightarrow> (files \<Rightarrow> 'b) \<Rightarrow> (sdk_config \<Rightarrow> 'b \<Rightarrow> 'c) \<Rightarrow> string \<Rightarrow> ('b \<Rightarrow> details) \<Rightarrow> string \<Rightarrow> goerr option \<Rightarrow> serve_env
   \<Rightarrow> (string \<Rightarrow> string) \<Rightarrow> (path \<Rightarrow> goerr option) \<Rightarrow> rpc_request list \<Rightarrow> files \<Rightarrow> fstree \<Rightarrow> 'c served" where
  "example_run ops load build booting details failed open1 env getenv rd reqs fs tree =
     (case LoadConfigFromEnv getenv rd fs of
        Inl e \<Rightarrow> not_served e fs tree
      | Inr cfg \<Rightarrow>
          (case NewPluginLogger (sn_pid env) open1 cfg fs of
             (Inl e, fs1) \<Rightarrow> not_served e fs1 tree
           | (Inr l, fs1) \<Rightarrow>
               (let b = load fs1;
                    boot = plugin_event l ((pev [] EventPluginBootStarted [] booting)\<lparr>ev_Details := details b\<rparr>);
                    r = ServeWithConfig ops env reqs cfg (Some (build cfg b)) fs1 tree
                in case sr_err r of
                     None \<Rightarrow> r\<lparr>sr_events := boot # sr_events r\<rparr>
                   | Some e \<Rightarrow> r\<lparr>sr_events := boot # sr_events r
                         @ [plugin_event l ((pev LevelError EventPluginBootFailed [] failed)\<lparr>ev_Error := Some e\<rparr>)]\<rparr>)))"

definition echo_run :: "(gotime \<Rightarrow> int) \<Rightarrow> gotime \<Rightarrow> goerr option \<Rightarrow> serve_env \<Rightarrow> (string \<Rightarrow> string) \<Rightarrow> (path \<Rightarrow> goerr option)
   \<Rightarrow> rpc_request list \<Rightarrow> files \<Rightarrow> fstree \<Rightarrow> template_plugin served" where
  "echo_run uptime now = example_run (echo_ops uptime) (\<lambda>_. ()) (\<lambda>cfg _. NewTemplate now cfg ''0.1.0'')
     ''echo plugin process booting'' (\<lambda>_. []) ''echo plugin serve failed''"

definition failure_run :: "(gotime \<Rightarrow> int) \<Rightarrow> gotime \<Rightarrow> (string \<Rightarrow> goerr + string) \<Rightarrow> goerr option \<Rightarrow> serve_env \<Rightarrow> (string \<Rightarrow> string) \<Rightarrow> (path \<Rightarrow> goerr option)
   \<Rightarrow> rpc_request list \<Rightarrow> files \<Rightarrow> fstree \<Rightarrow> failure_plugin served" where
  "failure_run uptime now pf open1 env getenv rd = example_run (failure_ops uptime) (LoadConfig pf getenv rd) (new_failure_plugin now)
     ''failure plugin process booting'' (\<lambda>b. [(''behavior_version'', VString (bh_Version b))]) ''failure plugin serve failed''
     open1 env getenv rd"

section \<open>Lemmas\<close>

text \<open>What serving leaves, whether it failed or ended: no socket of its own, and a logger that is closed.\<close>

lemma serve_all_length: "serve_all ops reqs s = (rs, s') \<Longrightarrow> length rs = length reqs"
  by (induction reqs arbitrary: s rs) (auto split: prod.splits)

lemma ServeWithConfig_leaves:
  assumes "sr_err (ServeWithConfig ops env reqs cfg (Some c) fs tree) = None"
  shows "sr_tree (ServeWithConfig ops env reqs cfg (Some c) fs tree) (sd_SocketPath cfg) = None
    \<and> length (sr_replies (ServeWithConfig ops env reqs cfg (Some c) fs tree)) = length reqs"
  using assms by (auto simp: ServeWithConfig_def not_served_def Let_def dest: serve_all_length split: prod.splits sum.splits option.splits)

text \<open>A plugin built on the template alone ends without a panic only after serving every request and removing its socket.\<close>

lemma Example_minimal_exit:
  assumes "main_exit (Example_minimal uptime now env getenv rd reqs fs tree) = 0"
  shows "\<exists>cfg. LoadConfigFromEnv getenv rd fs = Inr cfg
    \<and> sr_tree (Example_minimal uptime now env getenv rd reqs fs tree) (sd_SocketPath cfg) = None
    \<and> length (sr_replies (Example_minimal uptime now env getenv rd reqs fs tree)) = length reqs"
proof (cases "LoadConfigFromEnv getenv rd fs")
  case (Inl e)
  then show ?thesis using assms by (simp add: Example_minimal_def main_exit_def not_served_def)
next
  case (Inr cfg)
  then have "sr_err (ServeWithConfig (template_ops uptime) env reqs cfg (Some (NewTemplate now cfg ''0.1.0'')) fs tree) = None"
    using assms by (simp add: Example_minimal_def main_exit_def split: if_splits)
  from ServeWithConfig_leaves [OF this] show ?thesis using Inr by (simp add: Example_minimal_def)
qed

lemma plugin_event_sel [simp]: "ev_Event (plugin_event l e) = ev_Event e" "ev_Error (plugin_event l e) = ev_Error e"
  by (simp_all add: plugin_event_def Let_def)

lemma pev_sel [simp]: "ev_Event (pev lv n meth msg) = n"
  by (simp add: pev_def)

lemma NewPluginLogger_opens: "\<exists>l fs1. NewPluginLogger pid None cfg fs = (Inr l, fs1)"
  by (auto simp: NewPluginLogger_def NewLogger_def NewWithOptions_def Let_def split: sum.splits prod.splits)

lemma failure_Auth:
  "fst (server_Auth (failure_ops up) (sd_AuthToken cfg) (new_server (failure_ops up) cfg l evs p)) =
     (if bh_FailAuth (fp_behavior p) then Inl (err ''auth failure requested'')
      else Inr \<lparr>ar_PluginID = fst (failure_Identity p), ar_Version = fp_version p, ar_GenerationID = snd (failure_Identity p)\<rparr>)"
  by (simp add: server_Auth_def failure_ops_def new_server_def identity_def failure_OnAuthAttempt_def EqualToken_iff Let_def split_beta)

lemma failure_Caps:
  "\<not> bh_FailAuth (fp_behavior p) \<Longrightarrow>
   fst (server_Capabilities (failure_ops up) (snd (server_Auth (failure_ops up) (sd_AuthToken cfg) (new_server (failure_ops up) cfg l evs p)))) =
     Inr \<lparr>cr_PluginID = fst (failure_Identity p), cr_Version = fp_version p, cr_GenerationID = snd (failure_Identity p),
          cr_Capabilities = failure_Capabilities p\<rparr>"
  by (simp add: server_Auth_def server_Capabilities_def failure_ops_def new_server_def identity_def failure_OnAuthAttempt_def
      requireAuth_def detectCapabilities_def EqualToken_iff Let_def split_beta)

lemma sint_ms_iff:
  fixes w :: int64
  assumes "0 < sint w"
  shows "sint (w * 1000000) = sint w * 1000000 \<longleftrightarrow> sint w \<le> 9223372036854"
proof -
  have "sint (w * 1000000) = signed_take_bit 63 (sint w * 1000000)" by (simp add: sint_word_ariths)
  moreover have "signed_take_bit 63 (sint w * 1000000) = sint w * 1000000 \<longleftrightarrow> sint w \<le> 9223372036854"
    using assms by (simp add: signed_take_bit_int_eq_self_iff) arith
  ultimately show ?thesis by simp
qed

section \<open>Properties\<close>

text \<open>
  C39: delays are exact precisely up to the limit of 64-bit nanoseconds, about 292 years: the heartbeat delay is the
  configured number of milliseconds (none for a count of zero or less), and the shutdown delay likewise
  (50 milliseconds for a count of zero or less), if and only if the count is at most 9223372036854; above it
  the product wraps.
\<close>

theorem delays_exact_iff:
  "(sint (HeartbeatDelay b) = max 0 (sint (bh_HeartbeatDelayMS b)) * 1000000 \<longleftrightarrow> sint (bh_HeartbeatDelayMS b) \<le> 9223372036854)
   \<and> (sint (ShutdownDelay b) = (if sint (bh_ShutdownDelayMS b) \<le> 0 then 50 else sint (bh_ShutdownDelayMS b)) * 1000000
        \<longleftrightarrow> sint (bh_ShutdownDelayMS b) \<le> 9223372036854)"
proof
  show "sint (HeartbeatDelay b) = max 0 (sint (bh_HeartbeatDelayMS b)) * 1000000 \<longleftrightarrow> sint (bh_HeartbeatDelayMS b) \<le> 9223372036854"
    using sint_ms_iff [of "bh_HeartbeatDelayMS b"] by (cases "sint (bh_HeartbeatDelayMS b) \<le> 0") (simp_all add: HeartbeatDelay_def)
  show "sint (ShutdownDelay b) = (if sint (bh_ShutdownDelayMS b) \<le> 0 then 50 else sint (bh_ShutdownDelayMS b)) * 1000000
      \<longleftrightarrow> sint (bh_ShutdownDelayMS b) \<le> 9223372036854"
    using sint_ms_iff [of "bh_ShutdownDelayMS b"] by (cases "sint (bh_ShutdownDelayMS b) \<le> 0") (simp_all add: ShutdownDelay_def)
qed

definition sample_behavior :: behavior where
  "sample_behavior = \<lparr>bh_PluginID = [], bh_Version = ''0.1.0'', bh_GenerationOffset = 0, bh_CapabilitiesMode = ''normal'',
     bh_HeartbeatStatus = StatusHealthy, bh_HeartbeatErrors = 0, bh_HeartbeatDelayMS = 9223372036854, bh_SleepScale = ''1'', bh_CrashOnEcho = False,
     bh_ShutdownDelayMS = 0, bh_FailAuth = False, bh_CloseOnAccept = False, bh_CloseOnEcho = False\<rparr>"

lemma failure_start_answers:
  assumes "cf_RuntimeDir (mg_cfg m) \<noteq> []" and "pluginIDPattern (mg_id m)" and "rd (mg_auth m) = None" and "NewToken (se_rand env) = Inr t"
  shows "se_auth (sdk_start etext (failure_ops up) p l rd env m) t =
      (if bh_FailAuth (fp_behavior p) then CallErr (ServerError (etext (err ''auth failure requested'')))
       else Reply \<lparr>ar_PluginID = fst (failure_Identity p), ar_Version = fp_version p, ar_GenerationID = snd (failure_Identity p)\<rparr>)"
    and "\<not> bh_FailAuth (fp_behavior p) \<Longrightarrow> se_caps (sdk_start etext (failure_ops up) p l rd env m) =
      Reply \<lparr>cr_PluginID = fst (failure_Identity p), cr_Version = fp_version p, cr_GenerationID = snd (failure_Identity p),
             cr_Capabilities = failure_Capabilities p\<rparr>"
    and "\<exists>f k. sdk_start etext (failure_ops up) p l rd env m = env\<lparr>se_auth := f, se_caps := k\<rparr>"
proof -
  let ?cfg = "\<lparr>sd_SocketPath = mg_socket m, sd_PluginID = mg_id m, sd_GenerationID = mg_gen m + 1, sd_AuthToken = t\<rparr>"
  have cfg: "LoadConfigFromEnv (getenv_of (plugin_env (se_getenv env) (mg_gen m + 1) m)) rd ((w_files m)(mg_auth m \<mapsto> t)) = Inr ?cfg"
    using assms(1-3) by (intro LoadConfig_of_plugin_env) simp_all
  note a = failure_Auth [of up ?cfg l "[]" p, simplified] failure_Caps [of p up ?cfg l "[]", simplified]
  show "se_auth (sdk_start etext (failure_ops up) p l rd env m) t =
      (if bh_FailAuth (fp_behavior p) then CallErr (ServerError (etext (err ''auth failure requested'')))
       else Reply \<lparr>ar_PluginID = fst (failure_Identity p), ar_Version = fp_version p, ar_GenerationID = snd (failure_Identity p)\<rparr>)"
    and "\<not> bh_FailAuth (fp_behavior p) \<Longrightarrow> se_caps (sdk_start etext (failure_ops up) p l rd env m) =
      Reply \<lparr>cr_PluginID = fst (failure_Identity p), cr_Version = fp_version p, cr_GenerationID = snd (failure_Identity p),
             cr_Capabilities = failure_Capabilities p\<rparr>"
    by (simp_all add: sdk_start_def assms(4) cfg a wire_def Let_def)
  show "\<exists>f k. sdk_start etext (failure_ops up) p l rd env m = env\<lparr>se_auth := f, se_caps := k\<rparr>"
    by (auto simp: sdk_start_def assms(4) cfg Let_def)
qed

text \<open>
  The manager admits exactly the well-behaved variants of the fault-injecting plugin. When everything up to the
  handshake works, a start succeeds if and only if the plugin does not refuse authentication, reports the id it
  was started under and the generation it was given, and does not ask for a capabilities failure.
\<close>

theorem failure_plugin_admitted_iff:
  assumes "\<not> mg_closed m" and "mg_cmd m = None" and "mg_client m = None"
    and "cf_RuntimeDir (mg_cfg m) \<noteq> []" and "ValidatePluginID (mg_id m) = None" and "rd (mg_auth m) = None"
    and "NewToken (se_rand env) = Inr t" and "se_write_auth env = None" and "se_spawn env = Inr pid"
    and "dial_loop (se_dial env) (cf_DialTimeout (mg_cfg m)) 0 0 = Some n"
    and "ReadPeerCred (se_cred env) = Inr cred" and "pc_PID cred = pid"
    and "p = new_failure_plugin now \<lparr>sd_SocketPath = mg_socket m, sd_PluginID = mg_id m, sd_GenerationID = mg_gen m + 1, sd_AuthToken = t\<rparr> b"
  shows "fst (Start (sdk_start etext (failure_ops up) p l rd env m) m) = None \<longleftrightarrow>
    \<not> bh_FailAuth b \<and> bh_PluginID b \<in> {[], mg_id m} \<and> bh_GenerationOffset b = 0 \<and> bh_CapabilitiesMode b \<noteq> ''error''"
proof -
  let ?env = "sdk_start etext (failure_ops up) p l rd env m"
  have pat: "pluginIDPattern (mg_id m)" using assms(5) by (simp add: ValidatePluginID_None_iff)
  note a = failure_start_answers(1,2) [where rd = rd and p = p, OF assms(4) pat assms(6,7), of etext up l]
  obtain f k where e: "?env = env\<lparr>se_auth := f, se_caps := k\<rparr>"
    using failure_start_answers(3) [where rd = rd, OF assms(4) pat assms(6,7)] by blast
  have fields: "se_rand ?env = se_rand env" "se_write_auth ?env = se_write_auth env" "se_spawn ?env = se_spawn env"
      "se_dial ?env = se_dial env" "se_cred ?env = se_cred env" by (simp_all add: e)
  have idle: "idle m" using assms(1-3) by (simp add: idle_def)
  have id: "fst (failure_Identity p) = mg_id m \<longleftrightarrow> bh_PluginID b \<in> {[], mg_id m}"
    "snd (failure_Identity p) = mg_gen m + 1 \<longleftrightarrow> bh_GenerationOffset b = 0" "fp_behavior p = b"
    "''__capabilities_error__'' \<in> set (failure_Capabilities p) \<longleftrightarrow> bh_CapabilitiesMode b = ''error''"
    by (auto simp: assms(13) new_failure_plugin_def failure_Identity_def failure_Capabilities_def)
  have "fst (Start ?env m) = None \<longleftrightarrow> (\<exists>m'. startLocked ?env m = (None, m'))"
    by (cases "startLocked ?env m") (simp add: Start_def)
  also have "\<dots> \<longleftrightarrow> \<not> bh_FailAuth b \<and> fst (failure_Identity p) = mg_id m \<and> snd (failure_Identity p) = mg_gen m + 1
      \<and> ''__capabilities_error__'' \<notin> set (failure_Capabilities p)" (is "_ \<longleftrightarrow> ?ok")
  proof
    assume "\<exists>m'. startLocked ?env m = (None, m')"
    then obtain t' c caps where "started ?env m t' c caps" unfolding startLocked_succeeds_iff by blast
    then have s: "t' = t" "\<exists>r. se_auth ?env t' = Reply r \<and> ar_PluginID r = mg_id m \<and> ar_GenerationID r = mg_gen m + 1"
      "se_caps ?env = Reply caps" "''__capabilities_error__'' \<notin> set (cr_Capabilities caps)"
      using assms(7) fields(1) by (simp_all add: started_def)
    then have nf: "\<not> bh_FailAuth b" using a(1) id(3) by auto
    then show ?ok using s a id(3) by auto
  next
    assume ok: ?ok
    show "\<exists>m'. startLocked ?env m = (None, m')"
      by (rule startLocked_succeeds [where t = t and pid = pid and n = n and cred = cred
            and r = "\<lparr>ar_PluginID = fst (failure_Identity p), ar_Version = fp_version p, ar_GenerationID = snd (failure_Identity p)\<rparr>"
            and caps = "\<lparr>cr_PluginID = fst (failure_Identity p), cr_Version = fp_version p, cr_GenerationID = snd (failure_Identity p),
               cr_Capabilities = failure_Capabilities p\<rparr>"])
        (use ok a idle assms(7-12) id(3) in \<open>simp_all add: fields\<close>)
  qed
  finally show ?thesis by (simp add: id)
qed

theorem failure_plugin_admitted_iff_witness:
  "let cfg = \<lparr>sd_SocketPath = mg_socket sample_idle, sd_PluginID = ''echo'', sd_GenerationID = 1, sd_AuthToken = sample_token\<rparr>;
       start = (\<lambda>b. fst (Start (sdk_start (\<lambda>_. []) (failure_ops (\<lambda>_. 0)) (new_failure_plugin 0 cfg b) sample_plugin_logger (\<lambda>_. None)
                  sample_start sample_idle) sample_idle))
   in start sample_behavior = None \<and> start (sample_behavior\<lparr>bh_GenerationOffset := 1\<rparr>) \<noteq> None
      \<and> start (sample_behavior\<lparr>bh_FailAuth := True\<rparr>) \<noteq> None"
proof -
  have idle: "\<not> mg_closed sample_idle" "mg_cmd sample_idle = None" "mg_client sample_idle = None" "mg_gen sample_idle + 1 = 1"
    by (simp_all add: fresh_manager_def zero_state_def)
  have cfg: "cf_RuntimeDir (mg_cfg sample_idle) \<noteq> []" "ValidatePluginID (mg_id sample_idle) = None" "mg_id sample_idle = ''echo''" by code_simp+
  have tok: "NewToken (se_rand sample_start) = Inr sample_token"
    by (simp add: sample_start_def NewToken_def ReadFull_def sample_token_def)
  have dial: "dial_loop (se_dial sample_start) (cf_DialTimeout (mg_cfg sample_idle)) 0 0 = Some 0"
    by (subst dial_loop.simps) (simp add: sample_start_def fresh_manager_def sample_config_def)
  have cred: "ReadPeerCred (se_cred sample_start) = Inr \<lparr>pc_PID = 7, pc_UID = 0, pc_GID = 0\<rparr>"
    by (simp add: sample_start_def ReadPeerCred_def)
  have out: "se_write_auth sample_start = None" "se_spawn sample_start = Inr 7" by (simp_all add: sample_start_def)
  note f = failure_plugin_admitted_iff [where rd = "\<lambda>_. None", OF idle(1-3) cfg(1,2) _ tok out dial cred, unfolded cfg(3) idle(4)]
  show ?thesis unfolding Let_def by (simp add: f sample_behavior_def)
qed

text \<open>
  A run of the echo plugin that gets as far as its log reports how it ended there: the first event announces the
  boot; if the run fails, the last event is \<open>plugin_boot_failed\<close> with the error it returns; if it ends in order,
  every request was answered and its socket is gone.
\<close>

theorem echo_run_reports:
  assumes "LoadConfigFromEnv getenv rd fs = Inr cfg" and "echo_run uptime now None env getenv rd reqs fs tree = r"
  shows "sr_events r \<noteq> [] \<and> ev_Event (hd (sr_events r)) = EventPluginBootStarted
    \<and> (case sr_err r of
         Some e \<Rightarrow> ev_Event (last (sr_events r)) = EventPluginBootFailed \<and> ev_Error (last (sr_events r)) = Some e
       | None \<Rightarrow> length (sr_replies r) = length reqs \<and> sr_tree r (sd_SocketPath cfg) = None)"
proof -
  obtain l fs1 where l: "NewPluginLogger (sn_pid env) None cfg fs = (Inr l, fs1)" using NewPluginLogger_opens by blast
  let ?r = "ServeWithConfig (echo_ops uptime) env reqs cfg (Some (NewTemplate now cfg ''0.1.0'')) fs1 tree"
  show ?thesis
  proof (cases "sr_err ?r")
    case None
    have "r = ?r\<lparr>sr_events := plugin_event l ((pev [] EventPluginBootStarted [] ''echo plugin process booting'')\<lparr>ev_Details := []\<rparr>) # sr_events ?r\<rparr>"
      using assms l None by (simp add: echo_run_def example_run_def Let_def)
    then show ?thesis using ServeWithConfig_leaves [OF None] None by simp
  next
    case (Some e)
    have "r = ?r\<lparr>sr_events := plugin_event l ((pev [] EventPluginBootStarted [] ''echo plugin process booting'')\<lparr>ev_Details := []\<rparr>) # sr_events ?r
        @ [plugin_event l ((pev LevelError EventPluginBootFailed [] ''echo plugin serve failed'')\<lparr>ev_Error := Some e\<rparr>)]\<rparr>"
      using assms l Some by (simp add: echo_run_def example_run_def Let_def)
    then show ?thesis using Some by simp
  qed
qed

text \<open>
  C38: the behaviour a test writes is the behaviour the plugin has. A storable behaviour written with \<open>WriteConfig\<close> to the
  file named in the kernel's own environment is what the process spawned by the manager loads, whatever the plugin id,
  generation and other variables: every field as written, with the defaults for what was left empty and replacement
  characters for bytes that are not UTF-8.
\<close>

theorem written_behavior_reaches_plugin:
  assumes "storable b" and "ge BehaviorConfigEnv = p" and "p \<noteq> []" and "rd p = None"
  shows "\<exists>fs'. WriteConfig None p b fs = (None, fs')
    \<and> LoadConfig pf (getenv_of (plugin_env ge g m)) rd fs' = behavior_defaults (norm_behavior b)"
proof (rule LoadConfig_WriteConfig)
  show "getenv_of (plugin_env ge g m) BehaviorConfigEnv = p" using assms(2,3) by (simp add: plugin_env_def)
qed (use assms in simp_all)

lemma sample_behavior_storable: "storable sample_behavior" "behavior_defaults (norm_behavior sample_behavior) = sample_behavior"
proof -
  have one: "fmt_int 1 = ''1''" by code_simp
  have f: "plain_num ''1''" "float_fits ''1''" "\<not> float_zero ''1''"
    using plain_num_fmt_int [of 1] float_fits_fmt_int [of 1] number_parts_fmt_int [of 1] by (simp_all add: one float_zero_def)
  then show "storable sample_behavior" by (simp add: storable_def sample_behavior_def)
  show "behavior_defaults (norm_behavior sample_behavior) = sample_behavior"
    using f by (simp add: behavior_defaults_def norm_behavior_def sample_behavior_def to_valid_ascii Let_def del: to_valid.simps(2))
qed

theorem written_behavior_reaches_plugin_witness:
  "\<exists>fs'. WriteConfig None ''/tmp/b.json'' sample_behavior Map.empty = (None, fs')
    \<and> LoadConfig (\<lambda>_. Inl (err [])) (getenv_of (plugin_env (\<lambda>k. if k = BehaviorConfigEnv then ''/tmp/b.json'' else []) 7 sample_idle)) (\<lambda>_. None) fs'
        = sample_behavior"
  using written_behavior_reaches_plugin [OF sample_behavior_storable(1), of "\<lambda>k. if k = BehaviorConfigEnv then ''/tmp/b.json'' else []"
      "''/tmp/b.json''" "\<lambda>_. None" Map.empty "\<lambda>_. Inl (err [])" 7 sample_idle] sample_behavior_storable(2) by simp

end
