(* ===== verification/Go_Links.thy ===== *)
theory Go_Links
  imports Go_Text
begin

text \<open>
  A file system with symbolic links, as the bundle loader meets it. A tree maps the names on the way from the root to a
  directory, a file of any other kind (regular, named pipe, device) with the bytes that reading it to the end gives, or a
  link with its target. \<open>walk\<close> follows a path from a directory;
  \<open>filepath.EvalSymlinks\<close> is Go's loop (\<open>walkSymlinks\<close>), which gives up after 255 links, and \<open>os.Stat\<close> and \<open>os.Open\<close> resolve their
  argument as the kernel does, which gives up after 40. Both take an absolute path here.

  The theory shows that a walk ends at a directory or file with no link on the way to it, and that what the kernel
  opens is what \<open>EvalSymlinks\<close> finds.
\<close>

section \<open>Trees and walks\<close>

datatype node = Directory | FileNode string | Symlink path

type_synonym names = "string list"
type_synonym tree = "names \<rightharpoonup> node"

definition no_such_file :: goerr where "no_such_file = SysErr (Some OsErrNotExist) ''no such file or directory''"
definition not_a_directory :: goerr where "not_a_directory = SysErr None ''not a directory''"
definition too_many_links :: goerr where "too_many_links = err ''too many links''"

text \<open>
  \<open>n\<close> links may still be followed, \<open>dest\<close> is the directory reached (which no link leads to) and \<open>path\<close> what is left.
  \<open>deny\<close> is the error of looking up a name in a directory, such as a missing permission.
\<close>

definition next_name :: "path \<Rightarrow> string" where
  "next_name path = takeWhile (\<lambda>c. c \<noteq> slash) (dropWhile (\<lambda>c. c = slash) path)"

definition after_name :: "path \<Rightarrow> path" where
  "after_name path = dropWhile (\<lambda>c. c \<noteq> slash) (dropWhile (\<lambda>c. c = slash) path)"

lemma after_name_shrinks: "next_name path \<noteq> [] \<Longrightarrow> length (after_name path) < length path"
proof -
  let ?p = "dropWhile (\<lambda>c. c = slash) path"
  assume "next_name path \<noteq> []"
  then have "length (after_name path) < length ?p"
    using takeWhile_dropWhile_id [of "\<lambda>c. c \<noteq> slash" ?p] unfolding next_name_def after_name_def
    by (metis length_append length_greater_0_conv less_add_same_cancel2)
  also have "\<dots> \<le> length path" by (rule length_dropWhile_le)
  finally show ?thesis .
qed

function walk :: "(names \<Rightarrow> goerr option) \<Rightarrow> tree \<Rightarrow> nat \<Rightarrow> names \<Rightarrow> path \<Rightarrow> goerr + names" where
  "walk deny t n dest path =
     (let c = next_name path; rest = after_name path
      in if c = [] then Inr dest
         else if c = ''.'' then walk deny t n dest rest
         else if c = ''..'' then walk deny t n (butlast dest) rest
         else (case deny dest of
           Some e \<Rightarrow> Inl e
         | None \<Rightarrow>
             (case t (dest @ [c]) of
                None \<Rightarrow> Inl no_such_file
              | Some Directory \<Rightarrow> walk deny t n (dest @ [c]) rest
              | Some (FileNode s) \<Rightarrow> if rest \<noteq> [] then Inl not_a_directory else Inr (dest @ [c])
              | Some (Symlink l) \<Rightarrow>
                  if n = 0 then Inl too_many_links
                  else walk deny t (n - 1) (if IsAbs l then [] else dest) (l @ rest))))"
  by pat_completeness auto
termination
  by (relation "measures [\<lambda>(_, _, n, _, _). n, \<lambda>(_, _, _, _, path). length path]") (auto simp: after_name_shrinks)

declare walk.simps [simp del]

definition path_of :: "names \<Rightarrow> path" where
  "path_of ns = slash # join_with slash ns"

definition EvalSymlinks :: "(names \<Rightarrow> goerr option) \<Rightarrow> tree \<Rightarrow> path \<Rightarrow> goerr + path" where
  "EvalSymlinks deny t p = (case walk deny t 255 [] p of Inl e \<Rightarrow> Inl e | Inr ns \<Rightarrow> Inr (path_of ns))"

text \<open>How \<open>os.Stat\<close> and \<open>os.Open\<close> find their file: the place in the tree, free of links.\<close>

definition locate :: "(names \<Rightarrow> goerr option) \<Rightarrow> tree \<Rightarrow> path \<Rightarrow> goerr + names" where
  "locate deny t p = walk deny t 40 [] p"

section \<open>Lemmas\<close>

text \<open>A tree in which every name has a directory above it.\<close>

definition proper_tree :: "tree \<Rightarrow> bool" where
  "proper_tree t \<longleftrightarrow> t [] = Some Directory \<and> (\<forall>ns w. t (ns @ [w]) \<noteq> None \<longrightarrow> t ns = Some Directory \<and> plain_name w)"

lemma proper_prefix: "proper_tree t \<Longrightarrow> t (ns @ ms) \<noteq> None \<Longrightarrow> ms \<noteq> [] \<Longrightarrow> t ns = Some Directory"
proof (induction ms rule: rev_induct)
  case (snoc w ms)
  have "t (ns @ ms) = Some Directory" using snoc.prems by (auto simp: proper_tree_def simp flip: append_assoc)
  then show ?case using snoc by (cases "ms = []") auto
qed simp

lemma proper_names: "proper_tree t \<Longrightarrow> t ns \<noteq> None \<Longrightarrow> w \<in> set ns \<Longrightarrow> plain_name w"
proof (induction ns rule: rev_induct)
  case (snoc v ns)
  then show ?case by (fastforce simp: proper_tree_def)
qed simp

text \<open>How a walk that ends somewhere got there.\<close>

lemma walk_induct [consumes 1, case_names stop dot up dir leaf link]:
  assumes "walk deny t n dest path = Inr ns"
    and "\<And>n dest path. next_name path = [] \<Longrightarrow> ns = dest \<Longrightarrow> P n dest path"
    and "\<And>n dest path. next_name path = ''.'' \<Longrightarrow> P n dest (after_name path) \<Longrightarrow> P n dest path"
    and "\<And>n dest path. next_name path = ''..'' \<Longrightarrow> P n (butlast dest) (after_name path) \<Longrightarrow> P n dest path"
    and "\<And>n dest path c. next_name path = c \<Longrightarrow> c \<notin> {[], ''.'', ''..''} \<Longrightarrow> deny dest = None \<Longrightarrow> t (dest @ [c]) = Some Directory
      \<Longrightarrow> P n (dest @ [c]) (after_name path) \<Longrightarrow> P n dest path"
    and "\<And>n dest path c s. next_name path = c \<Longrightarrow> c \<notin> {[], ''.'', ''..''} \<Longrightarrow> deny dest = None \<Longrightarrow> t (dest @ [c]) = Some (FileNode s)
      \<Longrightarrow> after_name path = [] \<Longrightarrow> ns = dest @ [c] \<Longrightarrow> P n dest path"
    and "\<And>n dest path c l. next_name path = c \<Longrightarrow> c \<notin> {[], ''.'', ''..''} \<Longrightarrow> deny dest = None \<Longrightarrow> t (dest @ [c]) = Some (Symlink l)
      \<Longrightarrow> P n (if IsAbs l then [] else dest) (l @ after_name path) \<Longrightarrow> P (Suc n) dest path"
  shows "P n dest path"
  using assms(1)
proof (induction n arbitrary: dest path rule: less_induct)
  case outer: (less n)
  show ?case
    using outer.prems
  proof (induction "length path" arbitrary: dest path rule: less_induct)
    case (less path dest)
    let ?c = "next_name path" and ?r = "after_name path"
    note w = less.prems [unfolded walk.simps [of deny t n dest path] Let_def]
    note smaller = less.hyps [OF after_name_shrinks]
    consider "?c = []" | "?c = ''.''" | "?c = ''..''" | (name) "?c \<notin> {[], ''.'', ''..''}" by blast
    then show ?case
    proof cases
      case 1 then show ?thesis using w assms(2) by simp
    next
      case 2 then show ?thesis using w smaller assms(3) by simp
    next
      case 3 then show ?thesis using w smaller assms(4) by simp
    next
      case name
      then have d: "deny dest = None" using w by (auto split: option.splits)
      obtain x where x: "t (dest @ [?c]) = Some x" using w name d by (cases "t (dest @ [?c])") auto
      show ?thesis
      proof (cases x)
        case Directory
        then show ?thesis using w name d x smaller assms(5) by simp
      next
        case (FileNode s)
        then show ?thesis using w name d x assms(6) by (auto split: if_splits)
      next
        case (Symlink l)
        then obtain k where k: "n = Suc k" using w name d x by (cases n) auto
        have "walk deny t k (if IsAbs l then [] else dest) (l @ ?r) = Inr ns" using w name d x Symlink k by simp
        from outer.IH [OF _ this] k assms(7) [OF refl name d x [unfolded Symlink]] show ?thesis by simp
      qed
    qed
  qed
qed

lemma walk_result:
  assumes "walk deny t n dest path = Inr ns" and "proper_tree t" and "t dest = Some Directory"
  shows "t ns = Some Directory \<or> (\<exists>s. t ns = Some (FileNode s))"
  using assms(1,3)
proof (induction rule: walk_induct)
  case (up n dest path)
  have "t (butlast dest) = Some Directory"
    using up.prems assms(2) by (cases dest rule: rev_cases) (auto simp: proper_tree_def)
  then show ?case using up.IH by simp
next
  case (link n dest path c l)
  then show ?case using assms(2) by (simp add: proper_tree_def split: if_splits)
qed auto

text \<open>With more links allowed, a walk that succeeds gives the same result.\<close>

lemma walk_more:
  assumes "walk deny t n dest path = Inr ns"
  shows "walk deny t (n + k) dest path = Inr ns"
  using assms
proof (induction rule: walk_induct)
  case (stop n dest path)
  then show ?case by (subst walk.simps) simp
qed (subst walk.simps, simp add: Let_def)+

lemma locate_EvalSymlinks: "locate deny t p = Inr ns \<Longrightarrow> EvalSymlinks deny t p = Inr (path_of ns)"
  using walk_more [of deny t 40 "[]" p ns 215] by (simp add: locate_def EvalSymlinks_def)

lemma EvalSymlinks_real:
  assumes "EvalSymlinks deny t p = Inr q" and "proper_tree t"
  shows "\<exists>ns. q = path_of ns \<and> (t ns = Some Directory \<or> (\<exists>s. t ns = Some (FileNode s)))"
proof -
  obtain ns where ns: "walk deny t 255 [] p = Inr ns" "q = path_of ns" using assms(1) by (auto simp: EvalSymlinks_def split: sum.splits)
  moreover have "t [] = Some Directory" using assms(2) by (simp add: proper_tree_def)
  ultimately show ?thesis using walk_result assms(2) by blast
qed

text \<open>A path without links is where it says.\<close>

lemma name_path_of:
  assumes "plain_name w"
  shows "next_name (path_of (w # ws)) = w" and "after_name (path_of (w # ws)) = (if ws = [] then [] else path_of ws)"
proof -
  have w: "w \<noteq> []" "slash \<notin> set w" using assms by (auto simp: plain_name_def)
  let ?j = "join_with slash (w # ws)"
  have "dropWhile (\<lambda>c. c = slash) (path_of (w # ws)) = ?j"
    using w by (cases w; cases ws) (auto simp: path_of_def join_with_Cons)
  moreover have "takeWhile (\<lambda>c. c \<noteq> slash) ?j = w \<and> dropWhile (\<lambda>c. c \<noteq> slash) ?j = (if ws = [] then [] else path_of ws)"
    using w(2) by (auto simp: path_of_def join_with_Cons takeWhile_append dropWhile_append split: if_splits)
  ultimately show "next_name (path_of (w # ws)) = w" "after_name (path_of (w # ws)) = (if ws = [] then [] else path_of ws)"
    by (simp_all add: next_name_def after_name_def)
qed

lemma walk_path_of:
  assumes "proper_tree t" and "t (dest @ ns) = Some Directory \<or> t (dest @ ns) = Some (FileNode s)"
    and "walk deny t n dest (path_of ns) = Inr x"
  shows "x = dest @ ns"
  using assms(2,3)
proof (induction ns arbitrary: dest)
  case Nil
  have "next_name (path_of []) = []" by (simp add: next_name_def path_of_def)
  then show ?case using Nil.prems(2) by (subst (asm) walk.simps) simp
next
  case (Cons w ws)
  have w: "plain_name w" using proper_names [OF assms(1), of "dest @ w # ws" w] Cons.prems(1) by auto
  note nx = name_path_of [OF w, of ws]
  have plain: "w \<noteq> []" "w \<noteq> ''.''" "w \<noteq> ''..''" using w by (auto simp: plain_name_def)
  show ?case
  proof (cases "ws = []")
    case True
    then have "walk deny t n (dest @ [w]) [] = Inr x \<or> x = dest @ [w]"
      using Cons.prems plain nx by (subst (asm) walk.simps) (auto simp: Let_def split: option.splits)
    then show ?thesis using True by (subst (asm) walk.simps) (auto simp: next_name_def)
  next
    case False
    have d: "t (dest @ [w]) = Some Directory" using proper_prefix [OF assms(1), of "dest @ [w]" ws] Cons.prems(1) False by auto
    have "walk deny t n (dest @ [w]) (path_of ws) = Inr x"
      using Cons.prems(2) plain nx d False by (subst (asm) walk.simps) (auto simp: Let_def split: option.splits)
    from Cons.IH [OF _ this] Cons.prems(1) show ?thesis by simp
  qed
qed

text \<open>A finite tree is checked by evaluation.\<close>

lemma proper_tree_map_of:
  assumes "map_of l [] = Some Directory"
    and "list_all (\<lambda>(k, _). k = [] \<or> map_of l (butlast k) = Some Directory \<and> plain_name (last k)) l"
  shows "proper_tree (map_of l)"
proof -
  have "map_of l ns = Some Directory \<and> plain_name w" if nw: "map_of l (ns @ [w]) \<noteq> None" for ns w
  proof -
    obtain x where "map_of l (ns @ [w]) = Some x" using nw by blast
    then have "(ns @ [w], x) \<in> set l" by (rule map_of_SomeD)
    then show ?thesis using assms(2) by (auto simp: list_all_iff)
  qed
  then show ?thesis using assms(1) by (auto simp: proper_tree_def)
qed

end
