(* ===== verification/Bundle_Loader.thy ===== *)
theory Bundle_Loader
  imports Provider_Bundle Go_Json Go_Links Go_Sha256
begin

text \<open>
  The loader of provider bundles (\<open>src/src/internal/providerbundle/loader.go\<close>): resolution of manifest and
  asset paths below the bundle root, digests, the identity a manifest declares, and
  \<open>LoadProviderBundleMetadata\<close>, which turns every failure into declared metadata.

  The file system is a tree with symbolic links (\<open>Go_Links\<close>); the working directory, failures of the system and the sizes of
  the reads are arguments. Digests are computed by \<open>Go_Sha256\<close> and a manifest is read with the parser of \<open>Go_Json\<close>.
  The tree does not change during a load.
\<close>

section \<open>Definitions\<close>

text \<open>
  \<open>be_deny\<close> is the error of looking up a name in a directory, \<open>be_open\<close> and \<open>be_read\<close> those of opening and of reading the
  file at a place of the tree, and \<open>be_sizes\<close> how many bytes each \<open>read\<close> of it returns (the last returns what is left).
\<close>

record bundle_env =
  be_Getwd :: "goerr + path"
  be_tree :: tree
  be_deny :: "names \<Rightarrow> goerr option"
  be_open :: "names \<Rightarrow> goerr option"
  be_read :: "names \<Rightarrow> goerr option"
  be_sizes :: "names \<Rightarrow> nat list"

record load_options =
  lo_PluginID :: string
  lo_PluginGeneration :: int64
  lo_ExpectedPluginGeneration :: int64
  lo_BundleRootPath :: path
  lo_ManifestPath :: path
  lo_ManifestFilename :: path
  lo_ExpectedLuaAssetPaths :: "path list"
  lo_ObservedAt :: gotime
  lo_SubstrateEventCorrelation :: string

record manifest_identity =
  mi_SchemaVersion :: string
  mi_PluginID :: string
  mi_PluginGeneration :: "int64 option"

abbreviation "defaultManifestFilename \<equiv> ''manifest.json''"

definition validateLoadIdentity :: "load_options \<Rightarrow> goerr option" where
  "validateLoadIdentity opts =
     (case validatePluginID (lo_PluginID opts) of
        Some e \<Rightarrow> Some e
      | None \<Rightarrow>
          if sint (lo_PluginGeneration opts) \<le> 0 then Some (err ''plugin generation must be positive'')
          else if lo_ObservedAt opts = 0 then Some (err ''observed time is required'')
          else if blank (lo_SubstrateEventCorrelation opts) then Some (err ''substrate event correlation id is required'')
          else None)"

text \<open>
  \<open>json.Unmarshal\<close> into a map of raw messages, in which later members replace earlier ones, and of a member into a
  string or an \<open>int64\<close>; \<open>null\<close> leaves the destination as it is.
\<close>

definition unmarshal_object :: "string \<Rightarrow> goerr + (string \<rightharpoonup> json)" where
  "unmarshal_object b =
     (case parse_json b of
        None \<Rightarrow> Inl (err ''json: syntax error'')
      | Some JsonNull \<Rightarrow> Inr Map.empty
      | Some (JsonObj kvs) \<Rightarrow> Inr (map_of (rev kvs))
      | Some _ \<Rightarrow> Inl (err ''json: cannot unmarshal into Go value of type map[string]json.RawMessage''))"

definition unmarshal_string :: "json \<Rightarrow> string \<Rightarrow> goerr + string" where
  "unmarshal_string v dst =
     (case v of JsonNull \<Rightarrow> Inr dst | JsonStr s \<Rightarrow> Inr s | _ \<Rightarrow> Inl (err ''json: cannot unmarshal into Go value of type string''))"

definition unmarshal_int64 :: "json \<Rightarrow> int64 \<Rightarrow> goerr + int64" where
  "unmarshal_int64 v dst =
     (case v of
        JsonNull \<Rightarrow> Inr dst
      | JsonNum l \<Rightarrow> (case Atoi l of Inr n \<Rightarrow> Inr (word_of_int n)
                       | Inl _ \<Rightarrow> Inl (err ''json: cannot unmarshal into Go value of type int64''))
      | _ \<Rightarrow> Inl (err ''json: cannot unmarshal into Go value of type int64''))"

fun firstString :: "(string \<rightharpoonup> json) \<Rightarrow> string \<Rightarrow> string list \<Rightarrow> goerr + string" where
  "firstString raw dst [] = Inr dst"
| "firstString raw dst (k # ks) =
     (case raw k of None \<Rightarrow> firstString raw dst ks | Some v \<Rightarrow> unmarshal_string v dst)"

fun firstInt64 :: "(string \<rightharpoonup> json) \<Rightarrow> int64 \<Rightarrow> string list \<Rightarrow> goerr + int64 option" where
  "firstInt64 raw dst [] = Inr None"
| "firstInt64 raw dst (k # ks) =
     (case raw k of
        None \<Rightarrow> firstInt64 raw dst ks
      | Some v \<Rightarrow> (case unmarshal_int64 v dst of Inl e \<Rightarrow> Inl e | Inr n \<Rightarrow> Inr (Some n)))"

definition parseManifestIdentity :: "string \<Rightarrow> goerr + manifest_identity" where
  "parseManifestIdentity b =
     (case unmarshal_object b of Inl e \<Rightarrow> Inl e | Inr raw \<Rightarrow>
      (case firstString raw [] [''schema_version'', ''schemaVersion''] of Inl e \<Rightarrow> Inl e | Inr schemaVersion \<Rightarrow>
       if blank schemaVersion then Inl (err ''schema version is required'')
       else
      (case firstString raw [] [''plugin_id'', ''pluginId'', ''plugin''] of Inl e \<Rightarrow> Inl e | Inr pluginID \<Rightarrow>
      (case firstInt64 raw 0 [''plugin_generation'', ''pluginGeneration'', ''generation''] of Inl e \<Rightarrow> Inl e | Inr generation \<Rightarrow>
         Inr \<lparr>mi_SchemaVersion = schemaVersion, mi_PluginID = pluginID, mi_PluginGeneration = generation\<rparr>))))"

text \<open>\<open>filepath.Abs\<close>.\<close>

definition Abs_path :: "bundle_env \<Rightarrow> path \<Rightarrow> goerr + path" where
  "Abs_path env p =
     (if IsAbs p then Inr (Clean p) else (case be_Getwd env of Inl e \<Rightarrow> Inl e | Inr wd \<Rightarrow> Inr (Join [wd, p])))"

definition StatIsDir :: "bundle_env \<Rightarrow> path \<Rightarrow> goerr + bool" where
  "StatIsDir env p =
     (case locate (be_deny env) (be_tree env) p of Inl e \<Rightarrow> Inl e | Inr ns \<Rightarrow> Inr (be_tree env ns = Some Directory))"

definition prepareBundleRoot :: "bundle_env \<Rightarrow> path \<Rightarrow> goerr + path" where
  "prepareBundleRoot env root =
     (if blank root then Inl (err ''bundle root is required'')
      else (case Abs_path env root of Inl e \<Rightarrow> Inl e | Inr absPath \<Rightarrow>
           (case EvalSymlinks (be_deny env) (be_tree env) absPath of Inl e \<Rightarrow> Inl e | Inr resolved \<Rightarrow>
           (case StatIsDir env resolved of Inl e \<Rightarrow> Inl e | Inr isDir \<Rightarrow>
            if \<not> isDir then Inl (err ''bundle root is not a directory'') else Inr resolved))))"

definition has_suffix :: "string \<Rightarrow> string \<Rightarrow> bool" where
  "has_suffix s t = has_prefix (rev s) (rev t)"

definition pathWithinRoot :: "path \<Rightarrow> path \<Rightarrow> bool" where
  "pathWithinRoot root p =
     (let rootWithSep = (if \<not> has_suffix root [slash] then root @ [slash] else root)
      in p = root \<or> has_prefix p rootWithSep)"

definition resolveBundlePath :: "bundle_env \<Rightarrow> path \<Rightarrow> path \<Rightarrow> goerr + path" where
  "resolveBundlePath env root p =
     (if blank p then Inl (err ''path is required'')
      else
        (let candidate = (if \<not> IsAbs p then Join [root, p] else p)
         in case Abs_path env candidate of
              Inl e \<Rightarrow> Inl e
            | Inr absPath \<Rightarrow>
                if \<not> pathWithinRoot root absPath then Inl (err ''path escapes bundle root'')
                else if (case EvalSymlinks (be_deny env) (be_tree env) absPath of Inr resolved \<Rightarrow> \<not> pathWithinRoot root resolved | Inl _ \<Rightarrow> False)
                then Inl (err ''path escapes bundle root'')
                else Inr absPath))"

definition resolveManifestPath :: "bundle_env \<Rightarrow> path \<Rightarrow> path \<Rightarrow> path \<Rightarrow> goerr + path" where
  "resolveManifestPath env root manifestPath manifestFilename =
     (if \<not> blank manifestPath then resolveBundlePath env root manifestPath
      else (let filename = TrimSpace manifestFilename
            in resolveBundlePath env root (if filename = [] then defaultManifestFilename else filename)))"

text \<open>\<open>hex.EncodeToString\<close>.\<close>

definition hex_digit :: "nat \<Rightarrow> char" where
  "hex_digit d = (if d < 10 then char_of (48 + d) else char_of (87 + d))"

definition hex_encode :: "string \<Rightarrow> string" where
  "hex_encode bs = concat (map (\<lambda>c. [hex_digit (of_char c div 16), hex_digit (of_char c mod 16)]) bs)"

text \<open>\<open>io.ReadAll\<close> of a \<open>TeeReader\<close>: every chunk read is written to the hash and appended to the result.\<close>

fun read_chunks :: "nat list \<Rightarrow> string \<Rightarrow> string list" where
  "read_chunks [] s = [s]"
| "read_chunks (n # ns) s = take n s # read_chunks ns (drop n s)"

definition digestFile :: "bundle_env \<Rightarrow> path \<Rightarrow> goerr + (bundle_digest \<times> string)" where
  "digestFile env p =
     (case locate (be_deny env) (be_tree env) p of Inl e \<Rightarrow> Inl e | Inr ns \<Rightarrow>
      (case be_open env ns of Some e \<Rightarrow> Inl e | None \<Rightarrow>
      (case be_tree env ns of
         Some (FileNode s) \<Rightarrow>
           (case be_read env ns of Some e \<Rightarrow> Inl e | None \<Rightarrow>
            (let chunks = read_chunks (be_sizes env ns) s; h = fold sha_Write chunks sha_New
             in Inr (\<lparr>dg_Algorithm = ''sha256'', dg_Value = hex_encode (sha_Sum h)\<rparr>, concat chunks)))
       | _ \<Rightarrow> Inl (SysErr None ''is a directory''))))"

definition failMetadata :: "bundle_metadata \<Rightarrow> bundle_status \<Rightarrow> string \<Rightarrow> string \<Rightarrow> bundle_metadata" where
  "failMetadata md status code msg =
     md\<lparr>bm_ValidationStatus := status, bm_RedactedErrorCode := RedactSecretLike code,
        bm_RedactedErrorMessage := RedactSecretLike msg\<rparr>"

definition inertManifestPath :: "load_options \<Rightarrow> path" where
  "inertManifestPath opts =
     (if \<not> blank (lo_ManifestPath opts) then lo_ManifestPath opts
      else if \<not> blank (lo_ManifestFilename opts) then Join [lo_BundleRootPath opts, lo_ManifestFilename opts]
      else if \<not> blank (lo_BundleRootPath opts) then Join [lo_BundleRootPath opts, defaultManifestFilename]
      else [])"

definition zero_digest :: bundle_digest where
  "zero_digest = \<lparr>dg_Algorithm = [], dg_Value = []\<rparr>"

text \<open>The loop over the declared assets: the assets so far, or the assets and the failure to report.\<close>

fun load_assets :: "bundle_env \<Rightarrow> path \<Rightarrow> path list \<Rightarrow> bundle_asset list
   \<Rightarrow> (bundle_asset list \<times> bundle_status \<times> string \<times> string) + bundle_asset list" where
  "load_assets env root [] assets = Inr assets"
| "load_assets env root (declaredPath # ps) assets =
     (case resolveBundlePath env root declaredPath of
        Inl _ \<Rightarrow> Inl (assets @ [\<lparr>as_Path = declaredPath, as_Digest = zero_digest\<rparr>], ProviderBundleStatusDeclaredInvalid,
                  ''invalid_lua_asset_path'', ''lua asset path is outside bundle root'')
      | Inr assetPath \<Rightarrow>
          (case digestFile env assetPath of
             Inl e \<Rightarrow> Inl (assets @ [\<lparr>as_Path = assetPath, as_Digest = zero_digest\<rparr>], ProviderBundleStatusDeclaredUnavailable,
                       if os_is_not_exist e then ''missing_lua_asset'' else ''unreadable_lua_asset'', ''lua asset is unavailable'')
           | Inr (digest, _) \<Rightarrow>
               load_assets env root ps (assets @ [\<lparr>as_Path = assetPath, as_Digest = digest\<rparr>])))"

definition LoadProviderBundleMetadata :: "bundle_env \<Rightarrow> load_options \<Rightarrow> bundle_metadata" where
  "LoadProviderBundleMetadata env opts =
     (let metadata = \<lparr>bm_PluginID = lo_PluginID opts, bm_PluginGeneration = lo_PluginGeneration opts,
            bm_BundleRootPath = lo_BundleRootPath opts, bm_ManifestPath = [], bm_LuaAssets = [],
            bm_ManifestDigest = zero_digest, bm_SchemaVersion = [], bm_ValidationStatus = [],
            bm_RedactedErrorCode = [], bm_RedactedErrorMessage = [], bm_ObservedAt = lo_ObservedAt opts,
            bm_SubstrateEventCorrelation = lo_SubstrateEventCorrelation opts\<rparr>;
          inert = (\<lambda>md. md\<lparr>bm_ManifestPath := inertManifestPath opts\<rparr>)
      in if validateLoadIdentity opts \<noteq> None then
           failMetadata (inert metadata) ProviderBundleStatusDeclaredInvalid ''malformed_load_identity'' ''provider bundle load identity is invalid''
         else if sint (lo_ExpectedPluginGeneration opts) > 0 \<and> lo_PluginGeneration opts \<noteq> lo_ExpectedPluginGeneration opts then
           failMetadata (inert metadata) ProviderBundleStatusDeclaredInvalid ''stale_generation'' ''plugin generation does not match expected generation''
         else (case prepareBundleRoot env (lo_BundleRootPath opts) of
           Inl _ \<Rightarrow> failMetadata (inert metadata) ProviderBundleStatusDeclaredUnavailable ''missing_bundle_root'' ''bundle root is unavailable''
         | Inr root \<Rightarrow>
           (let metadata = metadata\<lparr>bm_BundleRootPath := root\<rparr>
            in case resolveManifestPath env root (lo_ManifestPath opts) (lo_ManifestFilename opts) of
              Inl _ \<Rightarrow> failMetadata (inert metadata) ProviderBundleStatusDeclaredInvalid ''invalid_manifest_path'' ''manifest path is outside bundle root''
            | Inr manifestPath \<Rightarrow>
              (let metadata = metadata\<lparr>bm_ManifestPath := manifestPath\<rparr>
               in case digestFile env manifestPath of
                 Inl e \<Rightarrow> failMetadata metadata ProviderBundleStatusDeclaredUnavailable
                    (if os_is_not_exist e then ''missing_manifest'' else ''unreadable_manifest'') ''manifest is unavailable''
               | Inr (manifestDigest, manifestBytes) \<Rightarrow>
                 (let metadata = metadata\<lparr>bm_ManifestDigest := manifestDigest\<rparr>;
                      malformed = failMetadata metadata ProviderBundleStatusDeclaredInvalid ''malformed_manifest_identity''
                  in case parseManifestIdentity manifestBytes of
                    Inl _ \<Rightarrow> malformed ''manifest identity is invalid''
                  | Inr identity \<Rightarrow>
                    if mi_PluginID identity \<noteq> [] \<and> mi_PluginID identity \<noteq> lo_PluginID opts then
                      malformed ''manifest plugin id does not match''
                    else if mi_PluginGeneration identity \<noteq> None \<and> mi_PluginGeneration identity \<noteq> Some (lo_PluginGeneration opts) then
                      malformed ''manifest plugin generation does not match''
                    else
                      (let metadata = metadata\<lparr>bm_SchemaVersion := mi_SchemaVersion identity\<rparr>
                       in case load_assets env root (lo_ExpectedLuaAssetPaths opts) [] of
                            Inl (assets, status, code, msg) \<Rightarrow> failMetadata (metadata\<lparr>bm_LuaAssets := assets\<rparr>) status code msg
                          | Inr assets \<Rightarrow> metadata\<lparr>bm_LuaAssets := assets, bm_ValidationStatus := ProviderBundleStatusDeclaredValid\<rparr>))))))"

section \<open>Lemmas\<close>

subsection \<open>Paths below the root\<close>

lemma clean_comps_nonempty:
  "(\<And>w. w \<in> set st \<Longrightarrow> w \<noteq> []) \<Longrightarrow> v \<in> set (clean_comps r ws st) \<Longrightarrow> v \<noteq> []"
  by (induction r ws st rule: clean_comps.induct) (auto split: if_splits list.splits)

lemma path_comps_nonempty: "v \<in> set (path_comps p) \<Longrightarrow> v \<noteq> []"
  unfolding path_comps_def by (erule clean_comps_nonempty [rotated]) simp

lemma join_with_last: "ws \<noteq> [] \<Longrightarrow> last ws \<noteq> [] \<Longrightarrow> join_with d ws \<noteq> [] \<and> last (join_with d ws) = last (last ws)"
proof (induction ws)
  case (Cons w ws)
  then show ?case by (cases "ws = []") (auto simp: join_with_Cons)
qed simp

lemma has_suffix_slash: "has_suffix s [slash] \<longleftrightarrow> s \<noteq> [] \<and> last s = slash"
  by (cases s rule: rev_cases) (auto simp: has_suffix_def)

lemma join_with_prefix:
  assumes "\<And>w. w \<in> set us \<union> set vs \<Longrightarrow> slash \<notin> set w \<and> w \<noteq> []" and "us \<noteq> []"
  shows "prefix (join_with slash us @ [slash]) (join_with slash vs) \<longleftrightarrow> strict_prefix us vs"
proof
  assume "prefix (join_with slash us @ [slash]) (join_with slash vs)"
  then obtain t where t: "join_with slash vs = join_with slash us @ slash # t" by (auto simp: prefix_def)
  have "vs \<noteq> []" using t by auto
  then have "vs = split_on slash (join_with slash vs)" using split_join [of vs slash] assms(1) by simp
  also have "\<dots> = us @ split_on slash t"
    unfolding t split_on_sep using split_join [of us slash] assms by simp
  finally show "strict_prefix us vs" by (metis split_on_nonempty append_self_conv prefixI strict_prefix_def)
next
  assume "strict_prefix us vs"
  then obtain ws where "vs = us @ ws" "ws \<noteq> []" by (auto simp: strict_prefix_def prefix_def)
  then show "prefix (join_with slash us @ [slash]) (join_with slash vs)"
    using join_with_append [OF assms(2), of ws slash] by simp
qed

lemma join_with_inj:
  assumes "\<And>w. w \<in> set us \<union> set vs \<Longrightarrow> slash \<notin> set w \<and> w \<noteq> []" and "join_with slash us = join_with slash vs"
  shows "us = vs"
proof (cases "us = [] \<or> vs = []")
  case True
  have "ws = []" if "join_with slash ws = []" "\<And>w. w \<in> set ws \<Longrightarrow> w \<noteq> []" for ws
    using that join_with_last [of ws slash] last_in_set [of ws] by auto
  then show ?thesis using True assms by (metis UnI1 UnI2 join_with.simps(1))
next
  case False
  then have "us = split_on slash (join_with slash us)" "vs = split_on slash (join_with slash vs)"
    using split_join [of us slash] split_join [of vs slash] assms(1) by simp_all
  then show ?thesis using assms(2) by metis
qed

lemma within_join:
  assumes "\<And>w. w \<in> set us \<union> set vs \<Longrightarrow> slash \<notin> set w \<and> w \<noteq> []"
  shows "pathWithinRoot (path_of us) (path_of vs) \<longleftrightarrow> prefix us vs"
proof (cases "us = []")
  case True
  then show ?thesis by (simp add: pathWithinRoot_def path_of_def has_suffix_slash)
next
  case False
  have l: "last us \<noteq> []" "slash \<notin> set (last us)" using assms [of "last us"] last_in_set [OF False] by simp_all
  then have "last (last us) \<noteq> slash" by (metis last_in_set)
  then have "join_with slash us \<noteq> [] \<and> last (join_with slash us) \<noteq> slash"
    using join_with_last [OF False l(1), of slash] by simp
  then have "pathWithinRoot (path_of us) (path_of vs) \<longleftrightarrow>
      join_with slash vs = join_with slash us \<or> prefix (join_with slash us @ [slash]) (join_with slash vs)"
    by (simp add: pathWithinRoot_def path_of_def has_suffix_slash has_prefix_iff)
  also have "\<dots> \<longleftrightarrow> us = vs \<or> strict_prefix us vs"
  proof -
    have "prefix (join_with slash us @ [slash]) (join_with slash vs) \<longleftrightarrow> strict_prefix us vs"
      by (rule join_with_prefix [OF _ False]) (rule assms)
    moreover have "us = vs" if "join_with slash vs = join_with slash us"
      by (rule join_with_inj [OF assms that [symmetric]])
    ultimately show ?thesis by metis
  qed
  finally show ?thesis by (auto simp: strict_prefix_def)
qed

subsection \<open>Digests\<close>

lemma hex_digit_char: "d < 16 \<Longrightarrow> is_hex (hex_digit d) \<and> graph_byte (hex_digit d)"
proof -
  assume "d < 16"
  then have "d \<in> set [0..<16]" by simp
  moreover have "\<forall>d \<in> set [0..<16]. is_hex (hex_digit d) \<and> graph_byte (hex_digit d)"
    by (simp add: upt_rec is_hex_def hex_digit_def byte_class_defs graph_byte_def)
  ultimately show ?thesis by blast
qed

lemma hex_encode_bytes: "c \<in> set (hex_encode bs) \<Longrightarrow> is_hex c \<and> graph_byte c"
proof -
  assume "c \<in> set (hex_encode bs)"
  then obtain b :: char where "c = hex_digit (of_char b div 16) \<or> c = hex_digit (of_char b mod 16)"
    by (auto simp: hex_encode_def)
  moreover have "of_char b div 16 < (16 :: nat)" by (rule less_mult_imp_div_less) simp
  ultimately show ?thesis using hex_digit_char [of "of_char b mod 16"] hex_digit_char [of "of_char b div 16"] by auto
qed

lemma hex_encode_length: "length (hex_encode bs) = 2 * length bs"
  by (induction bs) (simp_all add: hex_encode_def)

lemma concat_read_chunks [simp]: "concat (read_chunks ns s) = s"
  by (induction ns s rule: read_chunks.induct) simp_all

text \<open>What \<open>digestFile\<close> returns are the bytes of the file found, and their hash.\<close>

definition file_digest :: "string \<Rightarrow> bundle_digest" where
  "file_digest b = \<lparr>dg_Algorithm = ''sha256'', dg_Value = hex_encode (sha256 b)\<rparr>"

lemma digestFile_reads:
  "digestFile env p = Inr (d, b) \<Longrightarrow>
   \<exists>ns. locate (be_deny env) (be_tree env) p = Inr ns \<and> be_tree env ns = Some (FileNode b) \<and> d = file_digest b"
  by (auto simp: digestFile_def file_digest_def chunked_sha256 Let_def split: sum.splits option.splits node.splits)

lemma digestFile_file:
  "locate (be_deny env) (be_tree env) p = Inr ns \<Longrightarrow> be_tree env ns = Some (FileNode b) \<Longrightarrow> be_open env ns = None \<Longrightarrow> be_read env ns = None
    \<Longrightarrow> digestFile env p = Inr (file_digest b, b)"
  by (simp add: digestFile_def file_digest_def chunked_sha256 Let_def)

lemma digest_valid:
  "ValidateDigest (file_digest b) = None"
proof -
  let ?v = "hex_encode (sha256 b)"
  have len: "length ?v = 64" by (simp add: hex_encode_length)
  have "TrimSpace ?v = ?v"
  proof (intro TrimSpace_graph)
    show v: "?v \<noteq> []" using len by auto
    show "graph_byte (hd ?v)" using hex_encode_bytes [OF hd_in_set [OF v]] by simp
    show "graph_byte (last ?v)" using hex_encode_bytes [OF last_in_set [OF v]] by simp
  qed
  moreover have "TrimSpace ''sha256'' = ''sha256''" by (rule TrimSpace_graph; simp add: graph_byte_def in_range_def)
  ultimately show ?thesis
    using len hex_encode_bytes by (simp add: file_digest_def ValidateDigest_def hexDigest64_def list_all_iff lower_byte_def byte_class_defs)
qed

lemma slash_not_blank: "slash \<in> set p \<Longrightarrow> \<not> blank p"
  using blank_bytes [of p] by (auto simp: space_encodings_def)

lemma IsAbs_not_blank: "IsAbs p \<Longrightarrow> \<not> blank p"
  by (rule slash_not_blank) (cases p; simp add: IsAbs_def)

subsection \<open>Resolved paths\<close>

text \<open>
  The root is a directory that no link leads to, and the file at \<open>p\<close>, wherever links lead, lies below it and has
  the digest \<open>d\<close>.
\<close>

definition real_root :: "bundle_env \<Rightarrow> path \<Rightarrow> names \<Rightarrow> bool" where
  "real_root env root rs \<longleftrightarrow> root = path_of rs \<and> be_tree env rs = Some Directory"

definition inside :: "bundle_env \<Rightarrow> names \<Rightarrow> path \<Rightarrow> bundle_digest \<Rightarrow> bool" where
  "inside env rs p d \<longleftrightarrow> pathWithinRoot (path_of rs) p
     \<and> (\<exists>ns b. locate (be_deny env) (be_tree env) p = Inr ns \<and> prefix rs ns \<and> be_tree env ns = Some (FileNode b) \<and> d = file_digest b)"

lemma prepareBundleRoot_real:
  assumes "prepareBundleRoot env r = Inr root" and "proper_tree (be_tree env)"
  shows "\<exists>rs. real_root env root rs"
proof -
  obtain p where p: "EvalSymlinks (be_deny env) (be_tree env) p = Inr root" and d: "StatIsDir env root = Inr True"
    using assms(1) by (auto simp: prepareBundleRoot_def split: if_splits sum.splits)
  obtain rs where rs: "root = path_of rs" "be_tree env rs = Some Directory \<or> (\<exists>s. be_tree env rs = Some (FileNode s))"
    using EvalSymlinks_real [OF p assms(2)] by blast
  obtain ns where "walk (be_deny env) (be_tree env) 40 [] root = Inr ns" "be_tree env ns = Some Directory"
    using d by (auto simp: StatIsDir_def locate_def split: sum.splits)
  moreover from this(1) have "ns = rs" using walk_path_of [OF assms(2), of "[]" rs] rs by auto
  ultimately show ?thesis using rs(1) by (auto simp: real_root_def)
qed

lemma resolveBundlePath_inside:
  assumes "real_root env root rs" and "resolveBundlePath env root p = Inr q" and "digestFile env q = Inr (d, b)"
    and "proper_tree (be_tree env)"
  shows "inside env rs q d"
proof -
  obtain ns where ns: "locate (be_deny env) (be_tree env) q = Inr ns" "be_tree env ns = Some (FileNode b)" "d = file_digest b"
    using digestFile_reads [OF assms(3)] by blast
  have w: "pathWithinRoot root q" "EvalSymlinks (be_deny env) (be_tree env) q = Inr x \<Longrightarrow> pathWithinRoot root x" for x
    using assms(2) by (auto simp: resolveBundlePath_def Let_def split: if_splits sum.splits)
  have root: "root = path_of rs" "be_tree env rs = Some Directory" using assms(1) by (simp_all add: real_root_def)
  have "pathWithinRoot (path_of rs) (path_of ns)" using w(2) [OF locate_EvalSymlinks [OF ns(1)]] root(1) by simp
  then have "prefix rs ns"
    using proper_names [OF assms(4), of rs] proper_names [OF assms(4), of ns] root(2) ns(2)
    by (subst (asm) within_join) (auto simp: plain_name_def)
  then show ?thesis using w(1) root(1) ns by (auto simp: inside_def)
qed

lemma resolveManifestPath_inside:
  "real_root env root rs \<Longrightarrow> resolveManifestPath env root p f = Inr q \<Longrightarrow> digestFile env q = Inr (d, b)
    \<Longrightarrow> proper_tree (be_tree env) \<Longrightarrow> inside env rs q d"
  by (auto simp: resolveManifestPath_def Let_def split: if_splits intro: resolveBundlePath_inside)

lemma inside_valid: "inside env rs p d \<Longrightarrow> \<not> blank p \<and> ValidateDigest d = None"
proof -
  assume i: "inside env rs p d"
  then have "IsAbs p"
    by (auto simp: inside_def path_of_def pathWithinRoot_def IsAbs_def Let_def has_prefix_iff prefix_def split: if_splits)
  then show ?thesis using i by (auto simp: inside_def IsAbs_not_blank digest_valid)
qed

lemma load_assets_ok:
  assumes "load_assets env root ps acc = Inr assets" and "real_root env root rs" and "proper_tree (be_tree env)"
    and "\<forall>a \<in> set acc. inside env rs (as_Path a) (as_Digest a)"
  shows "\<forall>a \<in> set assets. inside env rs (as_Path a) (as_Digest a)"
  using assms
proof (induction env root ps acc rule: load_assets.induct)
  case (2 env root p ps acc)
  from 2(2) obtain q d b where q: "resolveBundlePath env root p = Inr q" "digestFile env q = Inr (d, b)"
    and r: "load_assets env root ps (acc @ [\<lparr>as_Path = q, as_Digest = d\<rparr>]) = Inr assets"
    by (auto split: sum.splits prod.splits)
  show ?case by (rule 2(1) [OF q(1) q(2) refl r 2(3,4)]) (use 2(3,4,5) q resolveBundlePath_inside in auto)
qed simp

lemma load_assets_paths:
  "load_assets env root ps acc = Inr assets
   \<Longrightarrow> \<exists>as. assets = acc @ as \<and> map (resolveBundlePath env root) ps = map (\<lambda>a. Inr (as_Path a)) as"
proof (induction env root ps acc rule: load_assets.induct)
  case (2 env root p ps acc)
  from 2(2) obtain q d b where q: "resolveBundlePath env root p = Inr q" "digestFile env q = Inr (d, b)"
    and r: "load_assets env root ps (acc @ [\<lparr>as_Path = q, as_Digest = d\<rparr>]) = Inr assets"
    by (auto split: sum.splits prod.splits)
  from 2(1) [OF q(1) q(2) refl r] obtain as where
    "assets = (acc @ [\<lparr>as_Path = q, as_Digest = d\<rparr>]) @ as" "map (resolveBundlePath env root) ps = map (\<lambda>a. Inr (as_Path a)) as"
    by blast
  then show ?case using q(1) by (intro exI [of _ "\<lparr>as_Path = q, as_Digest = d\<rparr> # as"]) simp
qed simp

subsection \<open>Outcomes of a load\<close>

lemma failMetadata_status [simp]:
  "bm_ValidationStatus (failMetadata md st code msg) = st"
  "bm_RedactedErrorCode (failMetadata md st code msg) = RedactSecretLike code"
  by (simp_all add: failMetadata_def)

lemma load_assets_fails:
  "load_assets env root ps acc = Inl (assets, st, code, msg) \<Longrightarrow>
     (st = ProviderBundleStatusDeclaredInvalid \<and> code = ''invalid_lua_asset_path'')
     \<or> (st = ProviderBundleStatusDeclaredUnavailable \<and> code \<in> {''missing_lua_asset'', ''unreadable_lua_asset''})"
  by (induction ps arbitrary: acc) (auto split: sum.split_asm prod.split_asm if_split_asm)

lemma LoadProviderBundleMetadata_valid:
  assumes "LoadProviderBundleMetadata env opts = md" and "bm_ValidationStatus md = ProviderBundleStatusDeclaredValid"
  shows "\<exists>root mp d b ident assets. validateLoadIdentity opts = None
    \<and> prepareBundleRoot env (lo_BundleRootPath opts) = Inr root
    \<and> resolveManifestPath env root (lo_ManifestPath opts) (lo_ManifestFilename opts) = Inr mp
    \<and> digestFile env mp = Inr (d, b) \<and> parseManifestIdentity b = Inr ident
    \<and> load_assets env root (lo_ExpectedLuaAssetPaths opts) [] = Inr assets
    \<and> (0 < sint (lo_ExpectedPluginGeneration opts) \<longrightarrow> lo_PluginGeneration opts = lo_ExpectedPluginGeneration opts)
    \<and> mi_PluginID ident \<in> {[], lo_PluginID opts} \<and> mi_PluginGeneration ident \<in> {None, Some (lo_PluginGeneration opts)}
    \<and> md = \<lparr>bm_PluginID = lo_PluginID opts, bm_PluginGeneration = lo_PluginGeneration opts, bm_BundleRootPath = root,
        bm_ManifestPath = mp, bm_LuaAssets = assets, bm_ManifestDigest = d, bm_SchemaVersion = mi_SchemaVersion ident,
        bm_ValidationStatus = ProviderBundleStatusDeclaredValid, bm_RedactedErrorCode = [], bm_RedactedErrorMessage = [],
        bm_ObservedAt = lo_ObservedAt opts, bm_SubstrateEventCorrelation = lo_SubstrateEventCorrelation opts\<rparr>"
proof -
  note a = assms(2) [folded assms(1), unfolded LoadProviderBundleMetadata_def Let_def]
  have v: "validateLoadIdentity opts = None" by (rule ccontr) (use a in simp)
  have g: "\<not> (0 < sint (lo_ExpectedPluginGeneration opts) \<and> lo_PluginGeneration opts \<noteq> lo_ExpectedPluginGeneration opts)"
    by (rule notI) (use a v in simp)
  obtain root where r: "prepareBundleRoot env (lo_BundleRootPath opts) = Inr root"
    using a v g by (cases "prepareBundleRoot env (lo_BundleRootPath opts)") simp_all
  obtain mp where mp: "resolveManifestPath env root (lo_ManifestPath opts) (lo_ManifestFilename opts) = Inr mp"
    using a v g r by (cases "resolveManifestPath env root (lo_ManifestPath opts) (lo_ManifestFilename opts)") simp_all
  obtain d b where d: "digestFile env mp = Inr (d, b)"
    using a v g r mp by (cases "digestFile env mp") auto
  obtain ident where i: "parseManifestIdentity b = Inr ident"
    using a v g r mp d by (cases "parseManifestIdentity b") simp_all
  have m: "\<not> (mi_PluginID ident \<noteq> [] \<and> mi_PluginID ident \<noteq> lo_PluginID opts)"
    by (rule notI) (use a v g r mp d i in simp)
  have m': "\<not> (mi_PluginGeneration ident \<noteq> None \<and> mi_PluginGeneration ident \<noteq> Some (lo_PluginGeneration opts))"
    by (rule notI) (use a v g r mp d i m in simp)
  note path = v g r mp d i m m'
  obtain assets where as: "load_assets env root (lo_ExpectedLuaAssetPaths opts) [] = Inr assets"
  proof (cases "load_assets env root (lo_ExpectedLuaAssetPaths opts) []")
    case (Inl x)
    obtain as st code msg where x: "x = (as, st, code, msg)" by (cases x)
    have "st = ProviderBundleStatusDeclaredValid"
      using a path Inl x by (cases "mi_PluginGeneration ident") simp_all
    then show ?thesis using load_assets_fails [OF Inl [unfolded x]] by auto
  qed (rule that)
  have "LoadProviderBundleMetadata env opts = \<lparr>bm_PluginID = lo_PluginID opts, bm_PluginGeneration = lo_PluginGeneration opts,
        bm_BundleRootPath = root, bm_ManifestPath = mp, bm_LuaAssets = assets, bm_ManifestDigest = d,
        bm_SchemaVersion = mi_SchemaVersion ident, bm_ValidationStatus = ProviderBundleStatusDeclaredValid,
        bm_RedactedErrorCode = [], bm_RedactedErrorMessage = [], bm_ObservedAt = lo_ObservedAt opts,
        bm_SubstrateEventCorrelation = lo_SubstrateEventCorrelation opts\<rparr>"
    unfolding LoadProviderBundleMetadata_def Let_def using path as by (cases "mi_PluginGeneration ident") auto
  moreover have "0 < sint (lo_ExpectedPluginGeneration opts) \<longrightarrow> lo_PluginGeneration opts = lo_ExpectedPluginGeneration opts"
    "mi_PluginID ident \<in> {[], lo_PluginID opts}" "mi_PluginGeneration ident \<in> {None, Some (lo_PluginGeneration opts)}"
    using g m m' by auto
  ultimately show ?thesis using v r mp d i as assms(1) by blast
qed

lemma failMetadata_identity [simp]:
  "bm_PluginID (failMetadata md st code msg) = bm_PluginID md"
  "bm_PluginGeneration (failMetadata md st code msg) = bm_PluginGeneration md"
  by (simp_all add: failMetadata_def)

lemma load_identity:
  "bm_PluginID (LoadProviderBundleMetadata env opts) = lo_PluginID opts"
  "bm_PluginGeneration (LoadProviderBundleMetadata env opts) = lo_PluginGeneration opts"
  by (simp_all add: LoadProviderBundleMetadata_def Let_def split: sum.split prod.split if_split)

text \<open>The failures a load can report, status and code.\<close>

definition load_failures :: "(bundle_status \<times> string) list" where
  "load_failures =
     [(ProviderBundleStatusDeclaredInvalid, ''malformed_load_identity''), (ProviderBundleStatusDeclaredInvalid, ''stale_generation''),
      (ProviderBundleStatusDeclaredUnavailable, ''missing_bundle_root''), (ProviderBundleStatusDeclaredInvalid, ''invalid_manifest_path''),
      (ProviderBundleStatusDeclaredUnavailable, ''missing_manifest''), (ProviderBundleStatusDeclaredUnavailable, ''unreadable_manifest''),
      (ProviderBundleStatusDeclaredInvalid, ''malformed_manifest_identity''), (ProviderBundleStatusDeclaredInvalid, ''invalid_lua_asset_path''),
      (ProviderBundleStatusDeclaredUnavailable, ''missing_lua_asset''), (ProviderBundleStatusDeclaredUnavailable, ''unreadable_lua_asset'')]"

lemma failures_not_redacted: "\<forall>(st, code) \<in> set load_failures. RedactSecretLike code = code"
  unfolding load_failures_def by code_simp

lemma failure_eval:
  "(st, code) \<in> set load_failures \<longleftrightarrow>
     (st = ProviderBundleStatusDeclaredInvalid \<and> code \<in> {''malformed_load_identity'', ''stale_generation'', ''invalid_manifest_path'',
        ''malformed_manifest_identity'', ''invalid_lua_asset_path''})
     \<or> (st = ProviderBundleStatusDeclaredUnavailable \<and> code \<in> {''missing_bundle_root'', ''missing_manifest'', ''unreadable_manifest'',
        ''missing_lua_asset'', ''unreadable_lua_asset''})"
  unfolding load_failures_def by auto

lemma load_outcome_cases:
  assumes f: "\<And>md st code msg. (st, code) \<in> set load_failures \<Longrightarrow> P (failMetadata md st code msg)"
    and v: "\<And>md. bm_ValidationStatus md = ProviderBundleStatusDeclaredValid \<Longrightarrow> bm_RedactedErrorCode md = [] \<Longrightarrow> P md"
  shows "P (LoadProviderBundleMetadata env opts)"
proof -
  have a: "P (case load_assets env root ps [] of Inl (assets, status, code, msg) \<Rightarrow> failMetadata (m assets) status code msg
      | Inr assets \<Rightarrow> (m assets)\<lparr>bm_ValidationStatus := ProviderBundleStatusDeclaredValid\<rparr>)"
    if "\<And>x. bm_RedactedErrorCode (m x) = []" for root ps m
  proof (cases "load_assets env root ps []")
    case (Inl x)
    obtain assets st code msg where x: "x = (assets, st, code, msg)" by (cases x)
    have "(st, code) \<in> set load_failures" using load_assets_fails [OF Inl [unfolded x]] by (auto simp: failure_eval)
    then show ?thesis using f Inl x by simp
  qed (use v that in simp)
  show ?thesis
    unfolding LoadProviderBundleMetadata_def Let_def
    apply (split if_split, intro conjI impI)
     apply (rule f, simp add: failure_eval)
    apply (split if_split, intro conjI impI)
     apply (rule f, simp add: failure_eval)
    apply (split sum.split, intro conjI impI allI)
     apply (rule f, simp add: failure_eval)
    apply (split sum.split, intro conjI impI allI)
     apply (rule f, simp add: failure_eval)
    apply (split sum.split, intro conjI impI allI)
     apply (rule f, simp add: failure_eval)
    apply (split prod.split, intro impI allI)
    apply (split sum.split, intro conjI impI allI)
     apply (rule f, simp add: failure_eval)
    apply (split if_split, intro conjI impI)
     apply (rule f, simp add: failure_eval)
    apply (split if_split, intro conjI impI)
     apply (rule f, simp add: failure_eval)
    apply (rule a [of "\<lambda>assets. _\<lparr>bm_LuaAssets := assets\<rparr>", simplified])
    apply simp
    done
qed

lemma load_status:
  "(bm_ValidationStatus (LoadProviderBundleMetadata env opts), bm_RedactedErrorCode (LoadProviderBundleMetadata env opts))
     \<in> set ((ProviderBundleStatusDeclaredValid, []) # load_failures)"
proof (rule load_outcome_cases)
  fix md msg and st code :: string
  assume "(st, code) \<in> set load_failures"
  then show "(bm_ValidationStatus (failMetadata md st code msg), bm_RedactedErrorCode (failMetadata md st code msg))
      \<in> set ((ProviderBundleStatusDeclaredValid, []) # load_failures)" using failures_not_redacted by auto
qed simp

section \<open>Properties\<close>

text \<open>
  The containment test is exact. For absolute paths in cleaned form, the form in which the loader compares
  them, the textual test \<open>pathWithinRoot\<close> holds exactly when the components of the root are an initial
  segment of the components of the path: neither a sibling whose name merely starts with the root's name nor
  the root \<open>/\<close> is judged wrongly.
\<close>

theorem pathWithinRoot_exact:
  assumes "IsAbs root" and "IsAbs p"
  shows "pathWithinRoot (Clean root) (Clean p) \<longleftrightarrow> prefix (path_comps root) (path_comps p)"
proof -
  have "slash \<notin> set w \<and> w \<noteq> []" if "w \<in> set (path_comps root) \<union> set (path_comps p)" for w
    using that path_comps_no_slash path_comps_nonempty by blast
  from within_join [OF this] show ?thesis using assms by (simp add: Clean_alt path_of_def)
qed

theorem pathWithinRoot_exact_witness:
  "pathWithinRoot (Clean ''/srv/b/'') (Clean ''/srv/b/x/../y'') \<and> \<not> pathWithinRoot (Clean ''/srv/b/'') (Clean ''/srv/bundle'')
   \<and> \<not> pathWithinRoot (Clean ''/srv/b/'') (Clean ''/srv/b/../c'')"
proof -
  have c: "path_comps ''/srv/b/'' = [''srv'', ''b'']" "path_comps ''/srv/b/x/../y'' = [''srv'', ''b'', ''y'']"
    "path_comps ''/srv/bundle'' = [''srv'', ''bundle'']" "path_comps ''/srv/b/../c'' = [''srv'', ''c'']"
    by code_simp+
  show ?thesis
    using pathWithinRoot_exact [of "''/srv/b/''" "''/srv/b/x/../y''"] pathWithinRoot_exact [of "''/srv/b/''" "''/srv/bundle''"]
      pathWithinRoot_exact [of "''/srv/b/''" "''/srv/b/../c''"]
    by (simp add: c IsAbs_def)
qed

text \<open>
  C30: the loader never reads outside its bundle. On a file system with arbitrary symbolic links, whenever a path was
  resolved against the prepared root and its file could be read, the root is a real directory (no link on the way to
  it) and the file that the kernel found, following every link, lies below that directory; the digest is the
  SHA-256 of exactly the bytes of that file, however the reads were cut.
\<close>

theorem loader_stays_inside:
  assumes "prepareBundleRoot env r = Inr root" and "resolveBundlePath env root p = Inr q"
    and "digestFile env q = Inr (d, b)" and "proper_tree (be_tree env)"
  shows "\<exists>rs ns. root = path_of rs \<and> be_tree env rs = Some Directory
    \<and> locate (be_deny env) (be_tree env) q = Inr ns \<and> prefix rs ns \<and> be_tree env ns = Some (FileNode b)
    \<and> d = \<lparr>dg_Algorithm = ''sha256'', dg_Value = hex_encode (sha256 b)\<rparr>"
proof -
  obtain rs where rs: "real_root env root rs" using prepareBundleRoot_real [OF assms(1,4)] by blast
  obtain ns where "locate (be_deny env) (be_tree env) q = Inr ns" "be_tree env ns = Some (FileNode b)" "d = file_digest b"
    using digestFile_reads [OF assms(3)] by blast
  moreover have "inside env rs q d" by (rule resolveBundlePath_inside [OF rs assms(2,3,4)])
  ultimately show ?thesis using rs by (auto simp: real_root_def inside_def file_digest_def)
qed

text \<open>
  C29: metadata the loader declares valid is valid. A bundle loaded as \<open>declared_valid\<close> passes \<open>Validate\<close> for the
  requested generation, and for the expected generation where one was given; it is bound to the requested plugin id and
  generation, which the identity in the manifest does not contradict; its root is a real directory; its assets are
  exactly the requested ones, in their order, resolved against the root; and manifest and every asset are files (not
  directories) below that directory, after following all links, recorded with the SHA-256 of the bytes read from them.
\<close>

theorem loaded_valid_metadata:
  assumes "LoadProviderBundleMetadata env opts = md" and "bm_ValidationStatus md = ProviderBundleStatusDeclaredValid"
    and "proper_tree (be_tree env)"
  shows "ValidateMetadata md [lo_PluginGeneration opts] = None
    \<and> (0 < sint (lo_ExpectedPluginGeneration opts) \<longrightarrow> ValidateMetadata md [lo_ExpectedPluginGeneration opts] = None)
    \<and> bm_PluginID md = lo_PluginID opts \<and> bm_PluginGeneration md = lo_PluginGeneration opts
    \<and> (\<exists>b ident. digestFile env (bm_ManifestPath md) = Inr (bm_ManifestDigest md, b) \<and> parseManifestIdentity b = Inr ident
          \<and> bm_SchemaVersion md = mi_SchemaVersion ident \<and> mi_PluginID ident \<in> {[], lo_PluginID opts}
          \<and> mi_PluginGeneration ident \<in> {None, Some (lo_PluginGeneration opts)})
    \<and> map (resolveBundlePath env (bm_BundleRootPath md)) (lo_ExpectedLuaAssetPaths opts) = map (\<lambda>a. Inr (as_Path a)) (bm_LuaAssets md)
    \<and> (\<exists>rs. real_root env (bm_BundleRootPath md) rs \<and> inside env rs (bm_ManifestPath md) (bm_ManifestDigest md)
          \<and> (\<forall>a \<in> set (bm_LuaAssets md). inside env rs (as_Path a) (as_Digest a)))"
proof -
  obtain root mp d b ident assets where v: "validateLoadIdentity opts = None"
    and r: "prepareBundleRoot env (lo_BundleRootPath opts) = Inr root"
    and mp: "resolveManifestPath env root (lo_ManifestPath opts) (lo_ManifestFilename opts) = Inr mp"
    and d: "digestFile env mp = Inr (d, b)" and i: "parseManifestIdentity b = Inr ident"
    and as: "load_assets env root (lo_ExpectedLuaAssetPaths opts) [] = Inr assets"
    and g: "0 < sint (lo_ExpectedPluginGeneration opts) \<longrightarrow> lo_PluginGeneration opts = lo_ExpectedPluginGeneration opts"
    and id: "mi_PluginID ident \<in> {[], lo_PluginID opts}" "mi_PluginGeneration ident \<in> {None, Some (lo_PluginGeneration opts)}"
    and md: "md = \<lparr>bm_PluginID = lo_PluginID opts, bm_PluginGeneration = lo_PluginGeneration opts, bm_BundleRootPath = root,
        bm_ManifestPath = mp, bm_LuaAssets = assets, bm_ManifestDigest = d, bm_SchemaVersion = mi_SchemaVersion ident,
        bm_ValidationStatus = ProviderBundleStatusDeclaredValid, bm_RedactedErrorCode = [], bm_RedactedErrorMessage = [],
        bm_ObservedAt = lo_ObservedAt opts, bm_SubstrateEventCorrelation = lo_SubstrateEventCorrelation opts\<rparr>"
    using LoadProviderBundleMetadata_valid [OF assms(1,2)] by blast
  obtain rs where rs: "real_root env root rs" using prepareBundleRoot_real [OF r assms(3)] by blast
  have "IsAbs root" using rs by (simp add: real_root_def path_of_def IsAbs_def)
  have m: "inside env rs mp d" by (rule resolveManifestPath_inside [OF rs mp d assms(3)])
  have assets: "\<forall>a \<in> set assets. inside env rs (as_Path a) (as_Digest a)" by (rule load_assets_ok [OF as rs assms(3)]) simp
  have paths: "map (resolveBundlePath env root) (lo_ExpectedLuaAssetPaths opts) = map (\<lambda>a. Inr (as_Path a)) assets"
    using load_assets_paths [OF as] by simp
  have "validate_assets 0 assets = None" using assets inside_valid by (fastforce simp: validate_assets_ok)
  moreover have "\<not> blank (mi_SchemaVersion ident)"
    using i by (auto simp: parseManifestIdentity_def split: sum.splits if_splits)
  ultimately have val: "ValidateMetadata md [lo_PluginGeneration opts] = None"
    using v inside_valid [OF m] IsAbs_not_blank [OF \<open>IsAbs root\<close>]
    by (auto simp: md ValidateMetadata_def validateLoadIdentity_def ValidateStatus_def markers_not_secret split: option.splits if_splits)
  have fields: "bm_PluginID md = lo_PluginID opts" "bm_PluginGeneration md = lo_PluginGeneration opts" "bm_BundleRootPath md = root"
    "bm_ManifestPath md = mp" "bm_LuaAssets md = assets" "bm_ManifestDigest md = d" "bm_SchemaVersion md = mi_SchemaVersion ident"
    by (simp_all add: md)
  show ?thesis
    unfolding fields using val g d i id paths rs m assets by (intro conjI) (simp, force, (simp; fail | blast)+)
qed

definition sample_manifest :: string where
  "sample_manifest = print_json (JsonObj [(''schemaVersion'', JsonStr ''v1''), (''generation'', JsonNum ''1'')])"

lemma sample_manifest_identity:
  "parseManifestIdentity sample_manifest = Inr \<lparr>mi_SchemaVersion = ''v1'', mi_PluginID = [], mi_PluginGeneration = Some 1\<rparr>"
proof -
  let ?m = "JsonObj [(''schemaVersion'', JsonStr ''v1''), (''generation'', JsonNum ''1'')]"
  have "nums_ok ?m" by code_simp
  then have "parse_json sample_manifest = Some ?m"
    using parse_print [of ?m] by (simp add: sample_manifest_def maxNestingDepth_def to_valid_ascii del: to_valid.simps)
  moreover have "fmt_int 1 = ''1''" "\<not> blank ''v1''" by code_simp+
  moreover have "Atoi (fmt_int 1) = Inr 1" by (rule Atoi_fmt_int) simp_all
  ultimately show ?thesis
    by (simp add: parseManifestIdentity_def unmarshal_object_def unmarshal_string_def unmarshal_int64_def)
qed

text \<open>The root is reached through a link, and the asset is a link inside the bundle.\<close>

definition sample_nodes :: "(names \<times> node) list" where
  "sample_nodes = [([], Directory), ([''srv''], Symlink ''/data''), ([''data''], Directory), ([''data'', ''b''], Directory),
     ([''data'', ''b'', ''manifest.json''], FileNode sample_manifest), ([''data'', ''b'', ''x.lua''], Symlink ''../b/y.lua''),
     ([''data'', ''b'', ''y.lua''], FileNode ''return 1'')]"

definition sample_bundle_env :: bundle_env where
  "sample_bundle_env = \<lparr>be_Getwd = Inr ''/'', be_tree = map_of sample_nodes, be_deny = (\<lambda>_. None), be_open = (\<lambda>_. None), be_read = (\<lambda>_. None),
     be_sizes = (\<lambda>_. [3])\<rparr>"

definition sample_load_options :: load_options where
  "sample_load_options = \<lparr>lo_PluginID = ''echo'', lo_PluginGeneration = 1, lo_ExpectedPluginGeneration = 1,
     lo_BundleRootPath = ''srv/b'', lo_ManifestPath = [], lo_ManifestFilename = [], lo_ExpectedLuaAssetPaths = [''x.lua''],
     lo_ObservedAt = 1, lo_SubstrateEventCorrelation = ''c''\<rparr>"

lemma sample_proper: "proper_tree (be_tree sample_bundle_env)"
  unfolding sample_bundle_env_def bundle_env.select_convs by (rule proper_tree_map_of; code_simp)

lemma sample_resolved_paths:
  "prepareBundleRoot sample_bundle_env ''srv/b'' = Inr ''/data/b''"
  "resolveManifestPath sample_bundle_env ''/data/b'' [] [] = Inr ''/data/b/manifest.json''"
  "resolveBundlePath sample_bundle_env ''/data/b'' ''x.lua'' = Inr ''/data/b/x.lua''"
  by code_simp+

lemma sample_digests:
  "digestFile sample_bundle_env ''/data/b/manifest.json'' = Inr (file_digest sample_manifest, sample_manifest)"
  "digestFile sample_bundle_env ''/data/b/x.lua'' = Inr (file_digest ''return 1'', ''return 1'')"
proof -
  have l: "locate (be_deny sample_bundle_env) (be_tree sample_bundle_env) ''/data/b/manifest.json'' = Inr [''data'', ''b'', ''manifest.json'']"
    "locate (be_deny sample_bundle_env) (be_tree sample_bundle_env) ''/data/b/x.lua'' = Inr [''data'', ''b'', ''y.lua'']" by code_simp+
  show "digestFile sample_bundle_env ''/data/b/manifest.json'' = Inr (file_digest sample_manifest, sample_manifest)"
    by (rule digestFile_file [OF l(1)]) (simp_all add: sample_bundle_env_def sample_nodes_def)
  show "digestFile sample_bundle_env ''/data/b/x.lua'' = Inr (file_digest ''return 1'', ''return 1'')"
    by (rule digestFile_file [OF l(2)]) (simp_all add: sample_bundle_env_def sample_nodes_def)
qed

lemma sample_load:
  "bm_ValidationStatus (LoadProviderBundleMetadata sample_bundle_env sample_load_options) = ProviderBundleStatusDeclaredValid"
proof -
  have ident: "validateLoadIdentity sample_load_options = None" by code_simp
  show ?thesis
    by (simp add: LoadProviderBundleMetadata_def Let_def ident [unfolded sample_load_options_def] sample_load_options_def
        sample_resolved_paths sample_digests sample_manifest_identity)
qed

theorem loader_stays_inside_witness:
  "\<exists>rs ns. ''/data/b'' = path_of rs \<and> prefix rs ns \<and> be_tree sample_bundle_env ns = Some (FileNode ''return 1'')"
  using loader_stays_inside [OF sample_resolved_paths(1,3) sample_digests(2) sample_proper] by blast

theorem loaded_valid_metadata_witness:
  "let md = LoadProviderBundleMetadata sample_bundle_env sample_load_options in
     ValidateMetadata md [lo_ExpectedPluginGeneration sample_load_options] = None \<and> length (bm_LuaAssets md) = 1"
proof -
  have g: "0 < sint (lo_ExpectedPluginGeneration sample_load_options)" "length (lo_ExpectedLuaAssetPaths sample_load_options) = 1"
    by (simp_all add: sample_load_options_def)
  note l = loaded_valid_metadata [OF refl sample_load sample_proper]
  have "length (bm_LuaAssets (LoadProviderBundleMetadata sample_bundle_env sample_load_options)) = 1"
    using arg_cong [OF conjunct1 [OF conjunct2 [OF conjunct2 [OF conjunct2 [OF conjunct2 [OF conjunct2 [OF l]]]]]], of length] g(2) by simp
  then show ?thesis using conjunct1 [OF conjunct2 [OF l]] g(1) by (simp add: Let_def)
qed

text \<open>
  A load never fails silently. Whatever the options and the file system, the result is bound to the requested
  plugin id and generation and has one of the three declared statuses; it is valid exactly if it carries no error
  code, and otherwise carries one of the fixed codes, unchanged by redaction, so no path and no text of the manifest
  reaches the error fields.
\<close>

theorem load_outcome:
  "let md = LoadProviderBundleMetadata env opts in
     bm_PluginID md = lo_PluginID opts \<and> bm_PluginGeneration md = lo_PluginGeneration opts
   \<and> (bm_ValidationStatus md, bm_RedactedErrorCode md)
     \<in> set ((ProviderBundleStatusDeclaredValid, []) # load_failures)"
  using load_status by (simp add: Let_def load_identity)

end
