(* ===== verification/Kernel_Host.thy ===== *)
theory Kernel_Host
  imports Manager_Calls
begin

text \<open>
  The kernel host (\<open>src/src/internal/kernel/host.go\<close>): one manager per plugin id, started, routed to and
  closed together. A host is a map from plugin ids to managers and the sorted list of ids. Every manager
  acts on its own part of the world (its runtime directory and its own child processes), so operations
  on different managers commute and the order in which Go ranges over a map is irrelevant.

  What the host needs of a manager is the locale \<open>supervised\<close>; the loops of \<open>StartAll\<close> and \<open>Close\<close> are
  written over an arbitrary manager type, their lemmas are proved in the locale, and the locale is
  interpreted on the manager of theory \<open>Manager\<close>.
\<close>

section \<open>Data\<close>

record plugin_config =
  pl_PluginID :: string
  pl_PluginPath :: path
  pl_Metadata :: "bundle_metadata option"
  pl_Refresh :: "(int64 \<rightharpoonup> bundle_metadata) option"

record host_config =
  hc_RuntimeDir :: path
  hc_EventLogPath :: path
  hc_DialTimeout :: duration
  hc_CallTimeout :: duration
  hc_HeartbeatEvery :: duration
  hc_Plugins :: "plugin_config list"
  hc_DisableRedaction :: bool

record 'm host_of =
  hs_managers :: "string \<rightharpoonup> 'm"
  hs_plugins :: "string list"

type_synonym host = "manager host_of"

record route =
  rt_PluginID :: string
  rt_Capabilities :: "string list"
  rt_Healthy :: bool
  rt_GenerationID :: uint64
  rt_Mode :: string

record host_state =
  ho_Plugins :: "plugin_state list"
  ho_CapabilityMap :: "string \<rightharpoonup> string list"
  ho_Routes :: "route list"

text \<open>A call through a nil \<open>*Manager\<close> panics; \<open>host_ok\<close> below excludes it.\<close>

abbreviation nil_manager :: goerr where "nil_manager \<equiv> err ''invalid memory address or nil pointer dereference''"

section \<open>Construction\<close>

definition manager_config :: "host_config \<Rightarrow> plugin_config \<Rightarrow> config" where
  "manager_config cfg p = \<lparr>cf_RuntimeDir = pluginRuntimeDir (hc_RuntimeDir cfg) (pl_PluginID p),
     cf_PluginPath = pl_PluginPath p, cf_PluginID = pl_PluginID p, cf_DialTimeout = hc_DialTimeout cfg,
     cf_CallTimeout = hc_CallTimeout cfg, cf_HeartbeatEvery = hc_HeartbeatEvery cfg,
     cf_EventLogPath = pluginEventLogPath (hc_RuntimeDir cfg) (pl_PluginID p),
     cf_Metadata = pl_Metadata p, cf_Refresh = cloneRefresh (pl_Refresh p),
     cf_DisableRedaction = hc_DisableRedaction cfg\<rparr>"

text \<open>
  What \<open>NewHost\<close> meets: system calls, opening each event log, the part of the world each manager gets,
  and, for the managers it closes again, how stopping and closing the log go.
\<close>

record host_env =
  ne_sys :: sys_env
  ne_log :: "string \<Rightarrow> goerr option"
  ne_world :: "string \<Rightarrow> world"
  ne_stop :: "string \<Rightarrow> stop_env"
  ne_log_close :: "string \<Rightarrow> goerr option"

definition close_created :: "host_env \<Rightarrow> (string \<rightharpoonup> manager) \<Rightarrow> string \<rightharpoonup> manager" where
  "close_created env ms = (\<lambda>p. map_option (\<lambda>m. snd (Close (ne_stop env p) (ne_log_close env p) m)) (ms p))"

text \<open>
  The loop over the configured plugins. The second result is the map of managers created so far, in the
  state in which they are left when the loop returns.
\<close>

fun new_managers ::
  "host_env \<Rightarrow> host_config \<Rightarrow> plugin_config list \<Rightarrow> string set \<Rightarrow> host \<Rightarrow> fstree \<Rightarrow> goerr option \<times> host \<times> fstree" where
  "new_managers env cfg [] seen h fs = (None, h, fs)"
| "new_managers env cfg (p # ps) seen h fs =
     (case ValidatePluginID (pl_PluginID p) of
        Some e \<Rightarrow> (Some e, h, fs)
      | None \<Rightarrow>
          if pl_PluginPath p = [] then (Some (err ''plugin path is required''), h, fs)
          else if pl_PluginID p \<in> seen then
            (Some (Errorf ''duplicate plugin id: %s'' [FStr (pl_PluginID p)]), h, fs)
          else
            (case New (ne_sys env) (ne_log env (pl_PluginID p)) (manager_config cfg p)
                    (ne_world env (pl_PluginID p)) fs of
               (Inl e, fs1) \<Rightarrow>
                 (Some (Wrapf ''new manager for %s: %w'' [FStr (pl_PluginID p)] e),
                  h\<lparr>hs_managers := close_created env (hs_managers h)\<rparr>, fs1)
             | (Inr m, fs1) \<Rightarrow>
                 new_managers env cfg ps (insert (pl_PluginID p) seen)
                   (h\<lparr>hs_managers := (hs_managers h)(pl_PluginID p \<mapsto> m),
                      hs_plugins := hs_plugins h @ [pl_PluginID p]\<rparr>) fs1))"

text \<open>\<open>NewHost\<close>; the last result is every manager it has created, also when it returns an error.\<close>

definition NewHost :: "host_env \<Rightarrow> host_config \<Rightarrow> fstree \<Rightarrow> (goerr + host) \<times> fstree \<times> (string \<rightharpoonup> manager)" where
  "NewHost env cfg fs =
     (if hc_RuntimeDir cfg = [] then (Inl (err ''runtime dir is required''), fs, Map.empty)
      else if hc_Plugins cfg = [] then (Inl (err ''at least one plugin is required''), fs, Map.empty)
      else (case new_managers env cfg (hc_Plugins cfg) {} \<lparr>hs_managers = Map.empty, hs_plugins = []\<rparr> fs of
              (Some e, h, fs1) \<Rightarrow> (Inl e, fs1, hs_managers h)
            | (None, h, fs1) \<Rightarrow> (Inr (h\<lparr>hs_plugins := sort (hs_plugins h)\<rparr>), fs1, hs_managers h)))"

section \<open>Starting and closing all plugins\<close>

text \<open>Call an operation of the manager of \<open>p\<close>.\<close>

definition on_manager :: "(string \<Rightarrow> 'm \<Rightarrow> goerr option \<times> 'm) \<Rightarrow> string \<Rightarrow> 'm host_of \<Rightarrow> goerr option \<times> 'm host_of" where
  "on_manager f p h =
     (case hs_managers h p of
        None \<Rightarrow> (Some nil_manager, h)
      | Some m \<Rightarrow> (case f p m of (r, m') \<Rightarrow> (r, h\<lparr>hs_managers := (hs_managers h)(p \<mapsto> m')\<rparr>)))"

fun kill_started :: "(string \<Rightarrow> 'm \<Rightarrow> goerr option \<times> 'm) \<Rightarrow> string list \<Rightarrow> 'm host_of \<Rightarrow> 'm host_of" where
  "kill_started kill [] h = h"
| "kill_started kill (p # ps) h = kill_started kill ps (snd (on_manager kill p h))"

fun start_loop :: "(string \<Rightarrow> 'm \<Rightarrow> goerr option \<times> 'm) \<Rightarrow> (string \<Rightarrow> 'm \<Rightarrow> goerr option \<times> 'm)
   \<Rightarrow> string list \<Rightarrow> string list \<Rightarrow> 'm host_of \<Rightarrow> goerr option \<times> 'm host_of" where
  "start_loop start kill [] started_ids h = (None, h)"
| "start_loop start kill (p # ps) started_ids h =
     (case on_manager start p h of
        (Some e, h1) \<Rightarrow> (Some (Wrapf ''start plugin %s: %w'' [FStr p] e), kill_started kill started_ids h1)
      | (None, h1) \<Rightarrow> start_loop start kill ps (started_ids @ [p]) h1)"

definition StartAll :: "(string \<Rightarrow> start_env) \<Rightarrow> (string \<Rightarrow> stop_env) \<Rightarrow> host \<Rightarrow> goerr option \<times> host" where
  "StartAll senv kenv h = start_loop (\<lambda>p. Start (senv p)) (\<lambda>p. Kill (kenv p)) (hs_plugins h) [] h"

fun close_loop :: "(string \<Rightarrow> 'm \<Rightarrow> goerr option \<times> 'm) \<Rightarrow> string list \<Rightarrow> goerr option \<Rightarrow> 'm host_of
   \<Rightarrow> goerr option \<times> 'm host_of" where
  "close_loop close [] firstErr h = (firstErr, h)"
| "close_loop close (p # ps) firstErr h =
     (case on_manager close p h of
        (e, h1) \<Rightarrow> close_loop close ps (if e \<noteq> None \<and> firstErr = None then e else firstErr) h1)"

definition CloseHost :: "(string \<Rightarrow> stop_env) \<Rightarrow> (string \<Rightarrow> goerr option) \<Rightarrow> host \<Rightarrow> goerr option \<times> host" where
  "CloseHost kenv lc h = close_loop (\<lambda>p. Close (kenv p) (lc p)) (hs_plugins h) None h"

section \<open>Views\<close>

definition ManagerOf :: "'m host_of \<Rightarrow> string \<Rightarrow> goerr + 'm" where
  "ManagerOf h p = (case hs_managers h p of None \<Rightarrow> Inl (Errorf ''unknown plugin id: %s'' [FStr p]) | Some m \<Rightarrow> Inr m)"

definition route_of :: "plugin_state \<Rightarrow> route" where
  "route_of state = \<lparr>rt_PluginID = st_PluginID state, rt_Capabilities = st_Capabilities state,
     rt_Healthy = st_Healthy state, rt_GenerationID = st_GenerationID state, rt_Mode = ''direct-plugin-id''\<rparr>"

definition add_capability :: "string \<Rightarrow> string \<Rightarrow> (string \<rightharpoonup> string list) \<Rightarrow> string \<rightharpoonup> string list" where
  "add_capability p cap cm = cm(cap \<mapsto> (case cm cap of None \<Rightarrow> [] | Some ps \<Rightarrow> ps) @ [p])"

definition add_plugin :: "string \<Rightarrow> manager \<Rightarrow> host_state \<Rightarrow> host_state" where
  "add_plugin p m out =
     (let state = StateOf m
      in out\<lparr>ho_Plugins := ho_Plugins out @ [state], ho_Routes := ho_Routes out @ [route_of state],
             ho_CapabilityMap := fold (add_capability p) (st_Capabilities state) (ho_CapabilityMap out)\<rparr>)"

text \<open>\<open>State\<close>; a plugin id without manager would panic and is skipped here.\<close>

definition HostStateOf :: "host \<Rightarrow> host_state" where
  "HostStateOf h =
     (let out = fold (\<lambda>p out. case hs_managers h p of None \<Rightarrow> out | Some m \<Rightarrow> add_plugin p m out) (hs_plugins h)
                  \<lparr>ho_Plugins = [], ho_CapabilityMap = Map.empty, ho_Routes = []\<rparr>
      in out\<lparr>ho_CapabilityMap := map_option sort \<circ> ho_CapabilityMap out\<rparr>)"

definition CapabilityMap :: "host \<Rightarrow> string \<rightharpoonup> string list" where
  "CapabilityMap h = ho_CapabilityMap (HostStateOf h)"

definition Routes :: "host \<Rightarrow> route list" where
  "Routes h = ho_Routes (HostStateOf h)"

definition States :: "host \<Rightarrow> plugin_state list" where
  "States h = ho_Plugins (HostStateOf h)"

definition Plugin :: "host \<Rightarrow> string \<Rightarrow> goerr + plugin_state" where
  "Plugin h p = (case ManagerOf h p of Inl e \<Rightarrow> Inl e | Inr m \<Rightarrow> Inr (StateOf m))"

definition CoreSnapshot :: "host \<Rightarrow> core_state list" where
  "CoreSnapshot h = map (\<lambda>p. CoreStateOf (the (hs_managers h p))) (hs_plugins h)"

section \<open>Routing\<close>

definition RouteTarget :: "host \<Rightarrow> string \<Rightarrow> goerr + route \<times> manager" where
  "RouteTarget h p = (case ManagerOf h p of Inl e \<Rightarrow> Inl e | Inr m \<Rightarrow> Inr (route_of (StateOf m), m))"

abbreviation "RoutedCallHeartbeat \<equiv> ''heartbeat''"
abbreviation "RoutedCallEcho \<equiv> ''echo''"
abbreviation "RoutedCallRestart \<equiv> ''restart''"

datatype body = HeartbeatBody heartbeat_response | EchoBody string | StateBody plugin_state

record routed_request =
  rq_PluginID :: string
  rq_Call :: string
  rq_Arg :: any

record routed_response =
  rr_Route :: route
  rr_Call :: string
  rr_Body :: body

text \<open>What the target manager meets while it serves the request.\<close>

record call_env =
  rc_heartbeat :: heartbeat_env
  rc_intf :: "manager \<Rightarrow> manager"
  rc_echo :: "string \<Rightarrow> string rpc_outcome"
  rc_stop :: stop_env
  rc_start :: start_env

definition set_manager :: "string \<Rightarrow> manager \<Rightarrow> host \<Rightarrow> host" where
  "set_manager p m h = h\<lparr>hs_managers := (hs_managers h)(p \<mapsto> m)\<rparr>"

definition CallRequest :: "call_env \<Rightarrow> routed_request \<Rightarrow> host \<Rightarrow> (goerr + routed_response) \<times> host" where
  "CallRequest env req h =
     (case RouteTarget h (rq_PluginID req) of
        Inl e \<Rightarrow> (Inl e, h)
      | Inr (route, m) \<Rightarrow>
          (let respond = (\<lambda>b. Inr \<lparr>rr_Route = route, rr_Call = rq_Call req, rr_Body = b\<rparr>);
               upd = (\<lambda>m'. set_manager (rq_PluginID req) m' h)
           in if rq_Call req = RoutedCallHeartbeat then
                (case Heartbeat (rc_heartbeat env) m of
                   ((out, Some e), m') \<Rightarrow> (Inl e, upd m')
                 | ((out, None), m') \<Rightarrow> (respond (HeartbeatBody out), upd m'))
              else if rq_Call req = RoutedCallEcho then
                (let message = (case rq_Arg req of VString s \<Rightarrow> s | _ \<Rightarrow> [])
                 in case Echo (rc_intf env) (rc_echo env) message m of
                      (Inl e, m') \<Rightarrow> (Inl e, upd m')
                    | (Inr out, m') \<Rightarrow> (respond (EchoBody out), upd m'))
              else if rq_Call req = RoutedCallRestart then
                (case Restart (rc_stop env) (rc_start env) m of
                   (Some e, m') \<Rightarrow> (Inl e, upd m')
                 | (None, m') \<Rightarrow> (respond (StateBody (StateOf m')), upd m'))
              else (Inl (Errorf ''unsupported routed call: %s'' [FStr (rq_Call req)]), h)))"

definition CallHost :: "call_env \<Rightarrow> string \<Rightarrow> string \<Rightarrow> any \<Rightarrow> host \<Rightarrow> (goerr + routed_response) \<times> host" where
  "CallHost env p c arg h = CallRequest env \<lparr>rq_PluginID = p, rq_Call = c, rq_Arg = arg\<rparr> h"

definition RestartPlugin :: "call_env \<Rightarrow> string \<Rightarrow> host \<Rightarrow> (goerr + plugin_state) \<times> host" where
  "RestartPlugin env p h =
     (case CallHost env p RoutedCallRestart VNil h of
        (Inl e, h') \<Rightarrow> (Inl e, h')
      | (Inr out, h') \<Rightarrow>
          (case rr_Body out of
             StateBody state \<Rightarrow> (Inr state, h')
           | _ \<Rightarrow> (Inl (err ''restart routed response type mismatch''), h')))"

definition EchoHost :: "call_env \<Rightarrow> string \<Rightarrow> string \<Rightarrow> host \<Rightarrow> (goerr + string) \<times> host" where
  "EchoHost env p message h =
     (case RouteTarget h p of
        Inl e \<Rightarrow> (Inl e, h)
      | Inr (_, m) \<Rightarrow>
          (case Echo (rc_intf env) (rc_echo env) message m of (r, m') \<Rightarrow> (r, set_manager p m' h)))"

definition HeartbeatHost :: "call_env \<Rightarrow> string \<Rightarrow> host \<Rightarrow> (heartbeat_response \<times> goerr option) \<times> host" where
  "HeartbeatHost env p h =
     (case RouteTarget h p of
        Inl e \<Rightarrow> ((zero_heartbeat, Some e), h)
      | Inr (_, m) \<Rightarrow> (case Heartbeat (rc_heartbeat env) m of (r, m') \<Rightarrow> (r, set_manager p m' h)))"

text \<open>
  \<open>MonitorLoop\<close>: one goroutine per manager; each acts on its own manager only. A panic in one of them ends the process
  (\<open>None\<close>).
\<close>

definition monitor_panics :: "host \<Rightarrow> bool" where
  "monitor_panics h \<longleftrightarrow> list_ex (\<lambda>p. case hs_managers h p of None \<Rightarrow> False | Some m \<Rightarrow> MonitorLoop [] m = None) (hs_plugins h)"

definition MonitorLoopHost :: "(string \<Rightarrow> tick_env list) \<Rightarrow> host \<Rightarrow> host option" where
  "MonitorLoopHost ticks h =
     (if monitor_panics h then None
      else Some (h\<lparr>hs_managers := (\<lambda>p. if p \<in> set (hs_plugins h) then Option.bind (hs_managers h p) (MonitorLoop (ticks p))
                                    else hs_managers h p)\<rparr>))"

section \<open>The supervision contract\<close>

text \<open>
  \<open>inv\<close> is the invariant, \<open>attached\<close> says that a plugin is attached, \<open>clean\<close> that nothing is attached and
  no process is left, \<open>closed\<close> that the manager is closed. A stop may fail, but it always detaches. A failed start
  gets rid of its process where \<open>reaps\<close> holds of the plugin.
\<close>

locale supervised =
  fixes start kill close :: "string \<Rightarrow> 'm \<Rightarrow> goerr option \<times> 'm"
    and inv :: "string \<Rightarrow> 'm \<Rightarrow> bool"
    and reaps :: "string \<Rightarrow> bool"
    and attached clean closed :: "'m \<Rightarrow> bool"
  assumes start_inv: "inv p m \<Longrightarrow> start p m = (r, m') \<Longrightarrow> inv p m'"
    and kill_inv: "inv p m \<Longrightarrow> kill p m = (r, m') \<Longrightarrow> inv p m'"
    and close_inv: "inv p m \<Longrightarrow> close p m = (r, m') \<Longrightarrow> inv p m'"
    and start_attaches: "inv p m \<Longrightarrow> start p m = (None, m') \<Longrightarrow> attached m'"
    and start_refused: "inv p m \<Longrightarrow> start p m = (Some e, m') \<Longrightarrow> attached m' = attached m"
    and start_clean: "inv p m \<Longrightarrow> clean m \<Longrightarrow> reaps p \<Longrightarrow> start p m = (Some e, m') \<Longrightarrow> clean m'"
    and kill_detaches: "inv p m \<Longrightarrow> kill p m = (r, m') \<Longrightarrow> \<not> attached m'"
    and kill_cleans: "inv p m \<Longrightarrow> clean m \<Longrightarrow> start p m = (None, m1) \<Longrightarrow> kill p m1 = (None, m2) \<Longrightarrow> clean m2"
    and close_closes: "inv p m \<Longrightarrow> close p m = (r, m') \<Longrightarrow> closed m' \<and> \<not> attached m'"
    and clean_detached: "clean m \<Longrightarrow> \<not> attached m"

section \<open>The loops, manager by manager\<close>

text \<open>Apply \<open>f\<close> to the managers of the ids in \<open>S\<close>.\<close>

definition on_all :: "(string \<Rightarrow> 'm \<Rightarrow> goerr option \<times> 'm) \<Rightarrow> string set \<Rightarrow> (string \<rightharpoonup> 'm) \<Rightarrow> string \<rightharpoonup> 'm" where
  "on_all f S ms = (\<lambda>p. if p \<in> S then map_option (\<lambda>m. snd (f p m)) (ms p) else ms p)"

definition all_managers :: "(string \<Rightarrow> 'm \<Rightarrow> bool) \<Rightarrow> (string \<rightharpoonup> 'm) \<Rightarrow> bool" where
  "all_managers P ms \<longleftrightarrow> (\<forall>p m. ms p = Some m \<longrightarrow> P p m)"

definition outcome_at :: "(string \<Rightarrow> 'm \<Rightarrow> goerr option \<times> 'm) \<Rightarrow> (string \<rightharpoonup> 'm) \<Rightarrow> string \<Rightarrow> goerr option" where
  "outcome_at f ms p = (case ms p of None \<Rightarrow> Some nil_manager | Some m \<Rightarrow> fst (f p m))"

lemma on_manager_eq:
  "on_manager f p h = (outcome_at f (hs_managers h) p, h\<lparr>hs_managers := on_all f {p} (hs_managers h)\<rparr>)"
  by (cases h) (auto simp: on_manager_def outcome_at_def on_all_def fun_eq_iff split: option.splits prod.splits)

lemma on_all_empty [simp]: "on_all f {} ms = ms"
  by (simp add: on_all_def)

lemma on_all_twice: "p \<notin> S \<Longrightarrow> on_all f S (on_all f {p} ms) = on_all f (insert p S) ms"
  by (auto simp: on_all_def fun_eq_iff)

lemma all_managers_on_all:
  assumes "\<And>p m r m'. P p m \<Longrightarrow> f p m = (r, m') \<Longrightarrow> P p m'" and "all_managers P ms"
  shows "all_managers P (on_all f S ms)"
  unfolding all_managers_def
proof (intro allI impI)
  fix p m'
  assume e: "on_all f S ms p = Some m'"
  show "P p m'"
  proof (cases "p \<in> S")
    case True
    then obtain m where "ms p = Some m" "m' = snd (f p m)" using e by (auto simp: on_all_def)
    then show ?thesis using assms(1) [of p m "fst (f p m)" m'] assms(2) by (simp add: all_managers_def)
  next
    case False
    then show ?thesis using e assms(2) by (simp add: on_all_def all_managers_def)
  qed
qed

lemma outcome_other: "q \<noteq> p \<Longrightarrow> outcome_at f (on_all g {p} ms) q = outcome_at f ms q"
  by (simp add: outcome_at_def on_all_def)

lemma kill_started_eq:
  "distinct ps \<Longrightarrow> kill_started kill ps h = h\<lparr>hs_managers := on_all kill (set ps) (hs_managers h)\<rparr>"
  by (induction ps arbitrary: h) (simp_all add: on_manager_eq on_all_twice)

lemma close_loop_eq:
  "distinct ps \<Longrightarrow> close_loop close ps fe h =
     (if fe = None then first_err (map (outcome_at close (hs_managers h)) ps) else fe,
      h\<lparr>hs_managers := on_all close (set ps) (hs_managers h)\<rparr>)"
proof (induction ps arbitrary: h fe)
  case (Cons p ps)
  have "first_err (map (outcome_at close (on_all close {p} (hs_managers h))) ps) = first_err (map (outcome_at close (hs_managers h)) ps)"
    using Cons.prems by (intro arg_cong [of _ _ first_err]) (auto intro!: outcome_other)
  then show ?case using Cons by (auto simp: on_manager_eq on_all_twice split: option.splits)
qed simp

lemma start_loop_eq:
  assumes "distinct ps"
  shows "case start_loop start kill ps started_ids h of
     (None, h') \<Rightarrow> (\<forall>p \<in> set ps. outcome_at start (hs_managers h) p = None)
        \<and> h' = h\<lparr>hs_managers := on_all start (set ps) (hs_managers h)\<rparr>
   | (Some e, h') \<Rightarrow> \<exists>pre p post x. ps = pre @ p # post \<and> (\<forall>q \<in> set pre. outcome_at start (hs_managers h) q = None)
        \<and> outcome_at start (hs_managers h) p = Some x \<and> e = Wrapf ''start plugin %s: %w'' [FStr p] x
        \<and> h' = kill_started kill (started_ids @ pre) (h\<lparr>hs_managers := on_all start (insert p (set pre)) (hs_managers h)\<rparr>)"
  using assms
proof (induction ps arbitrary: started_ids h)
  case (Cons p ps)
  let ?h1 = "h\<lparr>hs_managers := on_all start {p} (hs_managers h)\<rparr>"
  have p: "p \<notin> set ps" "distinct ps" using Cons.prems by simp_all
  show ?case
  proof (cases "outcome_at start (hs_managers h) p")
    case (Some e)
    have "start_loop start kill (p # ps) started_ids h = (Some (Wrapf ''start plugin %s: %w'' [FStr p] e), kill_started kill started_ids ?h1)"
      using Some by (simp add: on_manager_eq)
    moreover have "p # ps = [] @ p # ps" by simp
    ultimately show ?thesis using Some by fastforce
  next
    case None
    have step: "start_loop start kill (p # ps) started_ids h = start_loop start kill ps (started_ids @ [p]) ?h1"
      using None by (simp add: on_manager_eq)
    have same: "outcome_at start (hs_managers ?h1) q = outcome_at start (hs_managers h) q" if "q \<in> set ps" for q
      using that p(1) by (auto intro: outcome_other)
    have join: "p \<notin> S \<Longrightarrow> ?h1\<lparr>hs_managers := on_all start S (hs_managers ?h1)\<rparr>
        = h\<lparr>hs_managers := on_all start (insert p S) (hs_managers h)\<rparr>" for S
      by (simp add: on_all_twice)
    obtain r h' where l: "start_loop start kill ps (started_ids @ [p]) ?h1 = (r, h')"
      by (cases "start_loop start kill ps (started_ids @ [p]) ?h1")
    show ?thesis
    proof (cases r)
      case None: None
      then show ?thesis
        using Cons.IH [OF p(2), of ?h1 "started_ids @ [p]"] l same join [OF p(1)] \<open>outcome_at start (hs_managers h) p = None\<close>
        unfolding step by simp
    next
      case (Some e)
      then obtain pre q post x where d: "ps = pre @ q # post" "\<forall>u \<in> set pre. outcome_at start (hs_managers ?h1) u = None"
        "outcome_at start (hs_managers ?h1) q = Some x" "e = Wrapf ''start plugin %s: %w'' [FStr q] x"
        "h' = kill_started kill ((started_ids @ [p]) @ pre) (?h1\<lparr>hs_managers := on_all start (insert q (set pre)) (hs_managers ?h1)\<rparr>)"
        using Cons.IH [OF p(2), of ?h1 "started_ids @ [p]"] l by auto
      have "p \<notin> insert q (set pre)" using p(1) d(1) by auto
      then have "h' = kill_started kill (started_ids @ p # pre) (h\<lparr>hs_managers := on_all start (insert q (set (p # pre))) (hs_managers h)\<rparr>)"
        using d(5) join [of "insert q (set pre)"] by (simp add: insert_commute)
      then have "p # ps = (p # pre) @ q # post \<and> (\<forall>u \<in> set (p # pre). outcome_at start (hs_managers h) u = None)
          \<and> outcome_at start (hs_managers h) q = Some x \<and> e = Wrapf ''start plugin %s: %w'' [FStr q] x
          \<and> h' = kill_started kill (started_ids @ p # pre) (h\<lparr>hs_managers := on_all start (insert q (set (p # pre))) (hs_managers h)\<rparr>)"
        using d(1-4) same None by simp
      then show ?thesis unfolding step l Some prod.case option.case by blast
    qed
  qed
qed simp

lemma start_loop_None:
  assumes "distinct ps" and "start_loop start kill ps started_ids h = (None, h')"
  shows "(\<forall>p \<in> set ps. outcome_at start (hs_managers h) p = None) \<and> hs_plugins h' = hs_plugins h
    \<and> hs_managers h' = on_all start (set ps) (hs_managers h)"
  using start_loop_eq [OF assms(1), where start = start and kill = kill and h = h and started_ids = started_ids] assms(2)
  by simp

lemma start_loop_Some:
  assumes "distinct ps" and "start_loop start kill ps [] h = (Some e, h')"
  shows "\<exists>pre p post x. ps = pre @ p # post \<and> (\<forall>q \<in> set pre. outcome_at start (hs_managers h) q = None)
    \<and> outcome_at start (hs_managers h) p = Some x \<and> e = Wrapf ''start plugin %s: %w'' [FStr p] x
    \<and> hs_plugins h' = hs_plugins h
    \<and> hs_managers h' = on_all kill (set pre) (on_all start (insert p (set pre)) (hs_managers h))"
proof -
  obtain pre p post x where d: "ps = pre @ p # post" "\<forall>q \<in> set pre. outcome_at start (hs_managers h) q = None"
    "outcome_at start (hs_managers h) p = Some x" "e = Wrapf ''start plugin %s: %w'' [FStr p] x"
    "h' = kill_started kill pre (h\<lparr>hs_managers := on_all start (insert p (set pre)) (hs_managers h)\<rparr>)"
    using start_loop_eq [OF assms(1), where start = start and kill = kill and h = h and started_ids = "[]"] assms(2)
    by simp blast
  have "distinct pre" using assms(1) d(1) by simp
  then show ?thesis using d kill_started_eq [of pre kill] by (intro exI [of _ pre] exI [of _ p] exI [of _ post] exI [of _ x]) simp
qed

section \<open>What the contract gives the host\<close>

context supervised
begin

lemma start_all_ok:
  assumes "distinct ps" and "all_managers inv (hs_managers h)" and "start_loop start kill ps [] h = (None, h')"
    and "p \<in> set ps"
  shows "\<exists>m m'. hs_managers h p = Some m \<and> hs_managers h' p = Some m' \<and> start p m = (None, m') \<and> attached m'"
proof -
  have o: "outcome_at start (hs_managers h) p = None" and h': "hs_managers h' = on_all start (set ps) (hs_managers h)"
    using start_loop_None [OF assms(1,3)] assms(4) by auto
  obtain m where m: "hs_managers h p = Some m" "fst (start p m) = None"
    using o by (auto simp: outcome_at_def split: option.splits)
  then have s: "start p m = (None, snd (start p m))" by (metis prod.collapse)
  have "inv p m" using assms(2) m(1) by (simp add: all_managers_def)
  then show ?thesis using s start_attaches [OF _ s] m(1) h' assms(4) by (auto simp: on_all_def)
qed

lemma start_all_fails:
  assumes "distinct ps" and "all_managers inv (hs_managers h)" and "\<forall>m \<in> ran (hs_managers h). clean m"
    and "start_loop start kill ps [] h = (Some e, h')" and "hs_managers h' q = Some m'"
  shows "\<not> attached m' \<and> ((\<forall>m. inv q m \<longrightarrow> attached m \<longrightarrow> fst (kill q m) = None) \<and> reaps q \<longrightarrow> clean m')"
proof -
  obtain pre p post where d: "ps = pre @ p # post" "\<forall>u \<in> set pre. outcome_at start (hs_managers h) u = None"
    "outcome_at start (hs_managers h) p \<noteq> None"
    and h': "hs_managers h' = on_all kill (set pre) (on_all start (insert p (set pre)) (hs_managers h))"
    using start_loop_Some [OF assms(1,4)] by blast
  have dist: "p \<notin> set pre" using assms(1) d(1) by auto
  obtain m where m: "hs_managers h q = Some m" using assms(5) h' by (auto simp: on_all_def split: if_splits)
  have i: "inv q m" "clean m" using assms(2,3) m by (auto simp: ran_def all_managers_def)
  consider "q \<in> set pre" | "q = p" | "q \<notin> set pre" "q \<noteq> p" by blast
  then show ?thesis
  proof cases
    case 1
    then have "fst (start q m) = None" using d(2) m by (auto simp: outcome_at_def)
    then have s: "start q m = (None, snd (start q m))" by (metis prod.collapse)
    have m': "m' = snd (kill q (snd (start q m)))" using assms(5) h' m 1 dist by (auto simp: on_all_def)
    then obtain r where k: "kill q (snd (start q m)) = (r, m')" by (cases "kill q (snd (start q m))") auto
    have a: "attached (snd (start q m))" using start_attaches [OF i(1) s] .
    have "r = None" if "\<forall>m. inv q m \<longrightarrow> attached m \<longrightarrow> fst (kill q m) = None"
      using that k a start_inv [OF i(1) s] by (metis fst_conv)
    then show ?thesis using kill_detaches [OF start_inv [OF i(1) s] k] kill_cleans [OF i s] k by blast
  next
    case 2
    obtain x where s: "start q m = (Some x, snd (start q m))"
      using d(3) m 2 by (cases "start q m") (auto simp: outcome_at_def)
    have "m' = snd (start q m)" using assms(5) h' m 2 dist by (auto simp: on_all_def)
    then show ?thesis using start_clean [OF i _ s] start_refused [OF i(1) s] clean_detached [OF i(2)] by simp
  next
    case 3
    then show ?thesis using assms(5) h' m i clean_detached by (auto simp: on_all_def)
  qed
qed

lemma close_all:
  assumes "distinct ps" and "all_managers inv (hs_managers h)" and "close_loop close ps None h = (r, h')"
    and "p \<in> set ps" and "hs_managers h' p = Some m'"
  shows "closed m' \<and> \<not> attached m'"
proof -
  have "hs_managers h' = on_all close (set ps) (hs_managers h)" using close_loop_eq [OF assms(1), where close = close and fe = None and h = h] assms(3) by auto
  then obtain m where m: "hs_managers h p = Some m" "m' = snd (close p m)" using assms(4,5) by (auto simp: on_all_def)
  then have "inv p m" "close p m = (fst (close p m), m')" using assms(2) by (simp_all add: all_managers_def)
  then show ?thesis using close_closes by blast
qed

lemma inv_on_all:
  assumes "all_managers inv ms"
  shows "all_managers inv (on_all start S ms)" and "all_managers inv (on_all kill S ms)"
    and "all_managers inv (on_all close S ms)"
  by (rule all_managers_on_all; use assms start_inv kill_inv close_inv in blast)+

lemma start_all_inv:
  assumes "distinct ps" and "all_managers inv (hs_managers h)" and "start_loop start kill ps [] h = (r, h')"
  shows "all_managers inv (hs_managers h')"
proof (cases r)
  case None
  then have "hs_managers h' = on_all start (set ps) (hs_managers h)" using start_loop_None [OF assms(1)] assms(3) by blast
  then show ?thesis using inv_on_all(1) [OF assms(2)] by simp
next
  case (Some e)
  obtain pre p where h': "hs_managers h' = on_all kill (set pre) (on_all start (insert p (set pre)) (hs_managers h))"
    using start_loop_Some [OF assms(1) assms(3) [unfolded Some]] by blast
  show ?thesis unfolding h' by (rule inv_on_all(2) [OF inv_on_all(1) [OF assms(2)]])
qed

lemma close_all_inv:
  assumes "distinct ps" and "all_managers inv (hs_managers h)" and "close_loop close ps None h = (r, h')"
  shows "all_managers inv (hs_managers h')"
  using inv_on_all(3) [OF assms(2)] assms(3) close_loop_eq [OF assms(1), where close = close and fe = None and h = h]
  by auto

end

section \<open>The manager fulfils the contract\<close>

definition attached :: "manager \<Rightarrow> bool" where
  "attached m \<longleftrightarrow> mg_cmd m \<noteq> None \<or> mg_client m \<noteq> None"

definition clean :: "manager \<Rightarrow> bool" where
  "clean m \<longleftrightarrow> \<not> attached m \<and> w_procs m = {}"

lemma attached_core [simp]: "attached (core m) = attached m"
  by (simp add: attached_def)

lemma clean_core [simp]: "clean (core m) = clean m"
  by (simp add: clean_def)

lemma Start_fail_cases:
  assumes "mgr_ok m" and "Start env m = (Some e, m')"
  shows "attached m' = attached m \<and> (clean m \<longrightarrow> \<not> real_failure (se_wait env) \<longrightarrow> clean m')"
proof -
  have "unreaped (se_wait env) pid (insert pid (w_procs m)) \<subseteq> w_procs m" if "\<not> real_failure (se_wait env)" for pid
    using that by (auto simp: unreaped_def)
  then have "m' = m \<or> (idle m \<and> (\<exists>n ps. (\<not> real_failure (se_wait env) \<longrightarrow> ps \<subseteq> w_procs m) \<and> core m' = abandoned ps n m))"
    using startLocked_fail [of env m e m'] assms(2) mgr_ok_fresh_conns [OF assms(1)] unfolding Start_def by blast
  then show ?thesis
  proof
    assume "idle m \<and> (\<exists>n ps. (\<not> real_failure (se_wait env) \<longrightarrow> ps \<subseteq> w_procs m) \<and> core m' = abandoned ps n m)"
    then obtain n ps where a: "idle m" "\<not> real_failure (se_wait env) \<longrightarrow> ps \<subseteq> w_procs m" "core m' = abandoned ps n m" by blast
    then show ?thesis using core_selD [OF a(3)] by (auto simp: attached_def clean_def idle_def abandoned_def)
  qed simp
qed

lemma Kill_fields:
  assumes "mgr_ok m" and "Kill env m = (r, m')"
  shows "\<not> attached m'"
    and "\<not> mg_closed m \<Longrightarrow> r = None \<Longrightarrow> w_procs m' = w_procs m - cmd_Pid ` set_option (mg_cmd m)"
proof -
  have "\<not> attached m' \<and> (\<not> mg_closed m \<longrightarrow> r = None \<longrightarrow> w_procs m' = w_procs m - cmd_Pid ` set_option (mg_cmd m))"
  proof (cases "mg_closed m")
    case True
    then have "m' = m" using assms(2) stopCurrent_closed [of m env False] by (simp add: Kill_def)
    then show ?thesis using mgr_ok_closed [OF assms(1) True] True by (simp add: attached_def)
  next
    case False
    note S = stopCurrent_core [OF False assms(2) [unfolded Kill_def]]
    show ?thesis using core_selD [OF conjunct2 [OF S]] S by (auto simp: attached_def detached_def)
  qed
  then show "\<not> attached m'"
    and "\<not> mg_closed m \<Longrightarrow> r = None \<Longrightarrow> w_procs m' = w_procs m - cmd_Pid ` set_option (mg_cmd m)" by blast+
qed

lemma Close_fields:
  assumes "mgr_ok m" and "Close env le m = (r, m')"
  shows "mg_closed m' \<and> \<not> attached m'"
proof (cases "mg_closed m")
  case True
  then have "m' = m" using assms by (simp add: Close_def mgr_ok_def)
  then show ?thesis using mgr_ok_closed [OF assms(1) True] True by (simp add: attached_def)
next
  case False
  then have "\<not> mg_closeDone m" using assms(1) by (simp add: mgr_ok_def)
  from core_selD [OF conjunct1 [OF Close_core [OF False this assms(2)]]]
  show ?thesis by (simp add: attached_def detached_def)
qed

lemma Start_then_Kill:
  assumes "mgr_ok m" and "clean m" and "Start env m = (None, m1)" and "Kill kenv m1 = (None, m2)"
  shows "clean m2"
proof -
  have ok: "mgr_ok m1" using mgr_ok_startLocked [OF assms(1) assms(3) [unfolded Start_def]] .
  have op: "\<not> mg_closed m1" using startLocked_open [OF assms(3) [unfolded Start_def]] by simp
  have "w_procs m1 = cmd_Pid ` set_option (mg_cmd m1)" using Start_fields [OF assms(3)] assms(2) by (auto simp: clean_def)
  then show ?thesis using Kill_fields [OF ok assms(4)] op by (simp add: clean_def)
qed

lemma plugin_call_cfg: "plugin_call id meth out m = (r, m') \<Longrightarrow> mg_cfg m' = mg_cfg m"
  using plugin_call_refused [of m id meth out] core_selD(1) [OF plugin_call_core [of m _ meth out]]
  by (cases "mg_client m"; cases "mg_closed m") (auto simp: poisoned_def poison_detach_def split: if_splits)

lemma exec_cfg:
  assumes "mgr_ok m" and "exec x m = (s, m')"
  shows "mg_cfg m' = mg_cfg m"
proof -
  have start: "mg_cfg m2 = mg_cfg m1" if "mgr_ok m1" "startLocked env m1 = (r, m2)" for env m1 r m2
  proof (cases r)
    case None
    then show ?thesis using Start_fields [of env m1 m2] that(2) by (auto simp: Start_def)
  next
    case (Some e)
    then show ?thesis
      using startLocked_fail [of env m1 e m2] that(2) mgr_ok_fresh_conns [OF that(1)] core_selD(1) [of m2]
      by (fastforce simp: abandoned_def)
  qed
  have stop: "mg_cfg m2 = mg_cfg m1" if "stopCurrent env b why m1 = (r, m2)" for env b why m1 r m2
    using that stopCurrent_closed [of m1 env b why] core_selD(1) [OF conjunct2 [OF stopCurrent_core [OF _ that]]]
    by (cases "mg_closed m1") (auto simp: detached_def)
  show ?thesis
  proof (cases x)
    case (OpStart env)
    then show ?thesis using assms start [OF assms(1)] by (auto simp: Start_def split: prod.splits)
  next
    case (OpKill env)
    then show ?thesis using assms stop by (auto simp: Kill_def split: prod.splits)
  next
    case (OpClose env le)
    then show ?thesis using assms stop by (auto simp: Close_def Let_def split: prod.splits if_splits)
  next
    case (OpRestart kenv env)
    then obtain r where r: "Restart kenv env m = (r, m')" using assms(2) by (auto split: prod.splits)
    let ?m1 = "logEvent (kev m LevelWarn ComponentKernel EventRestartRequested (mg_gen m) (mg_pid m)
      (st_SocketPath (mg_state m)) ''restart requested'') m"
    obtain r2 m2 where st: "stopCurrent kenv False ''restart requested'' ?m1 = (r2, m2)"
      by (cases "stopCurrent kenv False ''restart requested'' ?m1")
    have m2: "mg_cfg m2 = mg_cfg m" using stop [OF st] by simp
    have ok: "mgr_ok m2" using mgr_ok_stopCurrent [OF _ st] mgr_ok_cong [OF logEvent_core] assms(1) by simp
    obtain r3 m3 where sl: "startLocked env m2 = (r3, m3)" by (cases "startLocked env m2")
    show ?thesis using r st sl m2 start [OF ok sl] by (auto simp: Restart_def Let_def split: if_splits option.splits)
  next
    case (OpHeartbeat out)
    then obtain r where r: "Heartbeat (quiet_heartbeat out) m = (r, m')" using assms(2) by (auto split: prod.splits)
    show ?thesis
      using Heartbeat_keeps [OF assms(1) _ r] Heartbeat_refused [of m "quiet_heartbeat out"] r by (cases "mg_closed m") auto
  next
    case (OpEcho plug msg)
    then show ?thesis using assms(2) by (auto simp: Echo_def split: prod.splits intro: plugin_call_cfg)
  next
    case (OpSleep plug d)
    then show ?thesis using assms(2) by (auto simp: Sleep_def split: prod.splits intro: plugin_call_cfg)
  next
    case (OpCrash plug code)
    then show ?thesis using assms(2) by (auto simp: Crash_def split: prod.splits intro: plugin_call_cfg)
  qed
qed

text \<open>The manager of plugin \<open>p\<close> in a host below \<open>root\<close>.\<close>

definition mgr_at :: "path \<Rightarrow> string \<Rightarrow> manager \<Rightarrow> bool" where
  "mgr_at root p m \<longleftrightarrow> mgr_ok m \<and> pluginIDPattern p \<and> mg_id m = p \<and> cf_RuntimeDir (mg_cfg m) = pluginRuntimeDir root p"

lemma mgr_at_exec: "mgr_at root p m \<Longrightarrow> exec x m = (s, m') \<Longrightarrow> mgr_at root p m'"
  using exec_cfg [of m x s m'] mgr_ok_exec [of m x s m'] by (simp add: mgr_at_def)

interpretation sm: supervised "\<lambda>p. Start (senv p)" "\<lambda>p. Kill (kenv p)" "\<lambda>p. Close (kenv p) (lc p)" "mgr_at root"
  "\<lambda>p. \<not> real_failure (se_wait (senv p))" attached clean mg_closed
  for senv kenv lc root
proof
  fix m p r m'
  assume at: "mgr_at root p m"
  then have ok: "mgr_ok m" by (simp add: mgr_at_def)
  show "mgr_at root p m'" if "Start (senv p) m = (r, m')" using that mgr_at_exec [OF at, of "OpStart (senv p)" "r = None"] by simp
  show "mgr_at root p m'" if "Kill (kenv p) m = (r, m')" using that mgr_at_exec [OF at, of "OpKill (kenv p)" False] by simp
  show "mgr_at root p m'" if "Close (kenv p) (lc p) m = (r, m')" using that mgr_at_exec [OF at, of "OpClose (kenv p) (lc p)" False] by simp
  show "attached m'" if "Start (senv p) m = (None, m')" using Start_fields [OF that] by (auto simp: attached_def)
  show "\<not> attached m'" if "Kill (kenv p) m = (r, m')" by (rule Kill_fields(1) [OF ok that])
  show "mg_closed m' \<and> \<not> attached m'" if "Close (kenv p) (lc p) m = (r, m')" by (rule Close_fields [OF ok that])
  fix e
  show "attached m' = attached m" if "Start (senv p) m = (Some e, m')" using Start_fail_cases [OF ok that] by blast
  show "clean m'" if "clean m" "\<not> real_failure (se_wait (senv p))" "Start (senv p) m = (Some e, m')"
    using Start_fail_cases [OF ok that(3)] that(1,2) by blast
  fix m1 m2
  show "clean m2" if "clean m" "Start (senv p) m = (None, m1)" "Kill (kenv p) m1 = (None, m2)"
    by (rule Start_then_Kill [OF ok that])
qed (simp add: clean_def)

end
