(* ===== verification/Kernel_Host_Props.thy ===== *)
theory Kernel_Host_Props
  imports Kernel_Host
begin

text \<open>
  Properties of the kernel host: the invariant of every host any sequence of operations produces,
  all-or-nothing start, closing, exact views, isolated routing, and what a failed construction leaves.
\<close>

section \<open>The invariant\<close>

definition host_ok :: "path \<Rightarrow> host \<Rightarrow> bool" where
  "host_ok root h \<longleftrightarrow> sorted (hs_plugins h) \<and> distinct (hs_plugins h)
     \<and> dom (hs_managers h) = set (hs_plugins h) \<and> all_managers (mgr_at root) (hs_managers h)"

lemma on_all_dom [simp]: "dom (on_all f S ms) = dom ms"
  by (auto simp: on_all_def dom_def split: if_splits)

lemma StartAll_ok:
  assumes "host_ok root h" and "StartAll senv kenv h = (r, h')"
  shows "host_ok root h' \<and> hs_plugins h' = hs_plugins h"
proof -
  have d: "distinct (hs_plugins h)" and i: "all_managers (mgr_at root) (hs_managers h)" using assms(1) by (simp_all add: host_ok_def)
  note l = assms(2) [unfolded StartAll_def]
  have "hs_plugins h' = hs_plugins h \<and> dom (hs_managers h') = dom (hs_managers h)"
  proof (cases r)
    case None
    then show ?thesis using start_loop_None [OF d] l by (metis on_all_dom)
  next
    case (Some e)
    then show ?thesis using start_loop_Some [OF d l [unfolded Some]] by (metis on_all_dom)
  qed
  then show ?thesis using sm.start_all_inv [OF d i l] assms(1) by (simp add: host_ok_def)
qed

lemma CloseHost_eq:
  "distinct (hs_plugins h) \<Longrightarrow> CloseHost kenv lc h =
     (first_err (map (outcome_at (\<lambda>p. Close (kenv p) (lc p)) (hs_managers h)) (hs_plugins h)),
      h\<lparr>hs_managers := on_all (\<lambda>p. Close (kenv p) (lc p)) (set (hs_plugins h)) (hs_managers h)\<rparr>)"
  by (simp add: CloseHost_def close_loop_eq)

lemma CloseHost_ok:
  assumes "host_ok root h" and "CloseHost kenv lc h = (r, h')"
  shows "host_ok root h' \<and> hs_plugins h' = hs_plugins h"
proof -
  have d: "distinct (hs_plugins h)" and i: "all_managers (mgr_at root) (hs_managers h)" using assms(1) by (simp_all add: host_ok_def)
  have "h' = h\<lparr>hs_managers := on_all (\<lambda>p. Close (kenv p) (lc p)) (set (hs_plugins h)) (hs_managers h)\<rparr>"
    using assms(2) CloseHost_eq [OF d] by simp
  then show ?thesis
    using sm.close_all_inv [OF d i assms(2) [unfolded CloseHost_def]] assms(1) by (simp add: host_ok_def)
qed

lemma host_ok_set:
  assumes "host_ok root h" and "hs_managers h p = Some m" and "mgr_at root p m'"
  shows "host_ok root (set_manager p m' h) \<and> hs_plugins (set_manager p m' h) = hs_plugins h"
  using assms by (auto simp: host_ok_def set_manager_def all_managers_def)

lemma host_ok_at: "host_ok root h \<Longrightarrow> hs_managers h p = Some m \<Longrightarrow> mgr_at root p m"
  by (simp add: host_ok_def all_managers_def)

lemma host_ok_lookup: "host_ok root h \<Longrightarrow> p \<in> set (hs_plugins h) \<Longrightarrow> \<exists>m. hs_managers h p = Some m"
  using domD [of p "hs_managers h"] by (simp add: host_ok_def)

lemma RouteTarget_Inr: "RouteTarget h p = Inr (r, m) \<longleftrightarrow> hs_managers h p = Some m \<and> r = route_of (StateOf m)"
  by (auto simp: RouteTarget_def ManagerOf_def split: option.splits)

lemma RouteTarget_Inl: "RouteTarget h p = Inl e \<longleftrightarrow> hs_managers h p = None \<and> e = Errorf ''unknown plugin id: %s'' [FStr p]"
  by (auto simp: RouteTarget_def ManagerOf_def split: option.splits)

text \<open>A call environment without interference.\<close>

definition quiet_call :: "heartbeat_response rpc_outcome \<Rightarrow> (string \<Rightarrow> string rpc_outcome) \<Rightarrow> stop_env \<Rightarrow> start_env \<Rightarrow> call_env" where
  "quiet_call out plug kenv senv = \<lparr>rc_heartbeat = quiet_heartbeat out, rc_intf = id, rc_echo = plug, rc_stop = kenv, rc_start = senv\<rparr>"

text \<open>A routed call changes nothing, or runs one operation of the target manager.\<close>

lemma CallRequest_exec:
  assumes "CallRequest (quiet_call out plug kenv senv) req h = (r, h')"
  shows "h' = h \<or> (\<exists>m x s m'. hs_managers h (rq_PluginID req) = Some m \<and> exec x m = (s, m') \<and> h' = set_manager (rq_PluginID req) m' h)"
proof (cases "RouteTarget h (rq_PluginID req)")
  case (Inl e)
  then show ?thesis using assms by (simp add: CallRequest_def)
next
  case (Inr x)
  then obtain rt m where t: "RouteTarget h (rq_PluginID req) = Inr (rt, m)" by (cases x) simp
  have run: "(\<exists>m'. h' = set_manager (rq_PluginID req) m' h \<and> snd (exec y m) = m') \<Longrightarrow> ?thesis" for y
    using t by (cases "exec y m") (auto simp: RouteTarget_Inr)
  let ?msg = "case rq_Arg req of VString s \<Rightarrow> s | _ \<Rightarrow> []"
  consider "rq_Call req = RoutedCallHeartbeat" | "rq_Call req = RoutedCallEcho" | "rq_Call req = RoutedCallRestart"
    | "rq_Call req \<notin> {RoutedCallHeartbeat, RoutedCallEcho, RoutedCallRestart}" by blast
  then show ?thesis
  proof cases
    case 1
    then show ?thesis using assms t
      by (intro run [of "OpHeartbeat out"]) (auto simp: CallRequest_def quiet_call_def split: prod.splits option.splits)
  next
    case 2
    then show ?thesis using assms t
      by (intro run [of "OpEcho plug ?msg"]) (auto simp: CallRequest_def quiet_call_def split: prod.splits sum.splits)
  next
    case 3
    then show ?thesis using assms t
      by (intro run [of "OpRestart kenv senv"]) (auto simp: CallRequest_def quiet_call_def split: prod.splits option.splits)
  next
    case 4
    then show ?thesis using assms t by (simp add: CallRequest_def)
  qed
qed

lemma CallRequest_ok:
  assumes "host_ok root h" and "CallRequest (quiet_call out plug kenv senv) req h = (r, h')"
  shows "host_ok root h' \<and> hs_plugins h' = hs_plugins h"
  using CallRequest_exec [OF assms(2)] assms(1) host_ok_set host_ok_at mgr_at_exec by blast

section \<open>Construction\<close>

lemma New_at:
  assumes "New sys le (manager_config cfg p) w fs = (Inr m, fs')" and "w_procs w = {}" and "w_conns w = {}"
    and "pluginIDPattern (pl_PluginID p)"
  shows "mgr_at (hc_RuntimeDir cfg) (pl_PluginID p) m \<and> clean m \<and> \<not> mg_closed m"
proof -
  note c = New_core [OF assms(1)]
  have "mgr_ok m" by (rule mgr_ok_cong [OF c]) (simp add: mgr_ok_fresh assms)
  then show ?thesis
    using core_eqD [OF c] assms(2,4)
    by (simp add: mgr_at_def clean_def attached_def fresh_manager_def with_config_defaults_def manager_config_def)
qed

text \<open>What holds while the managers are being created, after the ids in \<open>ids\<close>.\<close>

definition host_built :: "path \<Rightarrow> string set \<Rightarrow> host \<Rightarrow> bool" where
  "host_built root ids h \<longleftrightarrow> distinct (hs_plugins h) \<and> set (hs_plugins h) = ids \<and> dom (hs_managers h) = ids
     \<and> all_managers (\<lambda>p m. mgr_at root p m \<and> clean m \<and> \<not> mg_closed m) (hs_managers h)"

lemma host_built_add:
  assumes "host_built root ids h" and "p \<notin> ids" and "mgr_at root p m \<and> clean m \<and> \<not> mg_closed m"
  shows "host_built root (insert p ids) (h\<lparr>hs_managers := (hs_managers h)(p \<mapsto> m), hs_plugins := hs_plugins h @ [p]\<rparr>)"
  using assms by (auto simp: host_built_def all_managers_def)

lemma new_managers_built:
  assumes "new_managers env cfg ps seen h fs = (None, h', fs')" and "host_built (hc_RuntimeDir cfg) seen h"
    and "\<forall>p. w_procs (ne_world env p) = {} \<and> w_conns (ne_world env p) = {}"
  shows "host_built (hc_RuntimeDir cfg) (seen \<union> pl_PluginID ` set ps) h'"
  using assms(1,2)
proof (induction ps arbitrary: seen h fs)
  case (Cons p ps)
  let ?id = "pl_PluginID p"
  obtain m fs1 where v: "ValidatePluginID ?id = None" "?id \<notin> seen"
    and n: "New (ne_sys env) (ne_log env ?id) (manager_config cfg p) (ne_world env ?id) fs = (Inr m, fs1)"
    and r: "new_managers env cfg ps (insert ?id seen)
      (h\<lparr>hs_managers := (hs_managers h)(?id \<mapsto> m), hs_plugins := hs_plugins h @ [?id]\<rparr>) fs1 = (None, h', fs')"
    using Cons.prems(1) by (auto split: option.splits if_splits prod.splits sum.splits)
  have "mgr_at (hc_RuntimeDir cfg) ?id m \<and> clean m \<and> \<not> mg_closed m"
    using New_at [OF n] assms(3) v(1) by (simp add: ValidatePluginID_None_iff)
  from Cons.IH [OF r host_built_add [OF Cons.prems(2) v(2) this]] show ?case by simp
qed simp

lemma NewHost_ok:
  assumes "NewHost env cfg fs = (Inr h, fs', ms)" and "\<forall>p. w_procs (ne_world env p) = {} \<and> w_conns (ne_world env p) = {}"
  shows "host_ok (hc_RuntimeDir cfg) h \<and> set (hs_plugins h) = pl_PluginID ` set (hc_Plugins cfg)
    \<and> (\<forall>m \<in> ran (hs_managers h). clean m) \<and> hc_RuntimeDir cfg \<noteq> []"
proof -
  obtain h0 where n: "new_managers env cfg (hc_Plugins cfg) {} \<lparr>hs_managers = Map.empty, hs_plugins = []\<rparr> fs = (None, h0, fs')"
    and h: "h = h0\<lparr>hs_plugins := sort (hs_plugins h0)\<rparr>" and r: "hc_RuntimeDir cfg \<noteq> []"
    using assms(1) by (auto simp: NewHost_def split: if_splits prod.splits option.splits)
  have "host_built (hc_RuntimeDir cfg) (pl_PluginID ` set (hc_Plugins cfg)) h0"
    using new_managers_built [OF n _ assms(2)] by (simp add: host_built_def all_managers_def)
  then show ?thesis using r by (auto simp: h host_ok_def host_built_def all_managers_def ran_def)
qed

section \<open>Reachable hosts\<close>

text \<open>Ticks of a monitor that meets no interference.\<close>

type_synonym quiet_ticks = "(heartbeat_response rpc_outcome \<times> stop_env \<times> start_env) list"

definition as_ticks :: "quiet_ticks \<Rightarrow> tick_env list" where
  "as_ticks ts = map (\<lambda>(out, kenv, senv). quiet_tick out kenv senv) ts"

lemma mgr_at_log: "mgr_at root p (logEvent e m) = mgr_at root p m"
  using mgr_ok_core [of m] mgr_ok_core [of "logEvent e m"] by (simp add: mgr_at_def)

lemma mgr_at_tick:
  assumes "mgr_at root p m" and "monitor_tick (quiet_tick out kenv senv) m = (b, m')"
  shows "mgr_at root p m'"
proof -
  obtain h e m1 where hb: "Heartbeat (quiet_heartbeat out) m = ((h, e), m1)" by (metis prod.exhaust)
  have m1: "mgr_at root p m1" using mgr_at_exec [OF assms(1), of "OpHeartbeat out" False m1] hb by simp
  show ?thesis
  proof (cases e)
    case None
    then show ?thesis using assms(2) hb m1 by (simp add: monitor_tick_def quiet_tick_def)
  next
    case (Some x)
    let ?m3 = "logEvent ((kev m LevelWarn ComponentKernel EventHeartbeatFailed 0 0 []
      ''monitor observed heartbeat failure and will restart plugin'')
      \<lparr>ev_Error := Some x, ev_Reason := ''monitor loop heartbeat check''\<rparr>) m1"
    obtain r m4 where rs: "Restart kenv senv ?m3 = (r, m4)" by (cases "Restart kenv senv ?m3")
    have "mgr_at root p m4" using mgr_at_exec [of root p ?m3 "OpRestart kenv senv" "r = None" m4] m1 rs by (simp add: mgr_at_log)
    then show ?thesis
      using assms(2) hb Some m1 rs
      by (auto simp: monitor_tick_def quiet_tick_def Let_def mgr_at_log split: if_splits option.splits)
  qed
qed

lemma mgr_at_monitor: "mgr_at root p m \<Longrightarrow> mgr_at root p (monitor_loop (as_ticks ts) m)"
proof (induction ts arbitrary: m)
  case (Cons t ts)
  obtain out kenv senv where t: "t = (out, kenv, senv)" by (metis prod_cases3)
  obtain b m1 where m1: "monitor_tick (quiet_tick out kenv senv) m = (b, m1)" by (metis prod.exhaust)
  show ?case using Cons.IH mgr_at_tick [OF Cons.prems m1] m1 t by (cases b) (simp_all add: as_ticks_def)
qed (simp add: as_ticks_def)

lemma monitor_panics_iff:
  "dom (hs_managers h) = set (hs_plugins h)
    \<Longrightarrow> monitor_panics h \<longleftrightarrow> (\<exists>p m. hs_managers h p = Some m \<and> cf_HeartbeatEvery (mg_cfg m) \<le> 0)"
proof -
  have o: "(case x of None \<Rightarrow> False | Some m \<Rightarrow> P m) \<longleftrightarrow> (\<exists>m. x = Some m \<and> P m)" for x :: "manager option" and P
    by (cases x) auto
  assume "dom (hs_managers h) = set (hs_plugins h)"
  then show ?thesis unfolding monitor_panics_def list_ex_iff o by (auto simp: MonitorLoop_def)
qed

lemma MonitorLoopHost_ok:
  assumes "host_ok root h" and "MonitorLoopHost (\<lambda>p. as_ticks (ts p)) h = Some h'"
  shows "host_ok root h' \<and> hs_plugins h' = hs_plugins h"
proof -
  have d: "dom (hs_managers h) = set (hs_plugins h)" using assms(1) by (simp add: host_ok_def)
  have np: "\<not> monitor_panics h" using assms(2) by (auto simp: MonitorLoopHost_def)
  then have b: "Option.bind (hs_managers h p) (MonitorLoop ticks) = map_option (monitor_loop ticks) (hs_managers h p)" for p ticks
    unfolding monitor_panics_iff [OF d] by (cases "hs_managers h p") (auto simp: MonitorLoop_def)
  have "hs_managers h p = None" if "p \<notin> set (hs_plugins h)" for p using that d by auto
  then have "(\<lambda>p. if p \<in> set (hs_plugins h) then Option.bind (hs_managers h p) (MonitorLoop (as_ticks (ts p))) else hs_managers h p)
      = (\<lambda>p. map_option (monitor_loop (as_ticks (ts p))) (hs_managers h p))"
    by (intro ext) (simp add: b)
  then have "h' = h\<lparr>hs_managers := (\<lambda>p. map_option (monitor_loop (as_ticks (ts p))) (hs_managers h p))\<rparr>"
    using assms(2) np by (simp add: MonitorLoopHost_def)
  then show ?thesis using assms(1) mgr_at_monitor by (auto simp: host_ok_def all_managers_def dom_def)
qed

text \<open>
  The operations of a host as data, and any sequence of them on the host \<open>NewHost\<close> returns. When monitoring panics the
  process is gone and the host stays as it was.
\<close>

datatype host_op =
    HStartAll "string \<Rightarrow> start_env" "string \<Rightarrow> stop_env"
  | HClose "string \<Rightarrow> stop_env" "string \<Rightarrow> goerr option"
  | HCall "heartbeat_response rpc_outcome" "string \<Rightarrow> string rpc_outcome" stop_env start_env routed_request
  | HMonitor "string \<Rightarrow> quiet_ticks"

fun host_exec :: "host_op \<Rightarrow> host \<Rightarrow> host" where
  "host_exec (HStartAll senv kenv) h = snd (StartAll senv kenv h)"
| "host_exec (HClose kenv lc) h = snd (CloseHost kenv lc h)"
| "host_exec (HCall out plug kenv senv req) h = snd (CallRequest (quiet_call out plug kenv senv) req h)"
| "host_exec (HMonitor ts) h = (case MonitorLoopHost (\<lambda>p. as_ticks (ts p)) h of None \<Rightarrow> h | Some h' \<Rightarrow> h')"

inductive host_reach :: "host_config \<Rightarrow> host \<Rightarrow> bool" for cfg where
  new: "\<forall>p. w_procs (ne_world env p) = {} \<and> w_conns (ne_world env p) = {} \<Longrightarrow> NewHost env cfg fs = (Inr h, fs', ms) \<Longrightarrow> host_reach cfg h"
| step: "host_reach cfg h \<Longrightarrow> host_reach cfg (host_exec x h)"

lemma host_exec_ok:
  assumes "host_ok root h"
  shows "host_ok root (host_exec x h) \<and> hs_plugins (host_exec x h) = hs_plugins h"
proof (cases x)
  case (HStartAll senv kenv)
  then show ?thesis using StartAll_ok [OF assms, of senv kenv] by (cases "StartAll senv kenv h") simp
next
  case (HClose kenv lc)
  then show ?thesis using CloseHost_ok [OF assms, of kenv lc] by (cases "CloseHost kenv lc h") simp
next
  case (HCall out plug kenv senv req)
  then show ?thesis
    using CallRequest_ok [OF assms, of out plug kenv senv req] by (cases "CallRequest (quiet_call out plug kenv senv) req h") simp
next
  case (HMonitor ts)
  then show ?thesis using MonitorLoopHost_ok [OF assms] assms by (auto split: option.splits)
qed

lemma host_ok_reach:
  "host_reach cfg h \<Longrightarrow> host_ok (hc_RuntimeDir cfg) h \<and> hc_RuntimeDir cfg \<noteq> []
     \<and> set (hs_plugins h) = pl_PluginID ` set (hc_Plugins cfg)"
proof (induction rule: host_reach.induct)
  case (new env fs h fs' ms)
  then show ?case using NewHost_ok [OF new(2,1)] by simp
next
  case (step h x)
  then show ?case using host_exec_ok [of "hc_RuntimeDir cfg" h x] by simp
qed

lemma last_join: "slash \<notin> set f \<Longrightarrow> last (split_on slash (join_with slash (cs @ [f]))) = f"
proof (induction cs)
  case Nil
  then show ?case by (simp add: split_on_no_sep)
next
  case (Cons c cs)
  have "join_with slash ((c # cs) @ [f]) = c @ slash # join_with slash (cs @ [f])" by (simp add: join_with_Cons)
  then show ?case using Cons by (simp add: split_on_sep)
qed

lemma last_entry_below:
  assumes "slash \<notin> set f"
  shows "last (split_on slash (entry_below root f)) = f"
proof (cases "IsAbs root")
  case True
  then have "entry_below root f = [] @ slash # join_with slash (path_comps root @ [f])" by (simp add: entry_below_def)
  then show ?thesis using last_join [OF assms] split_on_sep [of slash "[]" "join_with slash (path_comps root @ [f])"] by simp
next
  case False
  then show ?thesis using last_join [OF assms] by (simp add: entry_below_def)
qed

lemma Join_last_inj:
  assumes "r1 \<noteq> []" and "r2 \<noteq> []" and "pluginIDPattern p" and "pluginIDPattern q" and "slash \<notin> set t"
    and "Join [r1, p @ t] = Join [r2, q @ t]"
  shows "p = q"
proof -
  have "entry_below r1 (p @ t) = entry_below r2 (q @ t)"
    using assms Join_entry_below [OF assms(1) pattern_plain [OF assms(3,5)]] Join_entry_below [OF assms(2) pattern_plain [OF assms(4,5)]]
    by simp
  then have "p @ t = q @ t"
    using last_entry_below [of "p @ t" r1] last_entry_below [of "q @ t" r2] pattern_no_slash [OF assms(3)]
      pattern_no_slash [OF assms(4)] assms(5) by simp
  then show ?thesis by simp
qed

lemma Join_nonempty: "root \<noteq> [] \<Longrightarrow> pluginIDPattern p \<Longrightarrow> pluginRuntimeDir root p \<noteq> []"
  using Join_entry_below [OF _ pattern_plain_name, of root p] last_entry_below [of p root] pattern_no_slash [of p] pattern_head [of p]
  by (auto simp: pluginRuntimeDir_def)

lemma mgr_at_paths:
  assumes "root \<noteq> []" and "mgr_at root p m" and "mgr_at root q n" and "p \<noteq> q"
  shows "cf_RuntimeDir (mg_cfg m) \<noteq> cf_RuntimeDir (mg_cfg n) \<and> mg_socket m \<noteq> mg_socket n \<and> mg_auth m \<noteq> mg_auth n"
proof -
  have v: "pluginIDPattern p" "pluginIDPattern q" using assms(2,3) by (simp_all add: mgr_at_def)
  note ne = Join_nonempty [OF assms(1) v(1)] Join_nonempty [OF assms(1) v(2)]
  show ?thesis
    using assms(2-4) Join_last_inj [OF ne v, of "''.sock''"] Join_last_inj [OF ne v, of "''.auth''"]
      Join_last_inj [OF assms(1,1) v, of "[]"]
    by (auto simp: mgr_at_def mg_socket_def mg_auth_def SocketPath_def AuthPath_def pluginRuntimeDir_def)
qed

section \<open>Properties\<close>

text \<open>
  C15: every host that any sequence of starting, closing, routed calls and monitoring can produce is
  consistent: its ids are exactly the configured ones, sorted and without repetition, each is valid and
  has a manager of that id that satisfies the manager invariant, and no two managers share a runtime
  directory, a socket or a token file.
\<close>

theorem reachable_host_consistent:
  assumes "host_reach cfg h"
  shows "sorted (hs_plugins h) \<and> distinct (hs_plugins h) \<and> set (hs_plugins h) = pl_PluginID ` set (hc_Plugins cfg)
    \<and> dom (hs_managers h) = set (hs_plugins h)
    \<and> (\<forall>p m. hs_managers h p = Some m \<longrightarrow> ValidatePluginID p = None \<and> mg_id m = p \<and> mgr_ok m)
    \<and> (\<forall>p q m n. hs_managers h p = Some m \<longrightarrow> hs_managers h q = Some n \<longrightarrow> p \<noteq> q \<longrightarrow>
         cf_RuntimeDir (mg_cfg m) \<noteq> cf_RuntimeDir (mg_cfg n) \<and> mg_socket m \<noteq> mg_socket n \<and> mg_auth m \<noteq> mg_auth n)"
proof -
  note r = host_ok_reach [OF assms]
  have at: "mgr_at (hc_RuntimeDir cfg) p m" if "hs_managers h p = Some m" for p m using r host_ok_at that by blast
  have "\<forall>p m. hs_managers h p = Some m \<longrightarrow> ValidatePluginID p = None \<and> mg_id m = p \<and> mgr_ok m"
    using at by (simp add: mgr_at_def ValidatePluginID_None_iff)
  moreover have "\<forall>p q m n. hs_managers h p = Some m \<longrightarrow> hs_managers h q = Some n \<longrightarrow> p \<noteq> q \<longrightarrow>
      cf_RuntimeDir (mg_cfg m) \<noteq> cf_RuntimeDir (mg_cfg n) \<and> mg_socket m \<noteq> mg_socket n \<and> mg_auth m \<noteq> mg_auth n"
    using mgr_at_paths [of "hc_RuntimeDir cfg"] at r by blast
  ultimately show ?thesis using r unfolding host_ok_def by blast
qed

definition sample_plugin :: "string \<Rightarrow> plugin_config" where
  "sample_plugin p = \<lparr>pl_PluginID = p, pl_PluginPath = ''/p'', pl_Metadata = None, pl_Refresh = None\<rparr>"

definition sample_host_config :: "string list \<Rightarrow> host_config" where
  "sample_host_config ps = \<lparr>hc_RuntimeDir = ''/r'', hc_EventLogPath = [], hc_DialTimeout = 0, hc_CallTimeout = 0,
     hc_HeartbeatEvery = 0, hc_Plugins = map sample_plugin ps, hc_DisableRedaction = False\<rparr>"

definition sample_host_env :: host_env where
  "sample_host_env = \<lparr>ne_sys = quiet_sys, ne_log = (\<lambda>_. None), ne_world = (\<lambda>_. sample_world),
     ne_stop = (\<lambda>_. sample_stop), ne_log_close = (\<lambda>_. None)\<rparr>"

lemma sample_valid_ids: "ValidatePluginID ''echo'' = None" "ValidatePluginID ''zeta'' = None"
  by (simp_all add: ValidatePluginID_def pluginIDPattern_def id_char_def byte_class_defs)

lemma sample_host_New:
  "\<exists>m fs'. New (ne_sys sample_host_env) (ne_log sample_host_env ''echo'') (manager_config (sample_host_config ps) (sample_plugin ''echo''))
     (ne_world sample_host_env ''echo'') sample_fs = (Inr m, fs')"
  by (simp add: New_def manager_config_def sample_host_env_def sample_host_config_def sample_plugin_def ValidateExecutable_def
      sample_fs_def Lstat_def quiet_sys_def IsAbs_def EnsureDir_def not_exist_def Let_def pluginRuntimeDir_def
      pluginEventLogPath_def Join_def Clean_def)

lemma sample_host_sel:
  "hc_RuntimeDir (sample_host_config ps) = ''/r''" "hc_Plugins (sample_host_config ps) = map sample_plugin ps"
  "pl_PluginID (sample_plugin p) = p" "pl_PluginPath (sample_plugin p) = ''/p''"
  by (simp_all add: sample_host_config_def sample_plugin_def)

lemma sample_NewHost: "\<exists>h fs' ms. NewHost sample_host_env (sample_host_config [''echo'']) sample_fs = (Inr h, fs', ms)"
proof -
  obtain m fs' where n: "New (ne_sys sample_host_env) (ne_log sample_host_env ''echo'')
      (manager_config (sample_host_config [''echo'']) (sample_plugin ''echo'')) (ne_world sample_host_env ''echo'') sample_fs = (Inr m, fs')"
    using sample_host_New by blast
  show ?thesis by (simp add: NewHost_def sample_host_sel sample_valid_ids n)
qed

theorem reachable_host_consistent_witness:
  "\<exists>h m. host_reach (sample_host_config [''echo'']) h \<and> hs_managers h ''echo'' = Some m \<and> mg_id m = ''echo''"
proof -
  obtain h fs' ms where n: "NewHost sample_host_env (sample_host_config [''echo'']) sample_fs = (Inr h, fs', ms)"
    using sample_NewHost by blast
  have r: "host_reach (sample_host_config [''echo'']) h"
    by (rule host_reach.new [OF _ n]) (simp add: sample_host_env_def sample_world_def)
  note c = reachable_host_consistent [OF r]
  have dm: "dom (hs_managers h) = set (hs_plugins h)" using c by (elim conjE)
  have "set (hs_plugins h) = pl_PluginID ` set (hc_Plugins (sample_host_config [''echo'']))" using c by (elim conjE)
  then have "set (hs_plugins h) = {''echo''}" by (simp add: sample_host_config_def sample_plugin_def)
  with dm obtain m where m: "hs_managers h ''echo'' = Some m" by blast
  have "mg_id m = ''echo''" using c m by (elim conjE) blast
  then show ?thesis using r m by blast
qed

text \<open>
  C16: \<open>StartAll\<close> is all or nothing up to failures of the operating system. On a host with nothing
  running it either starts every plugin, each healthy in its next generation, or it returns an error,
  and afterwards no plugin is attached or healthy anywhere. A process is then left behind only for a
  plugin whose rollback \<open>Kill\<close> fails, or whose own start failed and could not be waited for.
\<close>

theorem StartAll_all_or_nothing:
  assumes "host_ok root h" and "\<forall>m \<in> ran (hs_managers h). clean m" and "StartAll senv kenv h = (r, h')"
  shows "(r = None \<longrightarrow> (\<forall>p \<in> set (hs_plugins h). \<exists>m m'. hs_managers h p = Some m \<and> hs_managers h' p = Some m'
           \<and> mg_healthy m' \<and> mg_gen m' = mg_gen m + 1 \<and> attached m'))
    \<and> (r \<noteq> None \<longrightarrow> (\<forall>q m'. hs_managers h' q = Some m' \<longrightarrow> \<not> attached m' \<and> \<not> mg_healthy m'
         \<and> (w_procs m' \<noteq> {} \<longrightarrow> (\<exists>m. stop_fails (kenv q) m) \<or> real_failure (se_wait (senv q)))))"
proof -
  have d: "distinct (hs_plugins h)" and i: "all_managers (mgr_at root) (hs_managers h)" using assms(1) by (simp_all add: host_ok_def)
  note l = assms(3) [unfolded StartAll_def]
  have "\<exists>m m'. hs_managers h p = Some m \<and> hs_managers h' p = Some m' \<and> mg_healthy m' \<and> mg_gen m' = mg_gen m + 1 \<and> attached m'"
    if "r = None" "p \<in> set (hs_plugins h)" for p
    using sm.start_all_ok [OF d i l [unfolded that(1)] that(2)] Start_fields [of "senv p"] by force
  moreover have "\<not> attached m' \<and> \<not> mg_healthy m'
      \<and> (w_procs m' \<noteq> {} \<longrightarrow> (\<exists>m. stop_fails (kenv q) m) \<or> real_failure (se_wait (senv q)))"
    if "r \<noteq> None" and q: "hs_managers h' q = Some m'" for q m'
  proof -
    obtain e where e: "r = Some e" using \<open>r \<noteq> None\<close> by auto
    have k: "fst (Kill (kenv q) m) = None" if "\<not> stop_fails (kenv q) m" "mgr_at root q m" "attached m" for m
    proof -
      have "\<not> mg_closed m" using that(2,3) mgr_ok_closed [of m] by (auto simp: mgr_at_def attached_def)
      then show ?thesis
        using that(1) stopCurrent_core [of m "kenv q" False "''kill requested''"]
        by (cases "Kill (kenv q) m") (simp add: Kill_def)
    qed
    note f = sm.start_all_fails [OF d i assms(2) l [unfolded e] q]
    have "mgr_ok m'" using host_ok_at [OF conjunct1 [OF StartAll_ok [OF assms(1,3)]] q] by (simp add: mgr_at_def)
    then show ?thesis using f k by (auto simp: clean_def attached_def mgr_ok_def)
  qed
  ultimately show ?thesis by blast
qed

text \<open>A host with two idle plugins; \<open>echo\<close> starts and \<open>zeta\<close> cannot be spawned.\<close>

definition sample_manager :: "string \<Rightarrow> manager" where
  "sample_manager p = fresh_manager (sample_config\<lparr>cf_RuntimeDir := pluginRuntimeDir ''/r'' p, cf_PluginID := p\<rparr>) sample_world"

definition sample_host :: host where
  "sample_host = \<lparr>hs_managers = [''echo'' \<mapsto> sample_manager ''echo'', ''zeta'' \<mapsto> sample_manager ''zeta''],
     hs_plugins = [''echo'', ''zeta'']\<rparr>"

lemma sample_manager_at: "pluginIDPattern p \<Longrightarrow> mgr_at ''/r'' p (sample_manager p) \<and> clean (sample_manager p) \<and> idle (sample_manager p)"
  using mgr_ok_fresh [of sample_world]
  by (simp add: mgr_at_def sample_manager_def clean_def attached_def idle_def fresh_manager_def sample_world_def sample_config_def)

lemma sample_host_ok: "host_ok ''/r'' sample_host" "\<forall>m \<in> ran (hs_managers sample_host). clean m"
  using sample_valid_ids sample_manager_at
  by (auto simp: host_ok_def sample_host_def all_managers_def ValidatePluginID_None_iff ran_def split: if_splits)

theorem StartAll_all_or_nothing_witness:
  "\<exists>e h'. StartAll (\<lambda>p. sample_start\<lparr>se_spawn := if p = ''echo'' then Inr 7 else Inl (err ''no'')\<rparr>) (\<lambda>_. sample_stop) sample_host
       = (Some e, h') \<and> (\<forall>m \<in> ran (hs_managers h'). w_procs m = {})"
proof -
  let ?senv = "\<lambda>p. sample_start\<lparr>se_spawn := if p = ''echo'' then Inr 7 else Inl (err ''no'')\<rparr>"
  obtain r h' where s: "StartAll ?senv (\<lambda>_. sample_stop) sample_host = (r, h')"
    by (cases "StartAll ?senv (\<lambda>_. sample_stop) sample_host")
  have "r \<noteq> None"
  proof
    assume "r = None"
    then have "outcome_at (\<lambda>p. Start (?senv p)) (hs_managers sample_host) ''zeta'' = None"
      using start_loop_None [of "hs_plugins sample_host" "\<lambda>p. Start (?senv p)" "\<lambda>p. Kill sample_stop" "[]" sample_host h'] s
      by (simp add: StartAll_def sample_host_def)
    then have "\<exists>m'. startLocked (?senv ''zeta'') (sample_manager ''zeta'') = (None, m')"
      by (cases "startLocked (?senv ''zeta'') (sample_manager ''zeta'')") (auto simp: outcome_at_def sample_host_def Start_def)
    then show False by (simp add: startLocked_succeeds_iff started_def)
  qed
  moreover have "\<not> stop_fails sample_stop m" "\<not> real_failure (se_wait (?senv p))" for p m
    by (simp_all add: stop_fails_def sample_stop_def sample_start_def real_failure_def)
  ultimately have "w_procs m = {}" if "hs_managers h' q = Some m" for q m
    using StartAll_all_or_nothing [OF sample_host_ok s] that by blast
  then show ?thesis using s \<open>r \<noteq> None\<close> by (auto simp: ran_def)
qed

text \<open>
  Closing a host closes every manager, also after some of them fail: afterwards all are closed with
  nothing attached, every start is refused, and the error returned is that of the first plugin (in id
  order) whose \<open>Close\<close> failed, if any did.
\<close>

theorem CloseHost_closes_all:
  assumes "host_ok root h" and "CloseHost kenv lc h = (r, h')"
  shows "(\<forall>p \<in> set (hs_plugins h). \<exists>m. hs_managers h' p = Some m \<and> mg_closed m \<and> \<not> attached m
            \<and> (\<forall>senv. Start senv m = (Some (err ''manager closed''), m)))
    \<and> r = first_err (map (\<lambda>p. fst (Close (kenv p) (lc p) (the (hs_managers h p)))) (hs_plugins h))"
proof -
  have d: "distinct (hs_plugins h)" and i: "all_managers (mgr_at root) (hs_managers h)"
    using assms(1) by (simp_all add: host_ok_def)
  have "outcome_at (\<lambda>p. Close (kenv p) (lc p)) (hs_managers h) p = fst (Close (kenv p) (lc p) (the (hs_managers h p)))"
    if "p \<in> set (hs_plugins h)" for p
  proof -
    from host_ok_lookup [OF assms(1) that] obtain m where "hs_managers h p = Some m" ..
    then show ?thesis by (simp add: outcome_at_def)
  qed
  then have "r = first_err (map (\<lambda>p. fst (Close (kenv p) (lc p) (the (hs_managers h p)))) (hs_plugins h))"
    using CloseHost_eq [OF d, of kenv lc] assms(2) by (simp cong: map_cong)
  moreover have "\<exists>m. hs_managers h' p = Some m \<and> mg_closed m \<and> \<not> attached m \<and> (\<forall>senv. Start senv m = (Some (err ''manager closed''), m))"
    if "p \<in> set (hs_plugins h)" for p
  proof -
    from host_ok_lookup [of root h' p] CloseHost_ok [OF assms] that obtain m where m: "hs_managers h' p = Some m" by auto
    then show ?thesis
      using sm.close_all [OF d i assms(2) [unfolded CloseHost_def] that m]
      by (auto simp: Start_def startLocked_def start_reserve_def)
  qed
  ultimately show ?thesis by blast
qed

theorem CloseHost_closes_all_witness:
  "\<exists>r h' m. CloseHost (\<lambda>_. sample_stop) (\<lambda>_. None) sample_host = (r, h') \<and> hs_managers h' ''echo'' = Some m \<and> mg_closed m"
proof -
  obtain r h' where c: "CloseHost (\<lambda>_. sample_stop) (\<lambda>_. None) sample_host = (r, h')"
    by (cases "CloseHost (\<lambda>_. sample_stop) (\<lambda>_. None) sample_host")
  have "''echo'' \<in> set (hs_plugins sample_host)" by (simp add: sample_host_def)
  then show ?thesis using CloseHost_closes_all [OF sample_host_ok(1) c] c by blast
qed

section \<open>Views\<close>

lemma fold_add_capability:
  "fold (add_capability p) caps cm c =
     (if c \<in> set caps then Some ((case cm c of None \<Rightarrow> [] | Some ps \<Rightarrow> ps) @ replicate (count_list caps c) p) else cm c)"
proof (induction caps arbitrary: cm)
  case (Cons x caps)
  show ?case using Cons [of "add_capability p x cm"]
    by (auto simp: add_capability_def replicate_append_same count_list_0_iff split: option.splits)
qed simp

text \<open>The state of plugin \<open>p\<close>, and the providers of a capability in plugin order, with multiplicity.\<close>

definition state_at :: "host \<Rightarrow> string \<Rightarrow> plugin_state" where
  "state_at h p = StateOf (the (hs_managers h p))"

definition providers :: "host \<Rightarrow> string \<Rightarrow> string list \<Rightarrow> string list" where
  "providers h c ps = concat (map (\<lambda>p. replicate (count_list (st_Capabilities (state_at h p)) c) p) ps)"

lemma providers_Nil: "providers h c ps = [] \<longleftrightarrow> (\<forall>p \<in> set ps. c \<notin> set (st_Capabilities (state_at h p)))"
  by (auto simp: providers_def count_list_0_iff)

lemma set_providers: "set (providers h c ps) = {p \<in> set ps. c \<in> set (st_Capabilities (state_at h p))}"
  by (auto simp: providers_def count_list_0_iff)

lemma sorted_providers: "sorted ps \<Longrightarrow> sorted (providers h c ps)"
proof (induction ps)
  case (Cons p ps)
  then show ?case using set_providers [of h c ps] by (auto simp: providers_def sorted_append)
qed (simp add: providers_def)

lemma host_fold:
  assumes "set ps \<subseteq> dom (hs_managers h)"
  shows "let out' = fold (\<lambda>p out. case hs_managers h p of None \<Rightarrow> out | Some m \<Rightarrow> add_plugin p m out) ps out
    in ho_Plugins out' = ho_Plugins out @ map (state_at h) ps
      \<and> ho_Routes out' = ho_Routes out @ map (\<lambda>p. route_of (state_at h p)) ps
      \<and> ho_CapabilityMap out' c = (if providers h c ps = [] then ho_CapabilityMap out c
            else Some ((case ho_CapabilityMap out c of None \<Rightarrow> [] | Some qs \<Rightarrow> qs) @ providers h c ps))"
  using assms
proof (induction ps arbitrary: out)
  case (Cons p ps)
  obtain m where m: "hs_managers h p = Some m" using Cons.prems by auto
  have st: "StateOf m = state_at h p" by (simp add: state_at_def m)
  have pr: "providers h c (p # ps) = replicate (count_list (st_Capabilities (state_at h p)) c) p @ providers h c ps"
    by (simp add: providers_def)
  show ?case
    using Cons.IH [of "add_plugin p m out"] Cons.prems m st
    by (auto simp: Let_def add_plugin_def fold_add_capability pr count_list_0_iff split: option.splits)
qed (simp add: providers_def Let_def)

text \<open>
  C17: the host view is exact. The states and routes are those of the managers in id order, every route
  is the projection of its state, and the capability map, which the code builds by appending in a loop
  and sorting, lists for each capability exactly the plugins that declare it, in id order, once per
  declaration; a capability nobody declares has no entry.
\<close>

theorem HostState_exact:
  assumes "host_ok root h"
  shows "States h = map (state_at h) (hs_plugins h)
    \<and> Routes h = map route_of (States h)
    \<and> CapabilityMap h c = (if providers h c (hs_plugins h) = [] then None else Some (providers h c (hs_plugins h)))
    \<and> set (providers h c (hs_plugins h)) = {p \<in> set (hs_plugins h). c \<in> set (st_Capabilities (state_at h p))}
    \<and> sorted (providers h c (hs_plugins h))"
proof -
  have dm: "set (hs_plugins h) \<subseteq> dom (hs_managers h)" and srt: "sorted (hs_plugins h)" using assms by (simp_all add: host_ok_def)
  note f = host_fold [OF dm, where c = c and out = "\<lparr>ho_Plugins = [], ho_CapabilityMap = Map.empty, ho_Routes = []\<rparr>"]
  note p = sorted_providers [OF srt, of h c]
  have "sort (providers h c (hs_plugins h)) = providers h c (hs_plugins h)" using p by (rule sorted_sort_id)
  then show ?thesis
    using f p set_providers [of h c "hs_plugins h"]
    by (auto simp: States_def Routes_def CapabilityMap_def HostStateOf_def Let_def)
qed

theorem HostState_exact_witness:
  "States sample_host = [zero_state, zero_state] \<and> CapabilityMap sample_host ''echo'' = None"
proof -
  have s: "state_at sample_host p = zero_state" if "p \<in> {''echo'', ''zeta''}" for p
    using that by (auto simp: state_at_def sample_host_def sample_manager_def StateOf_def fresh_manager_def providerBundleAdminDTO_def
        generationBoundProviderBundleMetadata_def sample_config_def zero_state_def)
  have "providers sample_host ''echo'' (hs_plugins sample_host) = []"
    using s by (simp add: providers_Nil sample_host_def zero_state_def)
  then show ?thesis using HostState_exact [OF sample_host_ok(1), of "''echo''"] s by (simp add: sample_host_def)
qed

section \<open>Routing\<close>

lemma CallRequest_known:
  assumes "hs_managers h (rq_PluginID req) = Some m"
  shows "CallRequest env req h =
    (let respond = (\<lambda>b. Inr \<lparr>rr_Route = route_of (StateOf m), rr_Call = rq_Call req, rr_Body = b\<rparr>);
         upd = (\<lambda>m'. set_manager (rq_PluginID req) m' h)
     in if rq_Call req = RoutedCallHeartbeat then
          (case Heartbeat (rc_heartbeat env) m of
             ((out, Some e), m') \<Rightarrow> (Inl e, upd m')
           | ((out, None), m') \<Rightarrow> (respond (HeartbeatBody out), upd m'))
        else if rq_Call req = RoutedCallEcho then
          (case Echo (rc_intf env) (rc_echo env) (case rq_Arg req of VString s \<Rightarrow> s | _ \<Rightarrow> []) m of
             (Inl e, m') \<Rightarrow> (Inl e, upd m')
           | (Inr out, m') \<Rightarrow> (respond (EchoBody out), upd m'))
        else if rq_Call req = RoutedCallRestart then
          (case Restart (rc_stop env) (rc_start env) m of
             (Some e, m') \<Rightarrow> (Inl e, upd m')
           | (None, m') \<Rightarrow> (respond (StateBody (StateOf m')), upd m'))
        else (Inl (Errorf ''unsupported routed call: %s'' [FStr (rq_Call req)]), h))"
  using assms by (simp add: CallRequest_def RouteTarget_def ManagerOf_def Let_def)

lemma CallRequest_isolated:
  assumes "CallRequest env req h = (r, h')"
  shows "h' = h \<or> (\<exists>m'. h' = set_manager (rq_PluginID req) m' h)"
proof (cases "hs_managers h (rq_PluginID req)")
  case None
  then show ?thesis using assms by (simp add: CallRequest_def RouteTarget_def ManagerOf_def)
next
  case (Some m)
  show ?thesis
    using assms unfolding CallRequest_known [OF Some]
    by (auto simp: Let_def split: if_splits prod.splits option.splits sum.splits)
qed

lemma CallRequest_restart:
  assumes "CallRequest env req h = (Inr resp, h')" and "rq_Call req = RoutedCallRestart"
    and "hs_managers h (rq_PluginID req) = Some m" and "mgr_ok m"
  shows "\<exists>m'. rr_Route resp = route_of (StateOf m) \<and> rr_Body resp = StateBody (StateOf m')
    \<and> hs_managers h' (rq_PluginID req) = Some m' \<and> mg_healthy m' \<and> mg_gen m' = mg_gen m + 1"
proof -
  obtain m' where r: "Restart (rc_stop env) (rc_start env) m = (None, m')" and h': "h' = set_manager (rq_PluginID req) m' h"
    and resp: "resp = \<lparr>rr_Route = route_of (StateOf m), rr_Call = rq_Call req, rr_Body = StateBody (StateOf m')\<rparr>"
    using assms(1,2) unfolding CallRequest_known [OF assms(3)] by (auto simp: Let_def split: prod.splits option.splits)
  show ?thesis using Restart_fields [OF assms(4) r] resp h' by (simp add: set_manager_def)
qed

text \<open>
  C18: routing is isolated and explicit. A routed request never touches a manager other than its target
  and never changes the set of plugins; an unknown plugin id and an unsupported call are refused without
  any effect; a response carries the route as it was before the call; a restart answers with the healthy
  state of the generation after the one in its route.
\<close>

theorem CallRequest_routes:
  assumes "CallRequest env req h = (r, h')"
  shows "(\<forall>q. q \<noteq> rq_PluginID req \<longrightarrow> hs_managers h' q = hs_managers h q) \<and> hs_plugins h' = hs_plugins h
    \<and> (hs_managers h (rq_PluginID req) = None \<longrightarrow> r = Inl (Errorf ''unknown plugin id: %s'' [FStr (rq_PluginID req)]) \<and> h' = h)
    \<and> (\<forall>m. hs_managers h (rq_PluginID req) = Some m \<longrightarrow>
          (rq_Call req \<notin> {RoutedCallHeartbeat, RoutedCallEcho, RoutedCallRestart} \<longrightarrow>
             r = Inl (Errorf ''unsupported routed call: %s'' [FStr (rq_Call req)]) \<and> h' = h)
          \<and> (\<forall>resp. r = Inr resp \<longrightarrow> rr_Route resp = route_of (StateOf m) \<and> rr_Call resp = rq_Call req
               \<and> (rq_Call req = RoutedCallRestart \<longrightarrow> mgr_ok m \<longrightarrow>
                    (\<exists>st. rr_Body resp = StateBody st \<and> st_Healthy st \<and> st_GenerationID st = rt_GenerationID (rr_Route resp) + 1))))"
proof -
  have iso: "(\<forall>q. q \<noteq> rq_PluginID req \<longrightarrow> hs_managers h' q = hs_managers h q) \<and> hs_plugins h' = hs_plugins h"
    using CallRequest_isolated [OF assms] by (auto simp: set_manager_def)
  have unknown: "r = Inl (Errorf ''unknown plugin id: %s'' [FStr (rq_PluginID req)]) \<and> h' = h"
    if "hs_managers h (rq_PluginID req) = None"
    using assms that by (simp add: CallRequest_def RouteTarget_def ManagerOf_def)
  have unsupported: "r = Inl (Errorf ''unsupported routed call: %s'' [FStr (rq_Call req)]) \<and> h' = h"
    if "hs_managers h (rq_PluginID req) = Some m" "rq_Call req \<notin> {RoutedCallHeartbeat, RoutedCallEcho, RoutedCallRestart}" for m
    using assms that by (simp add: CallRequest_known Let_def)
  have route: "rr_Route resp = route_of (StateOf m) \<and> rr_Call resp = rq_Call req"
    if "hs_managers h (rq_PluginID req) = Some m" "r = Inr resp" for m resp
    using assms that(2) unfolding CallRequest_known [OF that(1)]
    by (auto simp: Let_def split: if_splits prod.splits option.splits sum.splits)
  have restart: "\<exists>st. rr_Body resp = StateBody st \<and> st_Healthy st \<and> st_GenerationID st = rt_GenerationID (rr_Route resp) + 1"
    if "hs_managers h (rq_PluginID req) = Some m" "r = Inr resp" "rq_Call req = RoutedCallRestart" "mgr_ok m" for m resp
    using CallRequest_restart [OF assms [unfolded that(2)] that(3,1,4)] by (auto simp: route_of_def StateOf_def)
  show ?thesis
  proof (intro conjI allI impI)
    show "hs_managers h' q = hs_managers h q" if "q \<noteq> rq_PluginID req" for q using iso that by simp
    show "hs_plugins h' = hs_plugins h" using iso by simp
  qed ((rule unknown [THEN conjunct1] unknown [THEN conjunct2] unsupported [THEN conjunct1] unsupported [THEN conjunct2]
      route [THEN conjunct1] route [THEN conjunct2] restart; assumption)+)
qed

theorem CallRequest_routes_witness:
  "\<exists>h'. CallRequest (quiet_call CallTimeout (\<lambda>s. Reply s) sample_stop sample_start)
      \<lparr>rq_PluginID = ''nope'', rq_Call = RoutedCallEcho, rq_Arg = VString ''hi''\<rparr> sample_host
     = (Inl (Errorf ''unknown plugin id: %s'' [FStr ''nope'']), h') \<and> h' = sample_host"
proof -
  let ?req = "\<lparr>rq_PluginID = ''nope'', rq_Call = RoutedCallEcho, rq_Arg = VString ''hi''\<rparr>"
  let ?env = "quiet_call CallTimeout (\<lambda>s. Reply s) sample_stop sample_start"
  obtain r h' where c: "CallRequest ?env ?req sample_host = (r, h')" by (cases "CallRequest ?env ?req sample_host")
  have "hs_managers sample_host (rq_PluginID ?req) = None" by (simp add: sample_host_def)
  then show ?thesis using CallRequest_routes [OF c] c by simp
qed

subsection \<open>The type of a response body\<close>

text \<open>A body is an \<open>any\<close> in the code; the call decides which type it holds.\<close>

inductive body_of :: "string \<Rightarrow> body \<Rightarrow> bool" where
  heartbeat: "body_of RoutedCallHeartbeat (HeartbeatBody r)"
| echo: "body_of RoutedCallEcho (EchoBody s)"
| restart: "body_of RoutedCallRestart (StateBody st)"

inductive_simps body_of_simps: "body_of RoutedCallHeartbeat b" "body_of RoutedCallEcho b" "body_of RoutedCallRestart b"

lemma CallRequest_body:
  assumes "CallRequest env req h = (Inr resp, h')"
  shows "body_of (rq_Call req) (rr_Body resp)"
proof (cases "hs_managers h (rq_PluginID req)")
  case None
  then show ?thesis using assms by (simp add: CallRequest_def RouteTarget_def ManagerOf_def)
next
  case (Some m)
  show ?thesis
    using assms unfolding CallRequest_known [OF Some]
    by (auto simp: Let_def intro: body_of.intros split: if_splits prod.splits option.splits sum.splits)
qed

text \<open>
  C19: routed responses are well typed. The body of every response holds the type that belongs to the call, so the
  type assertion in \<open>RestartPlugin\<close> never fails: its only errors are those of the routed call, and on success it returns
  exactly the state the call answered with, on the same host.
\<close>

theorem routed_body_typed:
  assumes "CallRequest env req h = (Inr resp, h')"
  shows "body_of (rq_Call req) (rr_Body resp)
    \<and> (rq_Call req = RoutedCallRestart \<and> rq_Arg req = VNil \<longrightarrow>
         (\<exists>st. rr_Body resp = StateBody st \<and> RestartPlugin env (rq_PluginID req) h = (Inr st, h')))"
proof -
  note b = CallRequest_body [OF assms]
  moreover have "\<exists>st. rr_Body resp = StateBody st \<and> RestartPlugin env (rq_PluginID req) h = (Inr st, h')"
    if "rq_Call req = RoutedCallRestart" "rq_Arg req = VNil"
  proof -
    have "body_of RoutedCallRestart (rr_Body resp)" using b that(1) by simp
    then obtain st where st: "rr_Body resp = StateBody st" by (auto simp: body_of_simps)
    have "\<lparr>rq_PluginID = rq_PluginID req, rq_Call = RoutedCallRestart, rq_Arg = VNil\<rparr> = req" using that by simp
    then show ?thesis using assms st by (simp add: RestartPlugin_def CallHost_def)
  qed
  ultimately show ?thesis by blast
qed

lemma sample_restart: "\<exists>m'. Restart sample_stop (sample_env 1 8) (sample_manager ''echo'') = (None, m')"
proof (rule Restart_succeeds)
  have i: "mgr_at ''/r'' ''echo'' (sample_manager ''echo'') \<and> idle (sample_manager ''echo'')"
    using sample_manager_at [of "''echo''"] sample_valid_ids by (simp add: ValidatePluginID_None_iff)
  show "mgr_ok (sample_manager ''echo'')" "\<not> mg_closed (sample_manager ''echo'')" using i by (simp_all add: mgr_at_def idle_def)
  show "\<not> stop_fails sample_stop (sample_manager ''echo'')" by (simp add: stop_fails_def sample_stop_def real_failure_def)
  fix m2 assume "mg_gen m2 = mg_gen (sample_manager ''echo'')" "mg_cfg m2 = mg_cfg (sample_manager ''echo'')" "idle m2"
  then show "\<exists>m3. startLocked (sample_env 1 8) m2 = (None, m3)"
    by (intro sample_env_starts) (simp_all add: sample_manager_def fresh_manager_def sample_config_def zero_state_def)
qed

theorem routed_body_typed_witness:
  "\<exists>resp st h'. CallRequest (quiet_call CallTimeout Reply sample_stop (sample_env 1 8))
       \<lparr>rq_PluginID = ''echo'', rq_Call = RoutedCallRestart, rq_Arg = VNil\<rparr> sample_host = (Inr resp, h')
     \<and> rr_Body resp = StateBody st
     \<and> RestartPlugin (quiet_call CallTimeout Reply sample_stop (sample_env 1 8)) ''echo'' sample_host = (Inr st, h')"
proof -
  let ?c = "quiet_call CallTimeout Reply sample_stop (sample_env 1 8)"
  let ?q = "\<lparr>rq_PluginID = ''echo'', rq_Call = RoutedCallRestart, rq_Arg = VNil\<rparr>"
  obtain m0 where m0: "Restart sample_stop (sample_env 1 8) (sample_manager ''echo'') = (None, m0)" using sample_restart by blast
  then have "\<exists>resp h'. CallRequest ?c ?q sample_host = (Inr resp, h')"
    by (simp add: CallRequest_known sample_host_def quiet_call_def Let_def)
  then obtain resp h' where r: "CallRequest ?c ?q sample_host = (Inr resp, h')" by blast
  from routed_body_typed [OF r] r show ?thesis by auto
qed


section \<open>Failed construction\<close>

lemma ValidatePluginID_not_wrapped: "ValidatePluginID p = Some e \<Longrightarrow> e \<noteq> Wrapf f a x"
  by (auto simp: ValidatePluginID_def split: if_splits)

lemma new_managers_failed:
  assumes "new_managers env cfg ps seen h fs = (Some e, h', fs')" and "host_built (hc_RuntimeDir cfg) seen h"
    and "\<forall>p. w_procs (ne_world env p) = {} \<and> w_conns (ne_world env p) = {}"
  shows "(\<exists>q x. e = Wrapf ''new manager for %s: %w'' [FStr q] x) \<and> (\<forall>m \<in> ran (hs_managers h'). mg_closed m)
    \<or> (\<forall>q x. e \<noteq> Wrapf ''new manager for %s: %w'' [FStr q] x) \<and> (\<forall>m \<in> ran (hs_managers h'). \<not> mg_closed m)"
  using assms(1,2)
proof (induction ps arbitrary: seen h fs)
  case (Cons p ps)
  let ?id = "pl_PluginID p"
  have op: "\<forall>m \<in> ran (hs_managers h). \<not> mg_closed m" and ok: "\<forall>q m. hs_managers h q = Some m \<longrightarrow> mgr_ok m"
    using Cons.prems(2) by (auto simp: host_built_def all_managers_def ran_def mgr_at_def)
  consider x where "ValidatePluginID ?id = Some x" "e = x" "h' = h"
    | "h' = h" "e = err ''plugin path is required'' \<or> e = Errorf ''duplicate plugin id: %s'' [FStr ?id]"
    | x where "e = Wrapf ''new manager for %s: %w'' [FStr ?id] x" "h' = h\<lparr>hs_managers := close_created env (hs_managers h)\<rparr>"
    | m fs1 where "ValidatePluginID ?id = None" "?id \<notin> seen"
        "New (ne_sys env) (ne_log env ?id) (manager_config cfg p) (ne_world env ?id) fs = (Inr m, fs1)"
        "new_managers env cfg ps (insert ?id seen)
          (h\<lparr>hs_managers := (hs_managers h)(?id \<mapsto> m), hs_plugins := hs_plugins h @ [?id]\<rparr>) fs1 = (Some e, h', fs')"
    using Cons.prems(1) by (auto split: option.splits if_splits prod.splits sum.splits)
  then show ?case
  proof cases
    case 1
    then show ?thesis using op ValidatePluginID_not_wrapped by blast
  next
    case 2
    then show ?thesis using op by auto
  next
    case (3 x)
    have "mg_closed m'" if m': "m' \<in> ran (hs_managers h')" for m'
    proof -
      from m' obtain q where "hs_managers h' q = Some m'" by (auto simp: ran_def)
      with 3(2) obtain m where m: "hs_managers h q = Some m" "m' = snd (Close (ne_stop env q) (ne_log_close env q) m)"
        by (auto simp: close_created_def)
      then have "Close (ne_stop env q) (ne_log_close env q) m = (fst (Close (ne_stop env q) (ne_log_close env q) m), m')" by simp
      from Close_fields [OF _ this] show ?thesis using ok m(1) by simp
    qed
    then show ?thesis using 3(1) by blast
  next
    case (4 m fs1)
    have "mgr_at (hc_RuntimeDir cfg) ?id m \<and> clean m \<and> \<not> mg_closed m"
      using New_at [OF 4(3)] assms(3) 4(1) by (simp add: ValidatePluginID_None_iff)
    from Cons.IH [OF 4(4) host_built_add [OF Cons.prems(2) 4(2) this]] show ?thesis .
  qed
qed simp

text \<open>
  What a failed \<open>NewHost\<close> leaves. When the constructor of a manager fails, every manager created
  before it has been closed. When instead a later entry of the configuration is rejected (an invalid id,
  an empty path, a duplicate), every manager created before it is still open, event log included, and
  nothing refers to it any more.
\<close>

theorem NewHost_failure_cleanup:
  assumes "NewHost env cfg fs = (Inl e, fs', ms)" and "\<forall>p. w_procs (ne_world env p) = {} \<and> w_conns (ne_world env p) = {}"
  shows "(\<exists>q x. e = Wrapf ''new manager for %s: %w'' [FStr q] x) \<and> (\<forall>m \<in> ran ms. mg_closed m)
    \<or> (\<forall>q x. e \<noteq> Wrapf ''new manager for %s: %w'' [FStr q] x) \<and> (\<forall>m \<in> ran ms. \<not> mg_closed m)"
proof -
  have b: "host_built (hc_RuntimeDir cfg) {} \<lparr>hs_managers = Map.empty, hs_plugins = []\<rparr>"
    by (simp add: host_built_def all_managers_def)
  consider "ms = Map.empty" "e = err ''runtime dir is required'' \<or> e = err ''at least one plugin is required''"
    | h where "new_managers env cfg (hc_Plugins cfg) {} \<lparr>hs_managers = Map.empty, hs_plugins = []\<rparr> fs = (Some e, h, fs')" "ms = hs_managers h"
    using assms(1) by (auto simp: NewHost_def split: if_splits prod.splits option.splits)
  then show ?thesis
  proof cases
    case 1
    then show ?thesis by auto
  next
    case (2 h)
    show ?thesis using new_managers_failed [OF 2(1) b assms(2)] 2(2) by simp
  qed
qed

theorem NewHost_failure_cleanup_witness:
  "\<exists>e fs' ms m. NewHost sample_host_env (sample_host_config [''echo'', []]) sample_fs = (Inl e, fs', ms)
     \<and> ms ''echo'' = Some m \<and> \<not> mg_closed m"
proof -
  let ?cfg = "sample_host_config [''echo'', []]"
  obtain m fs1 where n: "New (ne_sys sample_host_env) (ne_log sample_host_env ''echo'')
      (manager_config ?cfg (sample_plugin ''echo'')) (ne_world sample_host_env ''echo'') sample_fs = (Inr m, fs1)"
    using sample_host_New by blast
  obtain e where v: "ValidatePluginID [] = Some e" by (simp add: ValidatePluginID_def pluginIDPattern_def)
  have h: "NewHost sample_host_env ?cfg sample_fs = (Inl e, fs1, [''echo'' \<mapsto> m])"
    by (simp add: NewHost_def sample_host_sel sample_valid_ids n v)
  have "\<not> mg_closed m"
    using NewHost_failure_cleanup [OF h] ValidatePluginID_not_wrapped [OF v] by (simp add: sample_host_env_def sample_world_def)
  then show ?thesis using h by fastforce
qed

end
