(* ===== verification/Admin_Rpc.thy ===== *)
theory Admin_Rpc
  imports Kernel_Host_Props
begin

text \<open>
  The admin RPC service (\<open>src/src/internal/adminrpc/adminrpc.go\<close>): its methods over one kernel host, and
  the life of its socket. The methods run in goroutines of the RPC server; each is one step on the host here,
  as the managers below serialise what they do.
\<close>

section \<open>Service methods\<close>

abbreviation no_host :: goerr where "no_host \<equiv> err ''host is required''"

text \<open>\<open>Status\<close> and \<open>Plugins\<close> have the same body.\<close>

definition admin_Status :: "host option \<Rightarrow> goerr + host_state" where
  "admin_Status s = (case s of None \<Rightarrow> Inl no_host | Some h \<Rightarrow> Inr (HostStateOf h))"

definition admin_Plugins :: "host option \<Rightarrow> goerr + host_state" where
  "admin_Plugins s = (case s of None \<Rightarrow> Inl no_host | Some h \<Rightarrow> Inr (HostStateOf h))"

definition admin_Plugin :: "string \<Rightarrow> host option \<Rightarrow> goerr + plugin_state" where
  "admin_Plugin p s =
     (case s of None \<Rightarrow> Inl no_host | Some h \<Rightarrow>
      (case ValidatePluginID p of Some e \<Rightarrow> Inl e | None \<Rightarrow>
      (case Plugin h p of Inl e \<Rightarrow> Inl e | Inr state \<Rightarrow> Inr state)))"

definition admin_Capabilities :: "host option \<Rightarrow> goerr + (string \<rightharpoonup> string list)" where
  "admin_Capabilities s = (case s of None \<Rightarrow> Inl no_host | Some h \<Rightarrow> Inr (CapabilityMap h))"

definition admin_Routes :: "host option \<Rightarrow> goerr + route list" where
  "admin_Routes s = (case s of None \<Rightarrow> Inl no_host | Some h \<Rightarrow> Inr (Routes h))"

definition admin_Echo :: "call_env \<Rightarrow> string \<Rightarrow> string \<Rightarrow> host option \<Rightarrow> (goerr + string) \<times> host option" where
  "admin_Echo env p msg s =
     (case s of None \<Rightarrow> (Inl no_host, s) | Some h \<Rightarrow>
      (case ValidatePluginID p of Some e \<Rightarrow> (Inl e, s) | None \<Rightarrow>
      (case EchoHost env p msg h of
         (Inl e, h') \<Rightarrow> (Inl e, Some h')
       | (Inr message, h') \<Rightarrow> (Inr message, Some h'))))"

definition admin_Heartbeat :: "call_env \<Rightarrow> string \<Rightarrow> host option \<Rightarrow> (goerr + heartbeat_response) \<times> host option" where
  "admin_Heartbeat env p s =
     (case s of None \<Rightarrow> (Inl no_host, s) | Some h \<Rightarrow>
      (case ValidatePluginID p of Some e \<Rightarrow> (Inl e, s) | None \<Rightarrow>
      (case HeartbeatHost env p h of
         ((_, Some e), h') \<Rightarrow> (Inl e, Some h')
       | ((state, None), h') \<Rightarrow> (Inr state, Some h'))))"

definition admin_Restart :: "call_env \<Rightarrow> string \<Rightarrow> host option \<Rightarrow> (goerr + plugin_state) \<times> host option" where
  "admin_Restart env p s =
     (case s of None \<Rightarrow> (Inl no_host, s) | Some h \<Rightarrow>
      (case ValidatePluginID p of Some e \<Rightarrow> (Inl e, s) | None \<Rightarrow>
      (case RestartPlugin env p h of
         (Inl e, h') \<Rightarrow> (Inl e, Some h')
       | (Inr state, h') \<Rightarrow> (Inr state, Some h'))))"

section \<open>Serving\<close>

datatype admin_request =
    AStatus | APlugins | APlugin string | ACapabilities | ARoutes
  | AEcho string string | AHeartbeat string | ARestart string

datatype admin_reply =
    HostStateReply host_state | StateReply plugin_state | CapabilitiesReply "string \<rightharpoonup> string list"
  | RoutesReply "route list" | EchoReply string | HeartbeatReply heartbeat_response

definition reply_of :: "('r \<Rightarrow> admin_reply) \<Rightarrow> goerr + 'r \<Rightarrow> goerr + admin_reply" where
  "reply_of f r = (case r of Inl e \<Rightarrow> Inl e | Inr x \<Rightarrow> Inr (f x))"

fun admin_serve :: "call_env \<Rightarrow> admin_request \<Rightarrow> host option \<Rightarrow> (goerr + admin_reply) \<times> host option" where
  "admin_serve env AStatus s = (reply_of HostStateReply (admin_Status s), s)"
| "admin_serve env APlugins s = (reply_of HostStateReply (admin_Plugins s), s)"
| "admin_serve env (APlugin p) s = (reply_of StateReply (admin_Plugin p s), s)"
| "admin_serve env ACapabilities s = (reply_of CapabilitiesReply (admin_Capabilities s), s)"
| "admin_serve env ARoutes s = (reply_of RoutesReply (admin_Routes s), s)"
| "admin_serve env (AEcho p msg) s = (case admin_Echo env p msg s of (r, s') \<Rightarrow> (reply_of EchoReply r, s'))"
| "admin_serve env (AHeartbeat p) s = (case admin_Heartbeat env p s of (r, s') \<Rightarrow> (reply_of HeartbeatReply r, s'))"
| "admin_serve env (ARestart p) s = (case admin_Restart env p s of (r, s') \<Rightarrow> (reply_of StateReply r, s'))"

fun admin_serve_all :: "(call_env \<times> admin_request) list \<Rightarrow> host option \<Rightarrow> (goerr + admin_reply) list \<times> host option" where
  "admin_serve_all [] s = ([], s)"
| "admin_serve_all ((env, q) # qs) s =
     (case admin_serve env q s of (r, s1) \<Rightarrow> (case admin_serve_all qs s1 of (rs, s2) \<Rightarrow> (r # rs, s2)))"

definition registerAdminService :: "goerr option \<Rightarrow> goerr option" where
  "registerAdminService register = map_option (Wrapf ''register admin rpc: %w'' []) register"

text \<open>
  \<open>serve\<close>: \<open>act\<close> is what happens until accepting ends, in a daemon on its own the requests (\<open>admin_serve_all\<close>);
  \<open>ae_accept\<close> is the error that ends it and \<open>ae_done\<close> whether the context is over by then. The deferred call
  closes the listener, which unlinks the socket.
\<close>

record admin_env =
  ae_sys :: sys_env
  ae_register :: "goerr option"
  ae_done :: bool
  ae_accept :: goerr

definition admin_listen :: "admin_env \<Rightarrow> path \<Rightarrow> (host option \<Rightarrow> (goerr + admin_reply) list \<times> host option) \<Rightarrow> host option \<Rightarrow> fstree
   \<Rightarrow> goerr option \<times> (goerr + admin_reply) list \<times> host option \<times> fstree" where
  "admin_listen env socketPath act s fs =
     (case ListenUnix (ae_sys env) socketPath fs of
        ((Some e, _), fs1) \<Rightarrow> (Some (Wrapf ''listen admin socket: %w'' [] e), [], s, fs1)
      | ((None, _), fs1) \<Rightarrow>
          (case registerAdminService (ae_register env) of
             Some e \<Rightarrow> (Some e, [], s, fs1(socketPath := None))
           | None \<Rightarrow>
               (case act s of
                  (rs, s') \<Rightarrow>
                    (if ae_done env then None else Some (Wrapf ''accept admin socket: %w'' [] (ae_accept env)),
                     rs, s', fs1(socketPath := None)))))"

definition Dial :: "goerr + nat \<Rightarrow> goerr + nat" where
  "Dial conn = (case conn of Inl e \<Rightarrow> Inl (Wrapf ''dial admin socket: %w'' [] e) | Inr c \<Rightarrow> Inr c)"

section \<open>Lemmas\<close>

fun target :: "admin_request \<Rightarrow> string option" where
  "target (APlugin p) = Some p"
| "target (AEcho p msg) = Some p"
| "target (AHeartbeat p) = Some p"
| "target (ARestart p) = Some p"
| "target _ = None"

fun read_only :: "admin_request \<Rightarrow> bool" where
  "read_only (AEcho p msg) = False"
| "read_only (AHeartbeat p) = False"
| "read_only (ARestart p) = False"
| "read_only _ = True"

text \<open>What a request does to the host: nothing, or one operation of the target's manager.\<close>

definition moved :: "string \<Rightarrow> host \<Rightarrow> host \<Rightarrow> bool" where
  "moved p h h' \<longleftrightarrow> h' = h \<or> (\<exists>m x s m'. hs_managers h p = Some m \<and> exec x m = (s, m') \<and> h' = set_manager p m' h)"

lemma movedI: "hs_managers h p = Some m \<Longrightarrow> h' = set_manager p (snd (exec x m)) h \<Longrightarrow> moved p h h'"
  unfolding moved_def by (metis surjective_pairing)

lemma EchoHost_moved: "EchoHost (quiet_call out plug kenv senv) p msg h = (r, h') \<Longrightarrow> moved p h h'"
proof -
  assume a: "EchoHost (quiet_call out plug kenv senv) p msg h = (r, h')"
  show ?thesis
  proof (cases "hs_managers h p")
    case (Some m)
    have "h' = set_manager p (snd (exec (OpEcho plug msg) m)) h"
      using a Some by (auto simp: EchoHost_def RouteTarget_def ManagerOf_def quiet_call_def split: prod.splits)
    then show ?thesis by (rule movedI [OF Some])
  qed (use a in \<open>simp add: EchoHost_def RouteTarget_def ManagerOf_def moved_def\<close>)
qed

lemma HeartbeatHost_moved: "HeartbeatHost (quiet_call out plug kenv senv) p h = (r, h') \<Longrightarrow> moved p h h'"
proof -
  assume a: "HeartbeatHost (quiet_call out plug kenv senv) p h = (r, h')"
  show ?thesis
  proof (cases "hs_managers h p")
    case (Some m)
    have "h' = set_manager p (snd (exec (OpHeartbeat out) m)) h"
      using a Some by (auto simp: HeartbeatHost_def RouteTarget_def ManagerOf_def quiet_call_def split: prod.splits)
    then show ?thesis by (rule movedI [OF Some])
  qed (use a in \<open>simp add: HeartbeatHost_def RouteTarget_def ManagerOf_def moved_def\<close>)
qed

lemma RestartPlugin_moved: "RestartPlugin (quiet_call out plug kenv senv) p h = (r, h') \<Longrightarrow> moved p h h'"
  using CallRequest_exec [of out plug kenv senv "\<lparr>rq_PluginID = p, rq_Call = RoutedCallRestart, rq_Arg = VNil\<rparr>" h]
  by (auto simp: RestartPlugin_def CallHost_def moved_def split: prod.splits sum.splits body.splits)

lemma admin_serve_moved:
  assumes "admin_serve (quiet_call out plug kenv senv) q (Some h) = (r, s')"
  shows "\<exists>h'. s' = Some h' \<and> (h' = h \<or> (\<exists>p. target q = Some p \<and> ValidatePluginID p = None \<and> \<not> read_only q \<and> moved p h h'))"
proof (cases q)
  case (AEcho p msg)
  then show ?thesis using assms EchoHost_moved [of out plug kenv senv p msg h]
    by (auto simp: admin_Echo_def split: option.splits prod.splits sum.splits)
next
  case (AHeartbeat p)
  then show ?thesis using assms HeartbeatHost_moved [of out plug kenv senv p h]
    by (auto simp: admin_Heartbeat_def split: option.splits prod.splits)
next
  case (ARestart p)
  then show ?thesis using assms RestartPlugin_moved [of out plug kenv senv p h]
    by (auto simp: admin_Restart_def split: option.splits prod.splits sum.splits)
qed (use assms in auto)

lemma moved_ok: "host_ok root h \<Longrightarrow> moved p h h' \<Longrightarrow> host_ok root h' \<and> hs_plugins h' = hs_plugins h \<and> (\<forall>q. q \<noteq> p \<longrightarrow> hs_managers h' q = hs_managers h q)"
  using host_ok_set host_ok_at mgr_at_exec unfolding moved_def by (fastforce simp: set_manager_def)

lemma admin_serve_invalid:
  assumes "target q = Some p" and "ValidatePluginID p = Some e"
  shows "admin_serve env q (Some h) = (Inl e, Some h)"
  using assms by (cases q) (simp_all add: admin_Plugin_def admin_Echo_def admin_Heartbeat_def admin_Restart_def reply_of_def)

definition undisturbed :: "call_env \<Rightarrow> bool" where
  "undisturbed env \<longleftrightarrow> rc_intf env = id \<and> (\<exists>out. rc_heartbeat env = quiet_heartbeat out)"

lemma undisturbed_quiet: "undisturbed env \<Longrightarrow> \<exists>out plug kenv senv. env = quiet_call out plug kenv senv"
  by (cases env) (auto simp: undisturbed_def quiet_call_def)

lemma admin_serve_step:
  assumes "undisturbed env" and "host_ok root h" and "admin_serve env q (Some h) = (r, s')"
  shows "\<exists>h'. s' = Some h' \<and> host_ok root h' \<and> hs_plugins h' = hs_plugins h
    \<and> (\<forall>p. hs_managers h' p \<noteq> hs_managers h p \<longrightarrow> target q = Some p \<and> \<not> read_only q)"
proof -
  obtain out plug kenv senv where e: "env = quiet_call out plug kenv senv" using undisturbed_quiet [OF assms(1)] by blast
  then obtain h' where h': "s' = Some h'"
    and c: "h' = h \<or> (\<exists>p. target q = Some p \<and> ValidatePluginID p = None \<and> \<not> read_only q \<and> moved p h h')"
    using admin_serve_moved assms(3) by blast
  from c show ?thesis
  proof
    assume "h' = h"
    then show ?thesis using h' assms(2) by simp
  next
    assume "\<exists>p. target q = Some p \<and> ValidatePluginID p = None \<and> \<not> read_only q \<and> moved p h h'"
    then obtain p where p: "target q = Some p" "\<not> read_only q" "moved p h h'" by blast
    note k = moved_ok [OF assms(2) p(3)]
    have same: "q' = p" if "hs_managers h' q' \<noteq> hs_managers h q'" for q'
      by (rule ccontr) (use conjunct2 [OF conjunct2 [OF k], rule_format, of q'] that in simp)
    show ?thesis
    proof (intro exI [of _ h'] conjI allI impI)
      fix q' assume "hs_managers h' q' \<noteq> hs_managers h q'"
      from same [OF this] show "target q = Some q'" "\<not> read_only q" using p(1,2) by simp_all
    qed (rule h', rule conjunct1 [OF k], rule conjunct1 [OF conjunct2 [OF k]])
  qed
qed

section \<open>Properties\<close>

text \<open>
  C33: the admin surface cannot corrupt or cross. Any sequence of admin requests to a consistent host leaves it
  consistent with the same plugins; a manager changes only if some request other than a read targets its id;
  and a request naming an invalid id is answered with the validation error.
\<close>

theorem admin_requests_confined:
  assumes "host_ok root h" and "\<forall>(env, q) \<in> set qs. undisturbed env" and "admin_serve_all qs (Some h) = (rs, s')"
  shows "length rs = length qs
    \<and> (\<exists>h'. s' = Some h' \<and> host_ok root h' \<and> hs_plugins h' = hs_plugins h
        \<and> (\<forall>p. hs_managers h' p \<noteq> hs_managers h p \<longrightarrow> (\<exists>(env, q) \<in> set qs. target q = Some p \<and> \<not> read_only q)))
    \<and> (\<forall>i < length qs. \<forall>p e. target (snd (qs ! i)) = Some p \<longrightarrow> ValidatePluginID p = Some e \<longrightarrow> rs ! i = Inl e)"
  using assms
proof (induction qs arbitrary: h rs)
  case (Cons x qs)
  obtain env q where x: "x = (env, q)" by (cases x)
  obtain r s1 where a: "admin_serve env q (Some h) = (r, s1)" by (cases "admin_serve env q (Some h)")
  obtain rs1 where b: "admin_serve_all qs s1 = (rs1, s')" "rs = r # rs1" using Cons.prems(3) a x by (auto split: prod.splits)
  have "undisturbed env" using Cons.prems(2) x by simp
  from admin_serve_step [OF this Cons.prems(1) a] obtain h1 where h1: "s1 = Some h1" "host_ok root h1" "hs_plugins h1 = hs_plugins h"
    and c: "\<forall>p. hs_managers h1 p \<noteq> hs_managers h p \<longrightarrow> target q = Some p \<and> \<not> read_only q" by blast
  have u: "\<forall>(env, q) \<in> set qs. undisturbed env" using Cons.prems(2) by simp
  note ih = Cons.IH [OF h1(2) u b(1) [unfolded h1(1)]]
  show ?case
  proof (intro conjI allI impI)
    show "length rs = length (x # qs)" using ih b(2) by simp
    from ih obtain h' where h': "s' = Some h'" "host_ok root h'" "hs_plugins h' = hs_plugins h1"
      and d: "\<forall>p. hs_managers h' p \<noteq> hs_managers h1 p \<longrightarrow> (\<exists>(env, q) \<in> set qs. target q = Some p \<and> \<not> read_only q)" by blast
    have "\<exists>(env, q) \<in> set (x # qs). target q = Some p \<and> \<not> read_only q" if "hs_managers h' p \<noteq> hs_managers h p" for p
      using that c d x by (cases "hs_managers h' p = hs_managers h1 p") auto
    then show "\<exists>h'. s' = Some h' \<and> host_ok root h' \<and> hs_plugins h' = hs_plugins h
        \<and> (\<forall>p. hs_managers h' p \<noteq> hs_managers h p \<longrightarrow> (\<exists>(env, q) \<in> set (x # qs). target q = Some p \<and> \<not> read_only q))"
      using h' h1(3) by (intro exI [of _ h'] conjI allI impI) simp_all
  next
    fix i p e assume i: "i < length (x # qs)" "target (snd ((x # qs) ! i)) = Some p" "ValidatePluginID p = Some e"
    show "rs ! i = Inl e"
    proof (cases i)
      case 0
      then show ?thesis using i admin_serve_invalid [of q p e env h] a b(2) x by simp
    next
      case (Suc k)
      then show ?thesis using i conjunct2 [OF conjunct2 [OF ih], rule_format, of k p e] b(2) by simp
    qed
  qed
next
  case Nil
  then have "s' = Some h" "rs = []" by simp_all
  then show ?case using Nil by simp
qed

theorem admin_requests_confined_witness:
  "\<exists>rs h'. admin_serve_all [(quiet_call CallTimeout (\<lambda>s. Reply s) sample_stop sample_start, ARestart ''../x''),
      (quiet_call CallTimeout (\<lambda>s. Reply s) sample_stop sample_start, APlugin ''echo'')] (Some sample_host) = (rs, Some h')
    \<and> hs_managers h' = hs_managers sample_host \<and> (\<exists>e. rs ! 0 = Inl e)"
proof -
  let ?env = "quiet_call CallTimeout (\<lambda>s. Reply s) sample_stop sample_start"
  let ?qs = "[(?env, ARestart ''../x''), (?env, APlugin ''echo'')]"
  obtain rs s' where r: "admin_serve_all ?qs (Some sample_host) = (rs, s')" by (cases "admin_serve_all ?qs (Some sample_host)")
  have bad: "ValidatePluginID ''../x'' = Some (the (ValidatePluginID ''../x''))" by code_simp
  have u: "\<forall>(env, q) \<in> set ?qs. undisturbed env" by (auto simp: undisturbed_def quiet_call_def)
  note p = admin_requests_confined [OF sample_host_ok(1) u r]
  then obtain h' where h': "s' = Some h'"
    "\<forall>p. hs_managers h' p \<noteq> hs_managers sample_host p \<longrightarrow> (\<exists>(env, q) \<in> set ?qs. target q = Some p \<and> \<not> read_only q)" by blast
  have e: "rs ! 0 = Inl (the (ValidatePluginID ''../x''))"
    using conjunct2 [OF conjunct2 [OF p], rule_format, of 0 "''../x''"] bad by simp
  have "hs_managers sample_host ''../x'' = None" by (simp add: sample_host_def)
  moreover have "hs_managers h' ''../x'' = None"
    using r h'(1) bad by (auto simp: admin_Restart_def admin_Plugin_def sample_host_def split: option.splits)
  ultimately have "hs_managers h' = hs_managers sample_host" using h'(2) by fastforce
  then show ?thesis using r h'(1) e by blast
qed

text \<open>
  The admin socket does not outlive the service. However serving ends (listening or registration fails,
  accepting fails, the context is cancelled), no socket is left at its path unless listening itself failed
  before creating one, no other path changes, and cancellation alone is not an error.
\<close>

theorem admin_socket_removed:
  assumes "admin_listen env socketPath act s fs = (e, rs, s', fs')"
  shows "(sys_listen (ae_sys env) = None \<longrightarrow> fs' socketPath = None)
    \<and> (\<forall>q. q \<noteq> socketPath \<longrightarrow> fs' q = fs q)
    \<and> (e = None \<longleftrightarrow> sys_listen (ae_sys env) = None \<and> sys_chmod (ae_sys env) = None \<and> ae_register env = None \<and> ae_done env)
    \<and> (e = None \<longrightarrow> act s = (rs, s'))"
  using assms
  by (auto simp: admin_listen_def ListenUnix_def registerAdminService_def remove_path_def chmod_file_def Let_def
      split: option.splits prod.splits if_splits)

theorem admin_socket_removed_witness:
  "\<exists>rs s' fs'. admin_listen \<lparr>ae_sys = quiet_sys, ae_register = None, ae_done = True, ae_accept = Sentinel NetErrClosed\<rparr>
      ''/r/admin.sock'' (admin_serve_all []) None Map.empty = (None, rs, s', fs') \<and> fs' ''/r/admin.sock'' = None"
proof -
  let ?env = "\<lparr>ae_sys = quiet_sys, ae_register = None, ae_done = True, ae_accept = Sentinel NetErrClosed\<rparr>"
  obtain e rs s' fs' where r: "admin_listen ?env ''/r/admin.sock'' (admin_serve_all []) None Map.empty = (e, rs, s', fs')"
    by (cases "admin_listen ?env ''/r/admin.sock'' (admin_serve_all []) None Map.empty")
  from admin_socket_removed [OF r] show ?thesis using r by (simp add: quiet_sys_def)
qed

end
