(* ===== verification/Daemon.thy ===== *)
theory Daemon
  imports Admin_Rpc Go_Flags
begin

text \<open>
  The daemon (\<open>src/src/cmd/rpcplugind/main.go\<close>): plugin specifications, the merge of flags, configuration
  file and defaults, and the run of the daemon from construction of the host to its closing.

  Arguments of the model: the TOML decoder, reading a file, and the outcomes the host and the
  admin service meet; the flag package is modelled in \<open>Go_Flags\<close>.
\<close>

section \<open>Configuration\<close>

record daemon_options =
  do_ConfigPath :: path
  do_RuntimeDir :: path
  do_PluginsArg :: string
  do_PluginID :: string
  do_PluginPath :: path
  do_DialTimeout :: duration
  do_CallTimeout :: duration
  do_HeartbeatEvery :: duration
  do_ExplicitFlags :: "string \<Rightarrow> bool"

record toml_plugin =
  tm_ID :: string
  tm_Path :: path

record toml_config =
  tm_RuntimeDir :: path
  tm_DialTimeout :: string
  tm_CallTimeout :: string
  tm_HeartbeatEvery :: string
  tm_Plugins :: "toml_plugin list"

record resolved_config =
  rd_Host :: host_config
  rd_AdminSocket :: path

record config_env =
  ge_TempDir :: path
  ge_ReadFile :: "path \<Rightarrow> goerr + string"
  ge_Decode :: "string \<Rightarrow> goerr + toml_config"

definition zero_toml :: toml_config where
  "zero_toml = \<lparr>tm_RuntimeDir = [], tm_DialTimeout = [], tm_CallTimeout = [], tm_HeartbeatEvery = [], tm_Plugins = []\<rparr>"

definition loadTOMLConfig :: "config_env \<Rightarrow> path \<Rightarrow> goerr + toml_config" where
  "loadTOMLConfig env p =
     (if p = [] then Inr zero_toml
      else (case ge_ReadFile env p of
        Inl e \<Rightarrow> Inl (Wrapf ''read config %s: %w'' [FStr p] e)
      | Inr data \<Rightarrow>
          (case ge_Decode env data of
             Inl e \<Rightarrow> Inl (Wrapf ''parse config %s: %w'' [FStr p] e)
           | Inr cfg \<Rightarrow> Inr cfg)))"

definition defaultRuntimeDir :: "config_env \<Rightarrow> path \<Rightarrow> path" where
  "defaultRuntimeDir env value = (if value \<noteq> [] then value else Join [ge_TempDir env, ''rpc_plugin_system''])"

definition defaultDuration :: "duration \<Rightarrow> duration \<Rightarrow> duration" where
  "defaultDuration value fallback = (if value \<noteq> 0 then value else fallback)"

definition chooseString :: "(string \<Rightarrow> bool) \<Rightarrow> string \<Rightarrow> string \<Rightarrow> string \<Rightarrow> string \<Rightarrow> string" where
  "chooseString explicit flagName flagValue fileValue fallback =
     (if explicit flagName then flagValue else if fileValue \<noteq> [] then fileValue else fallback)"

definition chooseDuration ::
  "(string \<Rightarrow> bool) \<Rightarrow> string \<Rightarrow> duration \<Rightarrow> string \<Rightarrow> duration \<Rightarrow> goerr + duration" where
  "chooseDuration explicit flagName flagValue fileValue fallback =
     (if explicit flagName then Inr flagValue
      else if fileValue \<noteq> [] then (case ParseDuration fileValue of Inl e \<Rightarrow> Inl e | Inr d \<Rightarrow> Inr d)
      else Inr fallback)"

text \<open>\<open>strings.SplitN(s, "=", 2)\<close>.\<close>

definition splitN2 :: "char \<Rightarrow> string \<Rightarrow> string list" where
  "splitN2 d s = (if d \<in> set s then [takeWhile (\<lambda>c. c \<noteq> d) s, tl (dropWhile (\<lambda>c. c \<noteq> d) s)] else [s])"

definition plain_plugin :: "string \<Rightarrow> path \<Rightarrow> plugin_config" where
  "plain_plugin p path = \<lparr>pl_PluginID = p, pl_PluginPath = path, pl_Metadata = None, pl_Refresh = None\<rparr>"

text \<open>The loop over the comma-separated specifications.\<close>

fun parse_specs :: "string list \<Rightarrow> goerr + plugin_config list" where
  "parse_specs [] = Inr []"
| "parse_specs (part # parts) =
     (let part = TrimSpace part; fields = splitN2 (CHR ''='') part
      in if length fields \<noteq> 2 \<or> fields ! 0 = [] \<or> fields ! 1 = [] then
           Inl (Errorf ''invalid plugin spec %q, want id=path'' [FStr part])
         else (case ValidatePluginID (fields ! 0) of
           Some e \<Rightarrow> Inl e
         | None \<Rightarrow>
             (case parse_specs parts of
                Inl e \<Rightarrow> Inl e
              | Inr ps \<Rightarrow> Inr (plain_plugin (fields ! 0) (fields ! 1) # ps))))"

definition parsePlugins :: "string \<Rightarrow> string \<Rightarrow> path \<Rightarrow> goerr + plugin_config list" where
  "parsePlugins pluginsArg pluginID pluginPath =
     (if pluginsArg \<noteq> [] then parse_specs (split_on (CHR '','') pluginsArg)
      else if pluginPath = [] then Inl (err ''-plugin is required when -plugins is not set'')
      else (case ValidatePluginID pluginID of Some e \<Rightarrow> Inl e | None \<Rightarrow> Inr [plain_plugin pluginID pluginPath]))"

fun file_plugins :: "toml_plugin list \<Rightarrow> goerr + plugin_config list" where
  "file_plugins [] = Inr []"
| "file_plugins (p # ps) =
     (if tm_ID p = [] \<or> tm_Path p = [] then Inl (err ''invalid config plugin, id and path are required'')
      else (case ValidatePluginID (tm_ID p) of
        Some e \<Rightarrow> Inl e
      | None \<Rightarrow> (case file_plugins ps of Inl e \<Rightarrow> Inl e | Inr cs \<Rightarrow> Inr (plain_plugin (tm_ID p) (tm_Path p) # cs))))"

definition resolvePlugins :: "daemon_options \<Rightarrow> toml_plugin list \<Rightarrow> goerr + plugin_config list" where
  "resolvePlugins opts filePlugins =
     (if do_ExplicitFlags opts ''plugins'' then parsePlugins (do_PluginsArg opts) (do_PluginID opts) (do_PluginPath opts)
      else if do_ExplicitFlags opts ''plugin'' \<or> do_ExplicitFlags opts ''plugin-id'' then
        parsePlugins [] (do_PluginID opts) (do_PluginPath opts)
      else if filePlugins \<noteq> [] then file_plugins filePlugins
      else parsePlugins (do_PluginsArg opts) (do_PluginID opts) (do_PluginPath opts))"

definition parseDaemonConfig :: "config_env \<Rightarrow> daemon_options \<Rightarrow> goerr + resolved_config" where
  "parseDaemonConfig env opts =
     (case loadTOMLConfig env (do_ConfigPath opts) of Inl e \<Rightarrow> Inl e | Inr fileCfg \<Rightarrow>
      (let explicit = do_ExplicitFlags opts;
           runtimeDir = chooseString explicit ''runtime-dir'' (do_RuntimeDir opts) (tm_RuntimeDir fileCfg) (defaultRuntimeDir env (do_RuntimeDir opts))
       in case chooseDuration explicit ''dial-timeout'' (do_DialTimeout opts) (tm_DialTimeout fileCfg)
                 (defaultDuration (do_DialTimeout opts) (3 * second)) of
            Inl e \<Rightarrow> Inl (Wrapf ''dial_timeout: %w'' [] e) | Inr dialTimeout \<Rightarrow>
         (case chooseDuration explicit ''call-timeout'' (do_CallTimeout opts) (tm_CallTimeout fileCfg)
                 (defaultDuration (do_CallTimeout opts) (500 * millisecond)) of
            Inl e \<Rightarrow> Inl (Wrapf ''call_timeout: %w'' [] e) | Inr callTimeout \<Rightarrow>
         (case chooseDuration explicit ''heartbeat-every'' (do_HeartbeatEvery opts) (tm_HeartbeatEvery fileCfg)
                 (defaultDuration (do_HeartbeatEvery opts) (2 * second)) of
            Inl e \<Rightarrow> Inl (Wrapf ''heartbeat_every: %w'' [] e) | Inr heartbeatEvery \<Rightarrow>
         (case resolvePlugins opts (tm_Plugins fileCfg) of Inl e \<Rightarrow> Inl e | Inr plugins \<Rightarrow>
            Inr \<lparr>rd_Host = \<lparr>hc_RuntimeDir = runtimeDir, hc_EventLogPath = [], hc_DialTimeout = dialTimeout,
                    hc_CallTimeout = callTimeout, hc_HeartbeatEvery = heartbeatEvery, hc_Plugins = plugins,
                    hc_DisableRedaction = False\<rparr>,
                 rd_AdminSocket = Join [runtimeDir, ''admin.sock'']\<rparr>)))))"

section \<open>Running\<close>

text \<open>The flags \<open>run\<close> defines, the flags that were set, and the options with their defaults.\<close>

definition daemon_flags :: "string \<Rightarrow> flag_kind option" where
  "daemon_flags nm =
     (if nm \<in> {''config'', ''runtime-dir'', ''plugins'', ''plugin'', ''plugin-id''} then Some FlagString
      else if nm \<in> {''dial-timeout'', ''call-timeout'', ''heartbeat-every''} then Some FlagDuration
      else None)"

definition explicitFlags :: "settings \<Rightarrow> string \<Rightarrow> bool" where
  "explicitFlags fs nm = list_ex (\<lambda>(f, _). f = nm) fs"

definition flag_daemon_options :: "path \<Rightarrow> settings \<Rightarrow> daemon_options" where
  "flag_daemon_options tempDir fs =
     \<lparr>do_ConfigPath = String_flag fs ''config'' [],
      do_RuntimeDir = String_flag fs ''runtime-dir'' (Join [tempDir, ''rpc_plugin_system'']),
      do_PluginsArg = String_flag fs ''plugins'' [],
      do_PluginID = String_flag fs ''plugin-id'' ''echo'',
      do_PluginPath = String_flag fs ''plugin'' [],
      do_DialTimeout = typed_flag ParseDuration fs ''dial-timeout'' (3 * second),
      do_CallTimeout = typed_flag ParseDuration fs ''call-timeout'' (500 * millisecond),
      do_HeartbeatEvery = typed_flag ParseDuration fs ''heartbeat-every'' (2 * second),
      do_ExplicitFlags = explicitFlags fs\<rparr>"

text \<open>While the daemon runs, ticks of the monitor loops and admin requests happen in any order.\<close>

datatype daemon_event = DTick string tick_env | DAdmin call_env admin_request

fun daemon_activity :: "daemon_event list \<Rightarrow> host option \<Rightarrow> (goerr + admin_reply) list \<times> host option" where
  "daemon_activity [] s = ([], s)"
| "daemon_activity (DTick p t # evs) s =
     daemon_activity evs
       (case s of None \<Rightarrow> None | Some h \<Rightarrow>
          (case hs_managers h p of None \<Rightarrow> s | Some m \<Rightarrow> Some (set_manager p (snd (monitor_tick t m)) h)))"
| "daemon_activity (DAdmin env q # evs) s =
     (case admin_serve env q s of (r, s1) \<Rightarrow> (case daemon_activity evs s1 of (rs, s2) \<Rightarrow> (r # rs, s2)))"

text \<open>
  \<open>dn_before\<close> are the ticks that come before the admin service listens. \<open>dn_panic\<close> is when one of the goroutines
  that \<open>MonitorLoop\<close> started is first scheduled: not before \<open>run\<close> returns (\<open>None\<close>), before the admin service listens
  (\<open>Some False\<close>) or while it serves (\<open>Some True\<close>). It matters only if that goroutine panics.
\<close>

record daemon_env =
  dn_config :: config_env
  dn_host :: host_env
  dn_start :: "string \<Rightarrow> start_env"
  dn_kill :: "string \<Rightarrow> stop_env"
  dn_before :: "daemon_event list"
  dn_admin :: admin_env
  dn_serving :: "daemon_event list"
  dn_close :: "string \<Rightarrow> stop_env"
  dn_log_close :: "string \<Rightarrow> goerr option"
  dn_panic :: "bool option"

text \<open>A panic in a goroutine ends the process with exit code 2; no deferred call of \<open>run\<close> is executed.\<close>

definition daemon_panic :: "daemon_env \<Rightarrow> path \<Rightarrow> bool \<Rightarrow> host \<Rightarrow> fstree \<Rightarrow> int \<times> host option \<times> fstree" where
  "daemon_panic env socketPath serving h fs =
     (let s = snd (daemon_activity (dn_before env) (Some h))
      in if \<not> serving then (2, s, fs)
         else (case ListenUnix (ae_sys (dn_admin env)) socketPath fs of
                 ((Some e, _), fs1) \<Rightarrow> (2, s, fs1)
               | ((None, _), fs1) \<Rightarrow> (2, snd (daemon_activity (dn_serving env) s), fs1)))"

text \<open>Exit code, the host as the deferred \<open>Close\<close> leaves it (if one was constructed), and the files.\<close>

definition daemon_run :: "daemon_env \<Rightarrow> string list \<Rightarrow> fstree \<Rightarrow> int \<times> host option \<times> fstree" where
  "daemon_run env args fs =
     (case flag_scan daemon_flags args of
        Inl e \<Rightarrow> (if e = ErrHelp then 0 else 2, None, fs)
      | Inr (settings, _) \<Rightarrow>
          (case parseDaemonConfig (dn_config env) (flag_daemon_options (ge_TempDir (dn_config env)) settings) of
             Inl e \<Rightarrow> (1, None, fs)
           | Inr cfg \<Rightarrow>
               (case NewHost (dn_host env) (rd_Host cfg) fs of
                  (Inl e, fs1, _) \<Rightarrow> (1, None, fs1)
                | (Inr host, fs1, _) \<Rightarrow>
                    (let close = (\<lambda>h. snd (CloseHost (dn_close env) (dn_log_close env) h))
                     in case StartAll (dn_start env) (dn_kill env) host of
                          (Some e, h1) \<Rightarrow> (1, Some (close h1), fs1)
                        | (None, h1) \<Rightarrow>
                            (if monitor_panics h1 \<and> dn_panic env \<noteq> None then
                               daemon_panic env (rd_AdminSocket cfg) (the (dn_panic env)) h1 fs1
                             else (case admin_listen (dn_admin env) (rd_AdminSocket cfg) (daemon_activity (dn_serving env))
                                    (snd (daemon_activity (dn_before env) (Some h1))) fs1 of
                               (e, _, s2, fs2) \<Rightarrow> (if e = None then 0 else 1, map_option close s2, fs2)))))))"

section \<open>Lemmas\<close>

lemma id_no_sep: "pluginIDPattern p \<Longrightarrow> CHR ''='' \<notin> set p \<and> CHR '','' \<notin> set p"
  by (auto simp: pluginIDPattern_def id_char_def byte_class_defs list_all_iff split: list.splits)

lemma id_graph: "pluginIDPattern p \<Longrightarrow> p \<noteq> [] \<and> graph_byte (hd p)"
  by (auto simp: pluginIDPattern_def graph_byte_def byte_class_defs split: list.splits)

lemma splitN2_sep: "d \<notin> set u \<Longrightarrow> splitN2 d (u @ d # v) = [u, v]"
  by (induction u) (auto simp: splitN2_def)

definition spec_ok :: "string \<times> path \<Rightarrow> bool" where
  "spec_ok = (\<lambda>(p, path). ValidatePluginID p = None \<and> path \<noteq> [] \<and> CHR '','' \<notin> set path \<and> graph_byte (last path))"

definition print_spec :: "string \<times> path \<Rightarrow> string" where
  "print_spec = (\<lambda>(p, path). p @ CHR ''='' # path)"

lemma parse_print_specs:
  "list_all spec_ok ps \<Longrightarrow> parse_specs (map print_spec ps) = Inr (map (\<lambda>(p, path). plain_plugin p path) ps)"
proof (induction ps)
  case (Cons x ps)
  obtain p q where x: "x = (p, q)" by (cases x)
  have p: "pluginIDPattern p" "ValidatePluginID p = None" and q: "q \<noteq> []" "graph_byte (last q)"
    using Cons.prems x by (simp_all add: spec_ok_def ValidatePluginID_None_iff)
  have "TrimSpace (p @ CHR ''='' # q) = p @ CHR ''='' # q"
    using id_graph [OF p(1)] q by (intro TrimSpace_graph) simp_all
  then show ?case using Cons x p q id_no_sep [OF p(1)] id_graph [OF p(1)] by (simp add: print_spec_def splitN2_sep)
qed simp

lemma print_spec_no_comma: "spec_ok x \<Longrightarrow> CHR '','' \<notin> set (print_spec x)"
  using id_no_sep by (auto simp: spec_ok_def print_spec_def ValidatePluginID_None_iff)

definition config_ok :: "plugin_config \<Rightarrow> bool" where
  "config_ok c \<longleftrightarrow> ValidatePluginID (pl_PluginID c) = None \<and> pl_PluginPath c \<noteq> []"

lemma parse_specs_ok: "parse_specs parts = Inr ps \<Longrightarrow> length ps = length parts \<and> list_all config_ok ps"
  by (induction parts arbitrary: ps) (auto simp: Let_def config_ok_def plain_plugin_def split: if_splits option.splits sum.splits)

lemma parsePlugins_ok: "parsePlugins arg p path = Inr ps \<Longrightarrow> ps \<noteq> [] \<and> list_all config_ok ps"
  using parse_specs_ok [of "split_on (CHR '','') arg" ps]
  by (auto simp: parsePlugins_def config_ok_def plain_plugin_def split: if_splits option.splits)

lemma file_plugins_ok: "file_plugins fps = Inr ps \<Longrightarrow> length ps = length fps \<and> list_all config_ok ps"
  by (induction fps arbitrary: ps) (auto simp: config_ok_def plain_plugin_def split: if_splits option.splits sum.splits)

lemma resolvePlugins_ok: "resolvePlugins opts fps = Inr ps \<Longrightarrow> ps \<noteq> [] \<and> list_all config_ok ps"
  using parsePlugins_ok file_plugins_ok by (fastforce simp: resolvePlugins_def split: if_splits)

fun undisturbed_event :: "daemon_event \<Rightarrow> bool" where
  "undisturbed_event (DTick p t) = (mt_closed t = id \<and> (\<exists>out. mt_heartbeat t = quiet_heartbeat out))"
| "undisturbed_event (DAdmin env q) = undisturbed env"

lemma undisturbed_tick: "undisturbed_event (DTick p t) \<Longrightarrow> \<exists>out kenv senv. t = quiet_tick out kenv senv"
  by (cases t) (auto simp: quiet_tick_def)

lemma daemon_activity_ok:
  "host_ok root h \<Longrightarrow> list_all undisturbed_event evs \<Longrightarrow> daemon_activity evs (Some h) = (rs, s') \<Longrightarrow>
   \<exists>h'. s' = Some h' \<and> host_ok root h' \<and> hs_plugins h' = hs_plugins h"
proof (induction evs arbitrary: h rs)
  case (Cons ev evs)
  show ?case
  proof (cases ev)
    case (DTick p t)
    show ?thesis
    proof (cases "hs_managers h p")
      case None
      then show ?thesis using Cons DTick by simp
    next
      case (Some m)
      obtain out kenv senv where t: "t = quiet_tick out kenv senv"
        using undisturbed_tick [of p t] Cons.prems(2) DTick by auto
      have "mgr_at root p (snd (monitor_tick t m))"
        using mgr_at_tick [OF host_ok_at [OF Cons.prems(1) Some]] t by (cases "monitor_tick t m") simp
      from host_ok_set [OF Cons.prems(1) Some this] Cons.IH [of "set_manager p (snd (monitor_tick t m)) h" rs] show ?thesis
        using Cons.prems(2,3) DTick Some by simp
    qed
  next
    case (DAdmin env q)
    obtain r s1 where a: "admin_serve env q (Some h) = (r, s1)" by (cases "admin_serve env q (Some h)")
    have "undisturbed env" using Cons.prems(2) DAdmin by simp
    from admin_serve_step [OF this Cons.prems(1) a] obtain h1 where h1: "s1 = Some h1" "host_ok root h1" "hs_plugins h1 = hs_plugins h"
      by blast
    obtain rs1 where "daemon_activity evs (Some h1) = (rs1, s')" using Cons.prems(3) DAdmin a h1(1) by (auto split: prod.splits)
    from Cons.IH [OF h1(2) _ this] show ?thesis using Cons.prems(2) h1(3) by simp
  qed
next
  case Nil
  then have "s' = Some h" by simp
  then show ?case using Nil by simp
qed

lemma CloseHost_all_closed:
  assumes "host_ok root h" and "hs_managers (snd (CloseHost kenv lc h)) p = Some m"
  shows "mg_closed m \<and> \<not> attached m"
proof -
  obtain r h' where c: "CloseHost kenv lc h = (r, h')" by (cases "CloseHost kenv lc h")
  have d: "distinct (hs_plugins h)" "all_managers (mgr_at root) (hs_managers h)" using assms(1) by (simp_all add: host_ok_def)
  have "host_ok root h' \<and> hs_plugins h' = hs_plugins h" by (rule CloseHost_ok [OF assms(1) c])
  then have "p \<in> set (hs_plugins h)" using assms(2) c by (auto simp: host_ok_def)
  then show ?thesis using sm.close_all [OF d c [unfolded CloseHost_def]] assms(2) c by simp
qed

lemma admin_listen_done: "admin_listen env sock act s fs = (None, rs, s', fs') \<Longrightarrow> ae_done env"
  by (auto simp: admin_listen_def split: prod.splits option.splits if_splits)

lemma admin_listen_host: "admin_listen env sock act s fs = (e, rs, s', fs') \<Longrightarrow> s' = s \<or> act s = (rs, s')"
  by (auto simp: admin_listen_def split: prod.splits option.splits)

lemma admin_listen_ok:
  assumes "host_ok root h1" and "list_all undisturbed_event (before @ serving)"
    and "admin_listen env sock (daemon_activity serving) (snd (daemon_activity before (Some h1))) fs = (e, rs, s2, fs')"
    and "s2 = Some h2"
  shows "host_ok root h2"
proof -
  have u: "list_all undisturbed_event before" "list_all undisturbed_event serving" using assms(2) by simp_all
  obtain rs0 s0 where a: "daemon_activity before (Some h1) = (rs0, s0)" by (cases "daemon_activity before (Some h1)")
  from daemon_activity_ok [OF assms(1) u(1) a] obtain h0 where h0: "s0 = Some h0" "host_ok root h0" by blast
  from admin_listen_host [OF assms(3)] show ?thesis
  proof
    assume "s2 = snd (daemon_activity before (Some h1))"
    then show ?thesis using a h0 assms(4) by simp
  next
    assume "daemon_activity serving (snd (daemon_activity before (Some h1))) = (rs, s2)"
    then have "daemon_activity serving (Some h0) = (rs, s2)" using a h0(1) by simp
    from daemon_activity_ok [OF h0(2) u(2) this] show ?thesis using assms(4) by auto
  qed
qed

lemma admin_serve_Some: "\<exists>h'. snd (admin_serve env q (Some h)) = Some h'"
  by (cases q) (auto simp: admin_Echo_def admin_Heartbeat_def admin_Restart_def split: option.splits prod.splits sum.splits)

lemma daemon_activity_Some: "\<exists>h'. snd (daemon_activity evs (Some h)) = Some h'"
proof (induction evs arbitrary: h)
  case (Cons ev evs)
  show ?case
  proof (cases ev)
    case (DTick p t)
    then show ?thesis using Cons by (cases "hs_managers h p") simp_all
  next
    case (DAdmin env q)
    obtain h1 where "snd (admin_serve env q (Some h)) = Some h1" using admin_serve_Some by blast
    then show ?thesis using Cons [of h1] DAdmin by (auto split: prod.splits)
  qed
qed simp

lemma admin_listen_Some:
  assumes "admin_listen env sock (daemon_activity serving) (snd (daemon_activity before (Some h1))) fs = (e, rs, s2, fs')"
  shows "\<exists>h2. s2 = Some h2"
proof -
  obtain h0 where h0: "snd (daemon_activity before (Some h1)) = Some h0" using daemon_activity_Some by blast
  from admin_listen_host [OF assms] show ?thesis
  proof
    assume "daemon_activity serving (snd (daemon_activity before (Some h1))) = (rs, s2)"
    then show ?thesis using h0 daemon_activity_Some [of serving h0] by simp
  qed (use h0 in simp)
qed

lemma daemon_panic_code: "daemon_panic env sock b h fs = (code, s, fs') \<Longrightarrow> code = 2"
  by (auto simp: daemon_panic_def Let_def split: if_splits prod.splits option.splits)

lemma daemon_panic_Some: "\<exists>h'. fst (snd (daemon_panic env sock b h fs)) = Some h'"
proof -
  obtain h0 where h0: "snd (daemon_activity (dn_before env) (Some h)) = Some h0" using daemon_activity_Some by blast
  obtain h2 where "snd (daemon_activity (dn_serving env) (Some h0)) = Some h2" using daemon_activity_Some by blast
  then show ?thesis using h0 by (auto simp: daemon_panic_def Let_def split: prod.splits option.splits)
qed

text \<open>Every manager gets the interval of the host's configuration, and starting keeps it.\<close>

lemma new_managers_interval:
  assumes "new_managers env cfg ps seen h fs = (None, h', fs')"
    and "all_managers (\<lambda>_ m. cf_HeartbeatEvery (mg_cfg m) = default_duration (2 * second) (hc_HeartbeatEvery cfg)) (hs_managers h)"
  shows "all_managers (\<lambda>_ m. cf_HeartbeatEvery (mg_cfg m) = default_duration (2 * second) (hc_HeartbeatEvery cfg)) (hs_managers h')"
  using assms
proof (induction ps arbitrary: seen h fs)
  case (Cons p ps)
  let ?id = "pl_PluginID p"
  obtain m fs1 where n: "New (ne_sys env) (ne_log env ?id) (manager_config cfg p) (ne_world env ?id) fs = (Inr m, fs1)"
    and r: "new_managers env cfg ps (insert ?id seen)
      (h\<lparr>hs_managers := (hs_managers h)(?id \<mapsto> m), hs_plugins := hs_plugins h @ [?id]\<rparr>) fs1 = (None, h', fs')"
    using Cons.prems(1) by (auto split: option.splits if_splits prod.splits sum.splits)
  have "mg_cfg m = with_config_defaults (manager_config cfg p)"
    using core_eqD [OF New_core [OF n]] by (simp add: fresh_manager_def)
  then have "cf_HeartbeatEvery (mg_cfg m) = default_duration (2 * second) (hc_HeartbeatEvery cfg)"
    by (simp add: with_config_defaults_def manager_config_def)
  then show ?case using Cons.prems(2) by (intro Cons.IH [OF r]) (auto simp: all_managers_def)
qed simp

lemma NewHost_interval:
  assumes "NewHost env cfg fs = (Inr h, fs', ms)" and "hs_managers h p = Some m"
  shows "cf_HeartbeatEvery (mg_cfg m) = default_duration (2 * second) (hc_HeartbeatEvery cfg)"
proof -
  obtain h0 where n: "new_managers env cfg (hc_Plugins cfg) {} \<lparr>hs_managers = Map.empty, hs_plugins = []\<rparr> fs = (None, h0, fs')"
    and h: "h = h0\<lparr>hs_plugins := sort (hs_plugins h0)\<rparr>"
    using assms(1) by (auto simp: NewHost_def split: if_splits prod.splits option.splits)
  have "hs_managers h0 p = Some m" using assms(2) h by simp
  then show ?thesis using new_managers_interval [OF n] by (simp add: all_managers_def)
qed

lemma StartAll_each:
  assumes "host_ok root host" and "StartAll senv kenv host = (None, h1)"
  shows "dom (hs_managers h1) = set (hs_plugins h1)" and "hs_plugins h1 = hs_plugins host"
    and "p \<in> set (hs_plugins host) \<Longrightarrow> \<exists>m0 m. hs_managers host p = Some m0 \<and> hs_managers h1 p = Some m
      \<and> Start (senv p) m0 = (None, m) \<and> mgr_at root p m0"
proof -
  have d: "distinct (hs_plugins host)" "dom (hs_managers host) = set (hs_plugins host)" using assms(1) by (auto simp: host_ok_def)
  note s = start_loop_None [OF d(1) assms(2) [unfolded StartAll_def]]
  show "dom (hs_managers h1) = set (hs_plugins h1)" using StartAll_ok [OF assms] by (simp add: host_ok_def)
  show "hs_plugins h1 = hs_plugins host" using s by simp
  assume p: "p \<in> set (hs_plugins host)"
  then obtain m0 where m0: "hs_managers host p = Some m0" using d(2) by (metis domD)
  then have "Start (senv p) m0 = (None, snd (Start (senv p) m0))"
    using s p by (cases "Start (senv p) m0") (auto simp: outcome_at_def)
  then show "\<exists>m0 m. hs_managers host p = Some m0 \<and> hs_managers h1 p = Some m \<and> Start (senv p) m0 = (None, m) \<and> mgr_at root p m0"
    using m0 s p host_ok_at [OF assms(1) m0] by (auto simp: on_all_def)
qed

text \<open>After a successful start every plugin is attached, and the monitor panics just for a negative interval.\<close>

lemma started_attached:
  assumes "NewHost env cfg fs = (Inr host, fs1, ms)" and "StartAll senv kenv host = (None, h1)"
    and "\<forall>p. w_procs (ne_world env p) = {} \<and> w_conns (ne_world env p) = {}" and "p \<in> pl_PluginID ` set (hc_Plugins cfg)"
  shows "\<exists>m. hs_managers h1 p = Some m \<and> attached m \<and> \<not> mg_closed m"
proof -
  have ok: "host_ok (hc_RuntimeDir cfg) host" and "p \<in> set (hs_plugins host)" using NewHost_ok [OF assms(1,3)] assms(4) by simp_all
  from StartAll_each(3) [OF ok assms(2) this(2)] obtain m0 m where m: "hs_managers h1 p = Some m"
    "Start (senv p) m0 = (None, m)" "mgr_at (hc_RuntimeDir cfg) p m0" by blast
  have "attached m" by (rule sm.start_attaches [of _ p m0 senv m, OF m(3,2)])
  then show ?thesis using m(1) startLocked_open [OF m(2) [unfolded Start_def]] by simp
qed

lemma started_monitor_panics:
  assumes "NewHost env cfg fs = (Inr host, fs1, ms)" and "StartAll senv kenv host = (None, h1)"
    and "\<forall>p. w_procs (ne_world env p) = {} \<and> w_conns (ne_world env p) = {}"
  shows "monitor_panics h1 \<longleftrightarrow> hc_HeartbeatEvery cfg < 0"
proof -
  have ok: "host_ok (hc_RuntimeDir cfg) host" and ps: "set (hs_plugins host) = pl_PluginID ` set (hc_Plugins cfg)"
    using NewHost_ok [OF assms(1,3)] by simp_all
  note each = StartAll_each [OF ok assms(2)]
  have cfg: "cf_HeartbeatEvery (mg_cfg m) = default_duration (2 * second) (hc_HeartbeatEvery cfg)" if q: "hs_managers h1 q = Some m" for q m
  proof -
    have "q \<in> set (hs_plugins host)" using q each(1,2) by (metis domI)
    from each(3) [OF this] q obtain m0 where m0: "hs_managers host q = Some m0" "Start (senv q) m0 = (None, m)" "mgr_ok m0"
      by (auto simp: mgr_at_def)
    then have "mg_cfg m = mg_cfg m0" using exec_cfg [OF m0(3), of "OpStart (senv q)" True m] by simp
    then show ?thesis using NewHost_interval [OF assms(1) m0(1)] by simp
  qed
  have "hc_Plugins cfg \<noteq> []" using assms(1) by (auto simp: NewHost_def split: if_splits)
  then obtain q where "q \<in> set (hs_plugins host)" using ps by (cases "hc_Plugins cfg") auto
  then obtain m where m: "hs_managers h1 q = Some m" using each(3) by blast
  have "monitor_panics h1 \<longleftrightarrow> default_duration (2 * second) (hc_HeartbeatEvery cfg) \<le> 0"
    unfolding monitor_panics_iff [OF each(1)] using cfg m by metis
  then show ?thesis by (auto simp: default_duration_def)
qed

text \<open>How far a run got.\<close>

lemma daemon_run_cases:
  assumes "daemon_run env args fs = (code, s, fs')"
  obtains (helped) "flag_scan daemon_flags args = Inl ErrHelp" "code = 0" "s = None"
  | (refused) "code \<in> {1, 2}" "s = None"
  | (not_started) cfg :: resolved_config and host fs1 ms e h1 where "NewHost (dn_host env) (rd_Host cfg) fs = (Inr host, fs1, ms)"
      "StartAll (dn_start env) (dn_kill env) host = (Some e, h1)"
      "s = Some (snd (CloseHost (dn_close env) (dn_log_close env) h1))" "code = 1"
  | (panicked) settings rest cfg host fs1 ms h1 where "flag_scan daemon_flags args = Inr (settings, rest)"
      "parseDaemonConfig (dn_config env) (flag_daemon_options (ge_TempDir (dn_config env)) settings) = Inr cfg"
      "NewHost (dn_host env) (rd_Host cfg) fs = (Inr host, fs1, ms)"
      "StartAll (dn_start env) (dn_kill env) host = (None, h1)" "monitor_panics h1" "code = 2"
  | (served) cfg :: resolved_config and host fs1 ms h1 e rs h2 fs2 where "NewHost (dn_host env) (rd_Host cfg) fs = (Inr host, fs1, ms)"
      "StartAll (dn_start env) (dn_kill env) host = (None, h1)"
      "admin_listen (dn_admin env) (rd_AdminSocket cfg) (daemon_activity (dn_serving env))
          (snd (daemon_activity (dn_before env) (Some h1))) fs1 = (e, rs, Some h2, fs2)"
      "s = Some (snd (CloseHost (dn_close env) (dn_log_close env) h2))" "code = (if e = None then 0 else 1)"
proof (cases "flag_scan daemon_flags args")
  case x: (Inr x)
  obtain settings rest where x': "x = (settings, rest)" by (cases x)
  note FlagsOk = x [unfolded x']
  show ?thesis
  proof (cases "parseDaemonConfig (dn_config env) (flag_daemon_options (ge_TempDir (dn_config env)) settings)")
    case (Inl e)
    then show ?thesis using assms FlagsOk by (intro refused) (simp_all add: daemon_run_def)
  next
    case (Inr cfg)
    obtain nh fs1 ms where n: "NewHost (dn_host env) (rd_Host cfg) fs = (nh, fs1, ms)" by (metis prod_cases3)
    show ?thesis
    proof (cases nh)
      case (Inl e)
      then show ?thesis using assms FlagsOk Inr n by (intro refused) (simp_all add: daemon_run_def)
    next
      case nh: (Inr host)
      obtain r h1 where st: "StartAll (dn_start env) (dn_kill env) host = (r, h1)" by (cases "StartAll (dn_start env) (dn_kill env) host")
      obtain e rs s2 fs2 where l: "admin_listen (dn_admin env) (rd_AdminSocket cfg) (daemon_activity (dn_serving env))
          (snd (daemon_activity (dn_before env) (Some h1))) fs1 = (e, rs, s2, fs2)" by (metis prod_cases4)
      obtain h2 where h2: "s2 = Some h2" using admin_listen_Some [OF l] by blast
      show ?thesis
      proof (cases r)
        case (Some x)
        then show ?thesis using assms FlagsOk Inr n nh st by (intro not_started [of cfg host fs1 ms x h1]) (simp_all add: daemon_run_def)
      next
        case None
        show ?thesis
        proof (cases "monitor_panics h1 \<and> dn_panic env \<noteq> None")
          case True
          then have "daemon_panic env (rd_AdminSocket cfg) (the (dn_panic env)) h1 fs1 = (code, s, fs')"
            using assms FlagsOk Inr n nh st None by (simp add: daemon_run_def)
          then have "code = 2" by (rule daemon_panic_code)
          then show ?thesis using True FlagsOk Inr n nh st None by (intro panicked [of settings rest cfg host fs1 ms h1]) simp_all
        next
          case False
          then show ?thesis using assms FlagsOk Inr n nh st l h2 None
            by (intro served [of cfg host fs1 ms h1 e rs h2 fs2]) (auto simp: daemon_run_def)
        qed
      qed
    qed
  qed
next
  case (Inl e)
  then show ?thesis using assms helped refused by (cases "e = ErrHelp") (simp_all add: daemon_run_def)
qed

lemma daemon_run_Some:
  assumes "daemon_run env args fs = (code, s, fs')" and "flag_scan daemon_flags args = Inr (settings, rest)"
    and "parseDaemonConfig (dn_config env) (flag_daemon_options (ge_TempDir (dn_config env)) settings) = Inr cfg"
    and "NewHost (dn_host env) (rd_Host cfg) fs = (Inr host, fs1, ms)"
  shows "s \<noteq> None"
proof -
  obtain r h1 where st: "StartAll (dn_start env) (dn_kill env) host = (r, h1)" by (cases "StartAll (dn_start env) (dn_kill env) host")
  obtain e rs s2 fs2 where l: "admin_listen (dn_admin env) (rd_AdminSocket cfg) (daemon_activity (dn_serving env))
      (snd (daemon_activity (dn_before env) (Some h1))) fs1 = (e, rs, s2, fs2)" by (metis prod_cases4)
  obtain h2 where h2: "s2 = Some h2" using admin_listen_Some [OF l] by blast
  obtain h3 where "fst (snd (daemon_panic env (rd_AdminSocket cfg) (the (dn_panic env)) h1 fs1)) = Some h3"
    using daemon_panic_Some by blast
  then show ?thesis using assms st l h2 by (cases r) (auto simp: daemon_run_def split: if_splits)
qed

lemma explicitFlags_iff: "explicitFlags fs nm \<longleftrightarrow> setting fs nm \<noteq> None"
  by (force simp: explicitFlags_def setting_None_iff list_ex_iff)

lemma join_with_snoc_Nil: "f \<noteq> [] \<Longrightarrow> join_with d (ws @ [f]) \<noteq> []"
  by (induction d ws rule: join_with.induct) auto

lemma default_dir_not_empty: "Join [d, ''rpc_plugin_system''] \<noteq> []"
proof (cases "d = []")
  case True
  have "Clean ''rpc_plugin_system'' \<noteq> []" by code_simp
  then show ?thesis using True by (simp add: Join_def)
next
  case False
  have "plain_name ''rpc_plugin_system''" by code_simp
  from Join_plain [OF False this] show ?thesis by (simp add: join_with_snoc_Nil)
qed

text \<open>A value that comes from the flag, else from the file, else is the default.\<close>

definition duration_from :: "settings \<Rightarrow> string \<Rightarrow> string \<Rightarrow> duration \<Rightarrow> duration \<Rightarrow> bool" where
  "duration_from fs nm fileValue dflt d \<longleftrightarrow>
     (case setting fs nm of
        Some v \<Rightarrow> ParseDuration v = Inr d
      | None \<Rightarrow> if fileValue \<noteq> [] then ParseDuration fileValue = Inr d else d = dflt)"

lemma chooseDuration_from:
  assumes "flag_scan daemon_flags args = Inr (fs, rest)" "daemon_flags nm = Some FlagDuration" "dflt \<noteq> 0"
    "chooseDuration (explicitFlags fs) nm (typed_flag ParseDuration fs nm dflt) fileValue
       (defaultDuration (typed_flag ParseDuration fs nm dflt) dflt') = Inr d"
  shows "duration_from fs nm fileValue dflt d"
proof (cases "setting fs nm")
  case None
  then show ?thesis using assms(3,4)
    by (auto simp: duration_from_def chooseDuration_def explicitFlags_iff typed_flag_def defaultDuration_def split: if_splits sum.splits)
next
  case (Some v)
  obtain d' where "ParseDuration v = Inr d'"
    using setting_ok [OF assms(1) Some] assms(2) by (auto simp: set_ok_def split: sum.splits)
  then show ?thesis using assms(4) Some
    by (simp add: duration_from_def chooseDuration_def explicitFlags_iff typed_flag_def)
qed

section \<open>Properties\<close>

text \<open>
  Plugin specifications round-trip. Printing any non-empty list of valid ids with paths (without comma, not
  ending in a blank; an \<open>=\<close> in a path is fine) as \<open>id=path,...\<close> and parsing it gives the list back, in order, whatever
  the single-plugin flags say.
\<close>

theorem parsePlugins_roundtrip:
  assumes "ps \<noteq> []" and "list_all spec_ok ps"
  shows "parsePlugins (join_with (CHR '','') (map print_spec ps)) pluginID pluginPath
    = Inr (map (\<lambda>(p, path). plain_plugin p path) ps)"
proof -
  have "CHR '','' \<notin> set w" if "w \<in> set (map print_spec ps)" for w
    using that assms(2) print_spec_no_comma by (auto simp: list_all_iff)
  then have s: "split_on (CHR '','') (join_with (CHR '','') (map print_spec ps)) = map print_spec ps"
    using assms(1) by (intro split_join) auto
  then have "join_with (CHR '','') (map print_spec ps) \<noteq> []"
    using assms(1) by (cases ps) (auto simp: print_spec_def split_on.simps)
  then show ?thesis using s parse_print_specs [OF assms(2)] by (simp add: parsePlugins_def)
qed

theorem parsePlugins_roundtrip_witness:
  "parsePlugins ''echo=/opt/echo,zeta=/opt/z=1'' [] [] = Inr [plain_plugin ''echo'' ''/opt/echo'', plain_plugin ''zeta'' ''/opt/z=1'']"
proof -
  have "list_all spec_ok [(''echo'', ''/opt/echo''), (''zeta'', ''/opt/z=1'')]"
    by (simp add: spec_ok_def ValidatePluginID_None_iff pluginIDPattern_def id_char_def byte_class_defs graph_byte_def)
  from parsePlugins_roundtrip [OF _ this, of "[]" "[]"] show ?thesis by (simp add: print_spec_def)
qed

text \<open>
  C36: the daemon's configuration. What it accepts from a command line and a configuration file is something the
  host can use: it names at least one plugin, every id is valid and every path non-empty (so of the checks of
  \<open>NewHost\<close> only the one for duplicates can still fail). The runtime directory and the three durations are those
  of the command line, else of the file, else the defaults, and the admin socket lies in the runtime directory.
\<close>

theorem daemon_config_valid:
  assumes "flag_scan daemon_flags args = Inr (fs, rest)"
    and "loadTOMLConfig env (String_flag fs ''config'' []) = Inr file"
    and "parseDaemonConfig env (flag_daemon_options (ge_TempDir env) fs) = Inr cfg"
  shows "hc_Plugins (rd_Host cfg) \<noteq> []
    \<and> (\<forall>p \<in> set (hc_Plugins (rd_Host cfg)). ValidatePluginID (pl_PluginID p) = None \<and> pl_PluginPath p \<noteq> [])
    \<and> rd_AdminSocket cfg = Join [hc_RuntimeDir (rd_Host cfg), ''admin.sock'']
    \<and> hc_RuntimeDir (rd_Host cfg) =
        (case setting fs ''runtime-dir'' of
           Some v \<Rightarrow> v
         | None \<Rightarrow> if tm_RuntimeDir file \<noteq> [] then tm_RuntimeDir file else Join [ge_TempDir env, ''rpc_plugin_system''])
    \<and> duration_from fs ''dial-timeout'' (tm_DialTimeout file) (3 * second) (hc_DialTimeout (rd_Host cfg))
    \<and> duration_from fs ''call-timeout'' (tm_CallTimeout file) (500 * millisecond) (hc_CallTimeout (rd_Host cfg))
    \<and> duration_from fs ''heartbeat-every'' (tm_HeartbeatEvery file) (2 * second) (hc_HeartbeatEvery (rd_Host cfg))"
proof -
  let ?o = "flag_daemon_options (ge_TempDir env) fs"
  obtain dt ct hb ps where
      d: "chooseDuration (explicitFlags fs) ''dial-timeout'' (do_DialTimeout ?o) (tm_DialTimeout file)
        (defaultDuration (do_DialTimeout ?o) (3 * second)) = Inr dt"
    and c: "chooseDuration (explicitFlags fs) ''call-timeout'' (do_CallTimeout ?o) (tm_CallTimeout file)
        (defaultDuration (do_CallTimeout ?o) (500 * millisecond)) = Inr ct"
    and h: "chooseDuration (explicitFlags fs) ''heartbeat-every'' (do_HeartbeatEvery ?o) (tm_HeartbeatEvery file)
        (defaultDuration (do_HeartbeatEvery ?o) (2 * second)) = Inr hb"
    and r: "resolvePlugins ?o (tm_Plugins file) = Inr ps"
    and cfg: "cfg = \<lparr>rd_Host = \<lparr>hc_RuntimeDir = chooseString (explicitFlags fs) ''runtime-dir'' (do_RuntimeDir ?o)
        (tm_RuntimeDir file) (defaultRuntimeDir env (do_RuntimeDir ?o)), hc_EventLogPath = [], hc_DialTimeout = dt,
        hc_CallTimeout = ct, hc_HeartbeatEvery = hb, hc_Plugins = ps, hc_DisableRedaction = False\<rparr>,
        rd_AdminSocket = Join [chooseString (explicitFlags fs) ''runtime-dir'' (do_RuntimeDir ?o)
        (tm_RuntimeDir file) (defaultRuntimeDir env (do_RuntimeDir ?o)), ''admin.sock'']\<rparr>"
    using assms(2,3) by (auto simp: parseDaemonConfig_def flag_daemon_options_def Let_def split: sum.split_asm)
  have "Join [ge_TempDir env, ''rpc_plugin_system''] \<noteq> []" by (rule default_dir_not_empty)
  then have dir: "hc_RuntimeDir (rd_Host cfg) = (case setting fs ''runtime-dir'' of Some v \<Rightarrow> v
      | None \<Rightarrow> if tm_RuntimeDir file \<noteq> [] then tm_RuntimeDir file else Join [ge_TempDir env, ''rpc_plugin_system''])"
    by (cases "setting fs ''runtime-dir''")
      (simp_all add: cfg flag_daemon_options_def chooseString_def explicitFlags_iff String_flag_def defaultRuntimeDir_def)
  have sock: "rd_AdminSocket cfg = Join [hc_RuntimeDir (rd_Host cfg), ''admin.sock'']" by (simp add: cfg)
  have k: "daemon_flags ''dial-timeout'' = Some FlagDuration" "daemon_flags ''call-timeout'' = Some FlagDuration"
    "daemon_flags ''heartbeat-every'' = Some FlagDuration" by (simp_all add: daemon_flags_def)
  note [simp] = flag_daemon_options_def
  show ?thesis
    using resolvePlugins_ok [OF r] chooseDuration_from [OF assms(1) k(1) _ d [simplified]]
      chooseDuration_from [OF assms(1) k(2) _ c [simplified]] chooseDuration_from [OF assms(1) k(3) _ h [simplified]]
    by (simp add: sock dir) (simp add: cfg list_all_iff config_ok_def)
qed

definition sample_config_env :: config_env where
  "sample_config_env = \<lparr>ge_TempDir = ''/tmp'', ge_ReadFile = (\<lambda>_. Inr ''x''),
     ge_Decode = (\<lambda>_. Inr (zero_toml\<lparr>tm_CallTimeout := ''1s'', tm_Plugins := [\<lparr>tm_ID = ''echo'', tm_Path = ''/p''\<rparr>]\<rparr>))\<rparr>"

definition sample_args :: "string list" where
  "sample_args = [''-config'', ''/c'', ''--runtime-dir=/r'', ''-dial-timeout'', ''7s'']"

definition sample_settings :: settings where
  "sample_settings = [(''config'', ''/c''), (''runtime-dir'', ''/r''), (''dial-timeout'', ''7s'')]"

definition sample_resolved :: resolved_config where
  "sample_resolved = \<lparr>rd_Host = \<lparr>hc_RuntimeDir = ''/r'', hc_EventLogPath = [], hc_DialTimeout = 7 * second,
     hc_CallTimeout = second, hc_HeartbeatEvery = 2 * second, hc_Plugins = [plain_plugin ''echo'' ''/p''],
     hc_DisableRedaction = False\<rparr>, rd_AdminSocket = ''/r/admin.sock''\<rparr>"

lemma sample_scan: "flag_scan daemon_flags sample_args = Inr (sample_settings, [])"
  by code_simp

lemma sample_setting:
  "setting sample_settings ''config'' = Some ''/c''" "setting sample_settings ''runtime-dir'' = Some ''/r''"
  "setting sample_settings ''dial-timeout'' = Some ''7s''" "setting sample_settings ''plugins'' = None"
  "setting sample_settings ''plugin'' = None" "setting sample_settings ''plugin-id'' = None"
  "setting sample_settings ''call-timeout'' = None" "setting sample_settings ''heartbeat-every'' = None"
  by (simp_all add: setting_def sample_settings_def)

lemma sample_parse:
  "parseDaemonConfig sample_config_env (flag_daemon_options (ge_TempDir sample_config_env) sample_settings) = Inr sample_resolved"
proof -
  have dur: "ParseDuration ''7s'' = Inr (7 * second)" "ParseDuration ''1s'' = Inr second" by code_simp+
  have "Join [''/r'', ''admin.sock''] = ''/r/admin.sock''" "ValidatePluginID ''echo'' = None" by code_simp+
  then show ?thesis
    by (simp add: parseDaemonConfig_def loadTOMLConfig_def flag_daemon_options_def sample_config_env_def dur
        sample_resolved_def zero_toml_def String_flag_def typed_flag_def explicitFlags_iff sample_setting
        chooseString_def chooseDuration_def defaultDuration_def resolvePlugins_def Let_def)
qed

theorem daemon_config_valid_witness:
  "duration_from sample_settings ''call-timeout'' ''1s'' (500 * millisecond) (hc_CallTimeout (rd_Host sample_resolved))
   \<and> hc_CallTimeout (rd_Host sample_resolved) = second \<and> hc_Plugins (rd_Host sample_resolved) \<noteq> []"
proof -
  have "loadTOMLConfig sample_config_env (String_flag sample_settings ''config'' [])
      = Inr (zero_toml\<lparr>tm_CallTimeout := ''1s'', tm_Plugins := [\<lparr>tm_ID = ''echo'', tm_Path = ''/p''\<rparr>]\<rparr>)"
    by (simp add: loadTOMLConfig_def sample_config_env_def String_flag_def sample_setting)
  from daemon_config_valid [OF sample_scan this sample_parse] have
    "duration_from sample_settings ''call-timeout'' ''1s'' (500 * millisecond) (hc_CallTimeout (rd_Host sample_resolved))"
    "hc_Plugins (rd_Host sample_resolved) \<noteq> []" by simp_all
  then show ?thesis by (simp add: sample_resolved_def)
qed

text \<open>
  C34: the daemon leaves nothing open. Whatever the command line, the configuration and every outcome on the way,
  if a host was constructed then at exit each of its managers is closed with no process and no client attached,
  unless the run ended in a panic (exit code 2), which takes a configuration with a negative heartbeat interval.
  The exit code is zero only for help, or when the host came up and serving ended by cancellation.
\<close>

theorem daemon_closes_host:
  assumes "daemon_run env args fs = (code, s, fs')"
    and "\<forall>p. w_procs (ne_world (dn_host env) p) = {} \<and> w_conns (ne_world (dn_host env) p) = {}"
    and "list_all undisturbed_event (dn_before env @ dn_serving env)"
  shows "(\<forall>h p m. code \<noteq> 2 \<longrightarrow> s = Some h \<longrightarrow> hs_managers h p = Some m \<longrightarrow> mg_closed m \<and> \<not> attached m)
    \<and> (code = 2 \<longrightarrow> s = None \<or> (\<exists>settings rest cfg. flag_scan daemon_flags args = Inr (settings, rest)
          \<and> parseDaemonConfig (dn_config env) (flag_daemon_options (ge_TempDir (dn_config env)) settings) = Inr cfg
          \<and> hc_HeartbeatEvery (rd_Host cfg) < 0))
    \<and> (code = 0 \<longrightarrow> flag_scan daemon_flags args = Inl ErrHelp \<or> (s \<noteq> None \<and> ae_done (dn_admin env)))
    \<and> code \<in> {0, 1, 2}"
  using assms(1)
proof (cases rule: daemon_run_cases)
  case (not_started cfg host fs1 ms e h1)
  have "host_ok (hc_RuntimeDir (rd_Host cfg)) h1"
    using NewHost_ok [OF not_started(1) assms(2)] StartAll_ok [OF _ not_started(2)] by blast
  from CloseHost_all_closed [OF this] show ?thesis using not_started(3,4) by simp
next
  case (panicked settings rest cfg host fs1 ms h1)
  have "hc_HeartbeatEvery (rd_Host cfg) < 0" using started_monitor_panics [OF panicked(3,4) assms(2)] panicked(5) by simp
  then show ?thesis using panicked(1,2,6) by auto
next
  case (served cfg host fs1 ms h1 e rs h2 fs2)
  have ok: "host_ok (hc_RuntimeDir (rd_Host cfg)) h1"
    using NewHost_ok [OF served(1) assms(2)] StartAll_ok [OF _ served(2)] by blast
  have "ae_done (dn_admin env)" if "e = None" using that served(3) admin_listen_done by blast
  then show ?thesis
    using CloseHost_all_closed [OF admin_listen_ok [OF ok assms(3) served(3) refl]] served(4,5) by auto
qed auto

definition sample_daemon_env :: daemon_env where
  "sample_daemon_env = \<lparr>dn_config = sample_config_env, dn_host = sample_host_env, dn_start = (\<lambda>_. sample_start),
     dn_kill = (\<lambda>_. sample_stop), dn_before = [], dn_admin = \<lparr>ae_sys = quiet_sys, ae_register = None, ae_done = True, ae_accept = Sentinel NetErrClosed\<rparr>,
     dn_serving = [DAdmin (quiet_call CallTimeout Reply sample_stop sample_start) AStatus],
     dn_close = (\<lambda>_. sample_stop), dn_log_close = (\<lambda>_. None), dn_panic = Some False\<rparr>"

lemma one_plugin_NewHost:
  assumes "hc_RuntimeDir cfg = ''/r''" and "hc_Plugins cfg = [plain_plugin ''echo'' ''/p'']"
  shows "\<exists>m fs'. NewHost sample_host_env cfg sample_fs
      = (Inr \<lparr>hs_managers = [''echo'' \<mapsto> m], hs_plugins = [''echo'']\<rparr>, fs', [''echo'' \<mapsto> m])
    \<and> core m = core (fresh_manager (with_config_defaults (manager_config cfg (plain_plugin ''echo'' ''/p''))) sample_world)"
proof -
  let ?p = "plain_plugin ''echo'' ''/p''"
  have sel: "pl_PluginID ?p = ''echo''" "pl_PluginPath ?p = ''/p''" by (simp_all add: plain_plugin_def)
  have "\<exists>m fs'. New (ne_sys sample_host_env) (ne_log sample_host_env ''echo'') (manager_config cfg ?p)
     (ne_world sample_host_env ''echo'') sample_fs = (Inr m, fs')"
    by (simp add: New_def manager_config_def sample_host_env_def assms sel ValidateExecutable_def
        sample_fs_def Lstat_def quiet_sys_def IsAbs_def EnsureDir_def not_exist_def Let_def pluginRuntimeDir_def
        pluginEventLogPath_def Join_def Clean_def)
  then obtain m fs' where n: "New (ne_sys sample_host_env) (ne_log sample_host_env ''echo'')
      (manager_config cfg ?p) (ne_world sample_host_env ''echo'') sample_fs = (Inr m, fs')" by blast
  have w: "ne_world sample_host_env ''echo'' = sample_world" by (simp add: sample_host_env_def)
  have "core m = core (fresh_manager (with_config_defaults (manager_config cfg ?p)) sample_world)"
    using New_core [OF n] unfolding w .
  moreover have "NewHost sample_host_env cfg sample_fs
      = (Inr \<lparr>hs_managers = [''echo'' \<mapsto> m], hs_plugins = [''echo'']\<rparr>, fs', [''echo'' \<mapsto> m])"
    by (simp add: NewHost_def assms sel sample_valid_ids n)
  ultimately show ?thesis by blast
qed

theorem daemon_closes_host_witness:
  "\<exists>code h fs'. daemon_run sample_daemon_env sample_args sample_fs = (code, Some h, fs') \<and> code \<noteq> 2
     \<and> (\<forall>p m. hs_managers h p = Some m \<longrightarrow> mg_closed m)"
proof -
  obtain code s fs' where r: "daemon_run sample_daemon_env sample_args sample_fs = (code, s, fs')"
    by (metis prod_cases3)
  obtain h0 fs1 ms where n: "NewHost (dn_host sample_daemon_env) (rd_Host sample_resolved) sample_fs = (Inr h0, fs1, ms)"
    using one_plugin_NewHost [of "rd_Host sample_resolved"] by (auto simp: sample_daemon_env_def sample_resolved_def)
  have c: "flag_scan daemon_flags sample_args = Inr (sample_settings, [])"
    "parseDaemonConfig (dn_config sample_daemon_env)
      (flag_daemon_options (ge_TempDir (dn_config sample_daemon_env)) sample_settings) = Inr sample_resolved"
    using sample_scan sample_parse by (simp_all add: sample_daemon_env_def)
  have "s \<noteq> None" by (rule daemon_run_Some [OF r c(1,2) n])
  then obtain h where h: "s = Some h" by blast
  have "\<forall>p. w_procs (ne_world (dn_host sample_daemon_env) p) = {} \<and> w_conns (ne_world (dn_host sample_daemon_env) p) = {}"
    by (simp add: sample_daemon_env_def sample_host_env_def sample_world_def)
  moreover have "list_all undisturbed_event (dn_before sample_daemon_env @ dn_serving sample_daemon_env)"
    by (auto simp: sample_daemon_env_def undisturbed_def quiet_call_def)
  ultimately have "(\<forall>h p m. code \<noteq> 2 \<longrightarrow> s = Some h \<longrightarrow> hs_managers h p = Some m \<longrightarrow> mg_closed m \<and> \<not> attached m)"
    "code = 2 \<longrightarrow> hc_HeartbeatEvery (rd_Host sample_resolved) < 0" using daemon_closes_host [OF r] h c by auto
  moreover have "\<not> hc_HeartbeatEvery (rd_Host sample_resolved) < 0" by (simp add: sample_resolved_def)
  ultimately show ?thesis using r h by blast
qed

text \<open>
  C35: a negative heartbeat interval. The daemon accepts it (only zero is replaced by the default) and starts every
  plugin, but the first monitor goroutine to run then panics in \<open>time.NewTicker\<close>: the process exits with code 2 and
  \<open>Close\<close> is never called, so every plugin that was configured is left behind with its process still attached.
\<close>

theorem negative_interval_panics:
  assumes "flag_scan daemon_flags args = Inr (settings, rest)"
    and "parseDaemonConfig (dn_config env) (flag_daemon_options (ge_TempDir (dn_config env)) settings) = Inr cfg"
    and "NewHost (dn_host env) (rd_Host cfg) fs = (Inr host, fs1, ms)"
    and "StartAll (dn_start env) (dn_kill env) host = (None, h1)"
    and "\<forall>p. w_procs (ne_world (dn_host env) p) = {} \<and> w_conns (ne_world (dn_host env) p) = {}"
    and "hc_HeartbeatEvery (rd_Host cfg) < 0" and "dn_panic env = Some False" and "dn_before env = []"
  shows "daemon_run env args fs = (2, Some h1, fs1)
    \<and> (\<forall>p \<in> pl_PluginID ` set (hc_Plugins (rd_Host cfg)). \<exists>m. hs_managers h1 p = Some m \<and> attached m \<and> \<not> mg_closed m)"
proof -
  have "monitor_panics h1" using started_monitor_panics [OF assms(3,4,5)] assms(6) by simp
  then have "daemon_run env args fs = (2, Some h1, fs1)"
    using assms(1,2,3,4,7,8) by (simp add: daemon_run_def daemon_panic_def)
  then show ?thesis using started_attached [OF assms(3,4,5)] by blast
qed

definition negative_args :: "string list" where
  "negative_args = [''-config'', ''/c'', ''--runtime-dir=/r'', ''-heartbeat-every=-1s'']"

definition negative_settings :: settings where
  "negative_settings = [(''config'', ''/c''), (''runtime-dir'', ''/r''), (''heartbeat-every'', ''-1s'')]"

definition negative_resolved :: resolved_config where
  "negative_resolved = sample_resolved\<lparr>rd_Host := (rd_Host sample_resolved)\<lparr>hc_DialTimeout := 3 * second, hc_HeartbeatEvery := - second\<rparr>\<rparr>"

lemma negative_parse:
  "flag_scan daemon_flags negative_args = Inr (negative_settings, [])"
  "parseDaemonConfig sample_config_env (flag_daemon_options (ge_TempDir sample_config_env) negative_settings) = Inr negative_resolved"
proof -
  show "flag_scan daemon_flags negative_args = Inr (negative_settings, [])" by code_simp
  have dur: "ParseDuration ''-1s'' = Inr (- second)" "ParseDuration ''1s'' = Inr second" by code_simp+
  have "Join [''/r'', ''admin.sock''] = ''/r/admin.sock''" "ValidatePluginID ''echo'' = None" by code_simp+
  then show "parseDaemonConfig sample_config_env (flag_daemon_options (ge_TempDir sample_config_env) negative_settings) = Inr negative_resolved"
    by (simp add: parseDaemonConfig_def loadTOMLConfig_def flag_daemon_options_def sample_config_env_def dur negative_settings_def
        negative_resolved_def sample_resolved_def zero_toml_def String_flag_def typed_flag_def explicitFlags_def setting_def
        chooseString_def chooseDuration_def defaultDuration_def resolvePlugins_def Let_def)
qed

theorem negative_interval_panics_witness:
  "\<exists>h fs' m. daemon_run (sample_daemon_env\<lparr>dn_start := (\<lambda>_. sample_env 1 8)\<rparr>) negative_args sample_fs = (2, Some h, fs')
     \<and> hs_managers h ''echo'' = Some m \<and> attached m \<and> \<not> mg_closed m"
proof -
  let ?env = "sample_daemon_env\<lparr>dn_start := (\<lambda>_. sample_env 1 8)\<rparr>"
  let ?c = "rd_Host negative_resolved"
  let ?p = "plain_plugin ''echo'' ''/p''"
  have c: "hc_RuntimeDir ?c = ''/r''" "hc_Plugins ?c = [?p]" by (simp_all add: negative_resolved_def sample_resolved_def)
  obtain m fs1 where n: "NewHost sample_host_env ?c sample_fs
      = (Inr \<lparr>hs_managers = [''echo'' \<mapsto> m], hs_plugins = [''echo'']\<rparr>, fs1, [''echo'' \<mapsto> m])"
    and m: "core m = core (fresh_manager (with_config_defaults (manager_config ?c ?p)) sample_world)"
    using one_plugin_NewHost [OF c] by blast
  have "idle m" "mg_id m = ''echo''" "cf_DialTimeout (mg_cfg m) = 3 * second" "mg_gen m + 1 = 1"
    using core_eqD [OF m]
    by (simp_all add: idle_def fresh_manager_def zero_state_def with_config_defaults_def manager_config_def plain_plugin_def
        negative_resolved_def default_duration_def)
  from sample_env_starts [OF this] obtain m' where "startLocked (sample_env 1 8) m = (None, m')" by blast
  then obtain h1 where s: "StartAll (\<lambda>_. sample_env 1 8) (\<lambda>_. sample_stop)
      \<lparr>hs_managers = [''echo'' \<mapsto> m], hs_plugins = [''echo'']\<rparr> = (None, h1)"
    by (simp add: StartAll_def on_manager_def Start_def)
  have "daemon_run ?env negative_args sample_fs = (2, Some h1, fs1)
    \<and> (\<forall>p \<in> pl_PluginID ` set (hc_Plugins ?c). \<exists>m. hs_managers h1 p = Some m \<and> attached m \<and> \<not> mg_closed m)"
    by (rule negative_interval_panics [OF negative_parse(1)])
      (use negative_parse(2) n s in \<open>simp_all add: sample_daemon_env_def sample_host_env_def sample_world_def negative_resolved_def\<close>)
  then show ?thesis using c(2) by (auto simp: plain_plugin_def)
qed

end
