(* ===== verification/Event_Read.thy ===== *)
theory Event_Read
  imports Event_Provider
begin

text \<open>
  Reading the log back (\<open>src/src/internal/eventlog/read.go\<close>): the backups and the current file are
  read oldest first, each line is decoded and filtered, then the result is reversed and cut to the
  limit. \<open>json.Unmarshal\<close> is the argument \<open>decode\<close>. A read may be stopped by an open error or a read
  error after some bytes. What reading relies on from the codec is the locale \<open>event_codec\<close>, which
  \<open>Event_Json\<close> interprets on the JSON codec. The lemmas show that reading returns exactly the matching
  events that the files hold, in order, what the filters select, and that the summary counts are right.
\<close>

section \<open>Definitions\<close>

record filters =
  fl_Level :: string
  fl_Component :: string
  fl_Event :: string
  fl_PluginID :: string
  fl_GenerationID :: uint64
  fl_Method :: string
  fl_CapabilityID :: string
  fl_OperationID :: string
  fl_CorrelationID :: string
  fl_Limit :: int
  fl_Since :: gotime
  fl_Reverse :: bool

definition no_filters :: filters where
  "no_filters = \<lparr>fl_Level = [], fl_Component = [], fl_Event = [], fl_PluginID = [], fl_GenerationID = 0,
     fl_Method = [], fl_CapabilityID = [], fl_OperationID = [], fl_CorrelationID = [], fl_Limit = 0,
     fl_Since = 0, fl_Reverse = False\<rparr>"

text \<open>\<open>match\<close> of the source.\<close>

definition match_event :: "string event \<Rightarrow> filters \<Rightarrow> bool" where
  "match_event e f =
     (if fl_Level f \<noteq> [] \<and> ev_Level e \<noteq> fl_Level f then False
      else if fl_Component f \<noteq> [] \<and> ev_Component e \<noteq> fl_Component f then False
      else if fl_Event f \<noteq> [] \<and> ev_Event e \<noteq> fl_Event f then False
      else if fl_PluginID f \<noteq> [] \<and> ev_PluginID e \<noteq> fl_PluginID f then False
      else if fl_GenerationID f \<noteq> 0 \<and> ev_GenerationID e \<noteq> fl_GenerationID f then False
      else if fl_Method f \<noteq> [] \<and> ev_Method e \<noteq> fl_Method f then False
      else if fl_CapabilityID f \<noteq> [] \<and> ev_CapabilityID e \<noteq> fl_CapabilityID f then False
      else if fl_OperationID f \<noteq> [] \<and> ev_OperationID e \<noteq> fl_OperationID f then False
      else if fl_CorrelationID f \<noteq> [] \<and> ev_CorrelationID e \<noteq> fl_CorrelationID f then False
      else if fl_Since f \<noteq> 0 \<and> ev_Time e < fl_Since f then False
      else True)"

type_synonym decoder = "string \<Rightarrow> goerr + string event"

text \<open>
  How reading one file can fail: \<open>os.Open\<close> returns an error, or the reader delivers the first \<open>n\<close>
  bytes and then an error other than \<open>io.EOF\<close>.
\<close>

record read_io =
  rd_open :: "path \<Rightarrow> goerr option"
  rd_fail :: "path \<Rightarrow> (nat \<times> goerr) option"
  rd_stat :: "path \<Rightarrow> goerr option"

text \<open>\<open>bytes.TrimRight(line, "\r\n")\<close>.\<close>

definition trim_eol :: "string \<Rightarrow> string" where
  "trim_eol s = rev (dropWhile (\<lambda>c. c = CHR 0x0D \<or> c = CHR 0x0A) (rev s))"

text \<open>\<open>reader.ReadBytes('\n')\<close>: the bytes up to and including the newline, and what follows.\<close>

fun read_bytes :: "string \<Rightarrow> string \<times> string" where
  "read_bytes [] = ([], [])"
| "read_bytes (c # s) =
     (if c = CHR 0x0A then ([c], s) else (let (line, rest) = read_bytes s in (c # line, rest)))"

lemma read_bytes_append: "fst (read_bytes s) @ snd (read_bytes s) = s"
  by (induction s) (auto simp: split_beta)

lemma read_bytes_shrinks: "(line, rest) = read_bytes buf \<Longrightarrow> line \<noteq> [] \<Longrightarrow> length rest < length buf"
  by (metis append_eq_append_conv_if fst_conv length_append length_greater_0_conv less_add_same_cancel2
      read_bytes_append snd_conv)

text \<open>
  The loop of \<open>readOne\<close>. \<open>fin\<close> is the error the reader ends with (\<open>None\<close> for \<open>io.EOF\<close>); a last line
  without newline arrives together with that error.
\<close>

function read_loop ::
  "decoder \<Rightarrow> filters \<Rightarrow> path \<Rightarrow> goerr option \<Rightarrow> string \<Rightarrow> nat \<Rightarrow> string event list
   \<Rightarrow> goerr + string event list" where
  "read_loop decode f p fin buf lineNo events =
     (let (line, rest) = read_bytes buf;
          at_end = (line = [] \<or> last line \<noteq> CHR 0x0A);
          n = Suc lineNo
      in if line = [] \<and> fin = None then Inr events
         else if at_end \<and> fin \<noteq> None then
           Inl (Wrapf ''read event log %s:%d: %w'' [FStr p, FInt (int n)] (the fin))
         else (case decode (trim_eol line) of
             Inl e \<Rightarrow> Inl (Wrapf ''decode event log %s:%d: %w'' [FStr p, FInt (int n)] e)
           | Inr ev \<Rightarrow>
               if \<not> match_event ev f then read_loop decode f p fin rest n events
               else if at_end then Inr (events @ [ev])
               else read_loop decode f p fin rest n (events @ [ev])))"
  by pat_completeness auto
termination
  by (relation "measure (\<lambda>(decode, f, p, fin, buf, lineNo, events). length buf)")
    (auto dest: read_bytes_shrinks)

declare read_loop.simps [simp del]

definition readOne :: "decoder \<Rightarrow> read_io \<Rightarrow> files \<Rightarrow> filters \<Rightarrow> path \<Rightarrow> goerr + string event list" where
  "readOne decode io fs f p =
     (case (rd_open io p, fs p) of
        (Some e, _) \<Rightarrow> Inl (Wrapf ''open event log: %w'' [] e)
      | (None, None) \<Rightarrow> Inl (Wrapf ''open event log: %w'' [] (SysErr (Some OsErrNotExist) ''open''))
      | (None, Some c) \<Rightarrow>
          (case rd_fail io p of
             None \<Rightarrow> read_loop decode f p None c 0 []
           | Some (n, e) \<Rightarrow> read_loop decode f p (Some e) (take n c) 0 []))"

fun backup_paths :: "read_io \<Rightarrow> files \<Rightarrow> path \<Rightarrow> nat \<Rightarrow> path list" where
  "backup_paths io fs p 0 = []"
| "backup_paths io fs p (Suc k) =
     (let q = backupPath p (Suc k)
      in (if fs q \<noteq> None \<and> rd_stat io q = None then [q] else []) @ backup_paths io fs p k)"

definition existingLogPaths :: "read_io \<Rightarrow> files \<Rightarrow> path \<Rightarrow> goerr + path list" where
  "existingLogPaths io fs p =
     (let paths = backup_paths io fs p DefaultMaxBackups
            @ (if fs p \<noteq> None \<and> rd_stat io p = None then [p] else [])
      in if paths = [] then Inl (Wrapf ''open event log: %w'' [] (Sentinel OsErrNotExist)) else Inr paths)"

fun read_paths :: "decoder \<Rightarrow> read_io \<Rightarrow> files \<Rightarrow> filters \<Rightarrow> path list \<Rightarrow> string event list
   \<Rightarrow> goerr + string event list" where
  "read_paths decode io fs f [] events = Inr events"
| "read_paths decode io fs f (p # ps) events =
     (case readOne decode io fs f p of
        Inl e \<Rightarrow> Inl e
      | Inr batch \<Rightarrow> read_paths decode io fs f ps (events @ batch))"

text \<open>\<open>reverse\<close>: the swapping loop \<open>for i, j := 0, len(events)-1; i < j; ...\<close>.\<close>

function reverse_loop :: "'a list \<Rightarrow> nat \<Rightarrow> int \<Rightarrow> 'a list" where
  "reverse_loop xs i j =
     (if int i < j then reverse_loop (xs[i := xs ! nat j, nat j := xs ! i]) (Suc i) (j - 1) else xs)"
  by pat_completeness auto
termination
  by (relation "measure (\<lambda>(xs, i, j). nat (j - int i))") auto

declare reverse_loop.simps [simp del]

definition reverse_events :: "'a list \<Rightarrow> 'a list" where
  "reverse_events xs = reverse_loop xs 0 (int (length xs) - 1)"

definition ReadAll :: "decoder \<Rightarrow> read_io \<Rightarrow> files \<Rightarrow> path \<Rightarrow> filters \<Rightarrow> goerr + string event list" where
  "ReadAll decode io fs p f =
     (case existingLogPaths io fs p of
        Inl e \<Rightarrow> Inl e
      | Inr paths \<Rightarrow>
          (case read_paths decode io fs f paths [] of
             Inl e \<Rightarrow> Inl e
           | Inr events \<Rightarrow>
               (let events = (if fl_Reverse f then reverse_events events else events)
                in if 0 < fl_Limit f \<and> fl_Limit f < int (length events)
                   then Inr (take (nat (fl_Limit f)) events) else Inr events)))"

text \<open>\<open>Summarize\<close>: one counter map per dimension.\<close>

type_synonym counts = "string \<rightharpoonup> nat"

definition bump :: "string \<Rightarrow> counts \<Rightarrow> counts" where
  "bump k m = m(k \<mapsto> Suc (case m k of None \<Rightarrow> 0 | Some n \<Rightarrow> n))"

record summary =
  sm_Total :: nat
  sm_ByLevel :: counts
  sm_ByEvent :: counts
  sm_ByComponent :: counts

fun summarize_loop :: "string event list \<Rightarrow> summary \<Rightarrow> summary" where
  "summarize_loop [] s = s"
| "summarize_loop (e # es) s =
     summarize_loop es (s\<lparr>sm_ByLevel := bump (ev_Level e) (sm_ByLevel s),
        sm_ByEvent := bump (ev_Event e) (sm_ByEvent s),
        sm_ByComponent := bump (ev_Component e) (sm_ByComponent s)\<rparr>)"

definition Summarize :: "string event list \<Rightarrow> summary" where
  "Summarize events =
     summarize_loop events \<lparr>sm_Total = length events, sm_ByLevel = Map.empty, sm_ByEvent = Map.empty,
       sm_ByComponent = Map.empty\<rparr>"

definition enc_line :: "encoder \<Rightarrow> string event \<Rightarrow> string" where
  "enc_line enc e = (case enc e of Inr l \<Rightarrow> l @ [CHR 0x0A] | Inl _ \<Rightarrow> [])"

text \<open>File 0 of a log is the current file, file \<open>j\<close> its backup \<open>j\<close>; \<open>H j\<close> are the events whose lines make it up.\<close>

definition log_file :: "path \<Rightarrow> nat \<Rightarrow> path" where
  "log_file p j = (if j = 0 then p else backupPath p j)"

definition log_holds :: "encoder \<Rightarrow> path \<Rightarrow> nat \<Rightarrow> files \<Rightarrow> (nat \<Rightarrow> string event list) \<Rightarrow> bool" where
  "log_holds enc p mx fs H \<longleftrightarrow>
     (\<forall>j \<le> mx. case fs (log_file p j) of
        None \<Rightarrow> H j = [] | Some c \<Rightarrow> c = concat (map (enc_line enc) (H j)))"

text \<open>All retained events, oldest first.\<close>

fun retained :: "nat \<Rightarrow> (nat \<Rightarrow> 'a list) \<Rightarrow> 'a list" where
  "retained 0 H = H 0"
| "retained (Suc k) H = H (Suc k) @ retained k H"

definition read_fault_free :: "read_io \<Rightarrow> bool" where
  "read_fault_free io \<longleftrightarrow> rd_open io = (\<lambda>_. None) \<and> rd_fail io = (\<lambda>_. None) \<and> rd_stat io = (\<lambda>_. None)"

text \<open>Order and limit of a result.\<close>

definition present :: "filters \<Rightarrow> 'a list \<Rightarrow> 'a list" where
  "present f es = (let es = (if fl_Reverse f then rev es else es)
                   in if 0 < fl_Limit f then take (nat (fl_Limit f)) es else es)"

lemma match_event_iff:
  "match_event e f \<longleftrightarrow>
     (fl_Level f = [] \<or> ev_Level e = fl_Level f)
     \<and> (fl_Component f = [] \<or> ev_Component e = fl_Component f)
     \<and> (fl_Event f = [] \<or> ev_Event e = fl_Event f)
     \<and> (fl_PluginID f = [] \<or> ev_PluginID e = fl_PluginID f)
     \<and> (fl_GenerationID f = 0 \<or> ev_GenerationID e = fl_GenerationID f)
     \<and> (fl_Method f = [] \<or> ev_Method e = fl_Method f)
     \<and> (fl_CapabilityID f = [] \<or> ev_CapabilityID e = fl_CapabilityID f)
     \<and> (fl_OperationID f = [] \<or> ev_OperationID e = fl_OperationID f)
     \<and> (fl_CorrelationID f = [] \<or> ev_CorrelationID e = fl_CorrelationID f)
     \<and> (fl_Since f = 0 \<or> fl_Since f \<le> ev_Time e)"
  by (simp add: match_event_def linorder_not_less)

section \<open>The reversing loop\<close>

lemma reverse_loop_nth:
  assumes "j = int (length xs) - 1 - int i"
  shows "length (reverse_loop xs i j) = length xs
    \<and> (\<forall>k < length xs. reverse_loop xs i j ! k =
         (if i \<le> k \<and> int k \<le> j then xs ! (length xs - 1 - k) else xs ! k))"
  using assms
proof (induction xs i j rule: reverse_loop.induct)
  case (1 xs i j)
  show ?case
  proof (cases "int i < j")
    case False
    have "xs ! k = xs ! (length xs - 1 - k)" if "k < length xs" "i \<le> k" "int k \<le> j" for k
      using that False "1.prems" by (intro arg_cong [of _ _ "(!) xs"]) linarith
    with False show ?thesis by (auto simp: reverse_loop.simps [of xs i j])
  next
    case True
    let ?ys = "xs[i := xs ! nat j, nat j := xs ! i]"
    have j: "nat j < length xs" "i < length xs" "nat j = length xs - 1 - i" "i < nat j"
      using True "1.prems" by linarith+
    have IH: "length (reverse_loop ?ys (Suc i) (j - 1)) = length ?ys
      \<and> (\<forall>k < length ?ys. reverse_loop ?ys (Suc i) (j - 1) ! k =
           (if Suc i \<le> k \<and> int k \<le> j - 1 then ?ys ! (length ?ys - 1 - k) else ?ys ! k))"
      using "1.IH" [OF True] "1.prems" by simp
    have nth: "reverse_loop xs i j ! k = (if i \<le> k \<and> int k \<le> j then xs ! (length xs - 1 - k) else xs ! k)"
      if k: "k < length xs" for k
    proof -
      have step: "reverse_loop xs i j ! k
          = (if Suc i \<le> k \<and> int k \<le> j - 1 then ?ys ! (length xs - 1 - k) else ?ys ! k)"
        using IH k True by (simp add: reverse_loop.simps [of xs i j])
      consider "k = i" | "k = nat j" | "Suc i \<le> k" "int k \<le> j - 1" | "k < i \<or> int k > j" by linarith
      then show ?thesis
      proof cases
        case 1
        then have "?ys ! k = xs ! nat j" using j by simp
        then show ?thesis using 1 step j True by simp
      next
        case 2
        then have y: "?ys ! k = xs ! i" "length xs - 1 - k = i" using j by simp_all
        have c: "\<not> (Suc i \<le> k \<and> int k \<le> j - 1)" "i \<le> k \<and> int k \<le> j" using 2 True by linarith+
        show ?thesis unfolding step if_not_P [OF c(1)] if_P [OF c(2)] y ..
      next
        case 3
        then have "length xs - 1 - k \<noteq> i" "length xs - 1 - k \<noteq> nat j" using j k by linarith+
        then show ?thesis using 3 step by simp
      next
        case 4
        then have c: "\<not> (i \<le> k \<and> int k \<le> j)" "\<not> (Suc i \<le> k \<and> int k \<le> j - 1)" by linarith+
        have "?ys ! k = xs ! k" using 4 True by auto
        then show ?thesis unfolding step if_not_P [OF c(1)] if_not_P [OF c(2)] .
      qed
    qed
    with IH True show ?thesis by (simp add: reverse_loop.simps [of xs i j])
  qed
qed

lemma reverse_events_rev [simp]: "reverse_events xs = rev xs"
proof (rule nth_equalityI)
  have *: "length (reverse_events xs) = length xs
    \<and> (\<forall>k < length xs. reverse_events xs ! k =
         (if 0 \<le> k \<and> int k \<le> int (length xs) - 1 then xs ! (length xs - 1 - k) else xs ! k))"
    unfolding reverse_events_def by (rule reverse_loop_nth) simp
  then show "length (reverse_events xs) = length (rev xs)" by simp
  fix i assume "i < length (reverse_events xs)"
  then show "reverse_events xs ! i = rev xs ! i"
    using * by (simp add: rev_nth)
qed

section \<open>Reading what the files hold\<close>

lemma read_bytes_line: "CHR 0x0A \<notin> set l \<Longrightarrow> read_bytes (l @ CHR 0x0A # rest) = (l @ [CHR 0x0A], rest)"
  by (induction l) auto

lemma trim_eol_line: "l \<noteq> [] \<Longrightarrow> CHR 0x0A \<notin> set l \<Longrightarrow> last l \<noteq> CHR 0x0D \<Longrightarrow> trim_eol (l @ [CHR 0x0A]) = l"
  by (cases l rule: rev_cases) (auto simp: trim_eol_def)

text \<open>The files \<open>existingLogPaths\<close> finds, by index.\<close>

definition existing :: "files \<Rightarrow> path \<Rightarrow> nat \<Rightarrow> nat list" where
  "existing fs p k = filter (\<lambda>j. fs (log_file p j) \<noteq> None) (rev [0..<Suc k])"

lemma backup_paths_existing:
  assumes "read_fault_free io" and "fs p \<noteq> None"
  shows "backup_paths io fs p k @ [p] = map (log_file p) (existing fs p k)"
proof (induction k)
  case 0
  then show ?case using assms(2) by (simp add: existing_def log_file_def)
next
  case (Suc k)
  then show ?case
    using assms(1) by (simp add: existing_def log_file_def read_fault_free_def)
qed

lemma retained_existing:
  assumes "log_holds enc p mx fs H" and "k \<le> mx"
  shows "concat (map H (existing fs p k)) = retained k H"
  using assms(2)
proof (induction k)
  case 0
  then show ?case using assms(1) by (auto simp: existing_def log_holds_def split: option.splits)
next
  case (Suc k)
  have "fs (log_file p (Suc k)) = None \<Longrightarrow> H (Suc k) = []"
    using assms(1) Suc.prems by (auto simp: log_holds_def split: option.splits)
  with Suc show ?case by (auto simp: existing_def)
qed

lemma set_existing: "set (existing fs p k) = {j. j \<le> k \<and> fs (log_file p j) \<noteq> None}"
  by (auto simp: existing_def simp del: upt_Suc)

lemma log_holds_file:
  "log_holds enc p mx fs H \<Longrightarrow> j \<in> set (existing fs p mx)
    \<Longrightarrow> fs (log_file p j) = Some (concat (map (enc_line enc) (H j)))"
  by (auto simp: set_existing log_holds_def split: option.splits)

section \<open>Writing, then reading\<close>

text \<open>The events per file after one more event \<open>e\<close>; a rotation first moves every file up by one.\<close>

definition held_after :: "bool \<Rightarrow> string event \<Rightarrow> string event \<Rightarrow> (nat \<Rightarrow> string event list) \<Rightarrow> nat \<Rightarrow> string event list" where
  "held_after rot re e H j = (if rot then (if j = 0 then [re, e] else H (j - 1)) else if j = 0 then H 0 @ [e] else H j)"

lemma retained_cong: "(\<And>j. j \<le> k \<Longrightarrow> H j = H' j) \<Longrightarrow> retained k H = retained k H'"
  by (induction k) auto

lemma retained_shift: "retained (Suc k) (\<lambda>j. if j = 0 then xs else H (j - 1)) = retained k H @ xs"
  by (induction k) auto

lemma retained_last: "retained k (\<lambda>j. if j = 0 then H 0 @ xs else H j) = retained k H @ xs"
  by (induction k) auto

lemma retained_held_after:
  assumes "1 \<le> mx"
  shows "retained mx (held_after rot re e H)
    = (if rot then drop (length (H mx)) (retained mx H) @ [re, e] else retained mx H @ [e])"
proof -
  obtain k where k: "mx = Suc k" using assms by (cases mx) auto
  show ?thesis
    using retained_shift [of k "[re, e]" H] retained_last [of mx H "[e]"]
    by (simp add: k held_after_def [abs_def])
qed

lemma log_holds_Write:
  assumes io: "io_fault_free io" and ok: "logger_ok l fs"
    and H: "log_holds enc (lg_path l) (lg_maxBackups l) fs H"
    and re: "enc (rotationEvent io l) = Inr rl" and pl: "enc (with_defaults io e) = Inr pl"
    and w: "Write enc io e l fs = (res, l', fs')"
  shows "log_holds enc (lg_path l) (lg_maxBackups l) fs'
    (held_after (needs_rotation l fs (int (length pl) + 1)) (rotationEvent io l) (with_defaults io e) H)"
    (is "log_holds enc ?p ?mx fs' ?H'")
proof -
  let ?n = "int (length pl) + 1" and ?line = "pl @ [CHR 0x0A]"
  have lines: "enc_line enc (rotationEvent io l) = rl @ [CHR 0x0A]" "enc_line enc (with_defaults io e) = ?line"
    by (simp_all add: enc_line_def re pl)
  have open_l: "lg_open l" using ok by (simp add: logger_ok_def)
  obtain fs1 where r: "rotateIfNeeded enc io ?n l fs = (None, l, fs1)"
    using rotateIfNeeded_ok [of io l fs enc rl ?n, OF io ok re] by blast
  have fs': "fs' = append_file ?p ?line fs1"
    using w io pl r open_l by (auto simp: Write_def Let_def io_fault_free_def write_file_def add.commute)
  show ?thesis
  proof (cases "needs_rotation l fs ?n")
    case False
    then have "fs1 = fs" using rotateIfNeeded_keeps [OF io ok False, of enc] r by simp
    with H False lines(2) show ?thesis
      by (auto simp: fs' log_holds_def held_after_def append_file_def log_file_def split: option.splits)
  next
    case True
    obtain fs0 where rot: "rotated_files ?p ?mx fs fs0"
      and eq: "rotateIfNeeded enc io ?n l fs = write_rotation_event enc io l fs0"
      using rotateIfNeeded_rotates [OF io ok True] by blast
    have fs1: "fs1 = append_file ?p (rl @ [CHR 0x0A]) fs0"
      using r eq write_rotation_event_ok [of io enc l rl fs0, OF io re] by simp
    have moved: "fs' (log_file ?p (Suc j)) = fs (log_file ?p j)" if "Suc j \<le> ?mx" for j
      using rot that by (cases j) (auto simp: fs' fs1 rotated_files_def append_file_def log_file_def)
    have cur: "fs' ?p = Some ((rl @ [CHR 0x0A]) @ ?line)"
      using rot by (simp add: fs' fs1 rotated_files_def append_file_def)
    show ?thesis
      unfolding log_holds_def
    proof (intro allI impI)
      fix j assume j: "j \<le> ?mx"
      show "case fs' (log_file ?p j) of None \<Rightarrow> ?H' j = [] | Some c \<Rightarrow> c = concat (map (enc_line enc) (?H' j))"
      proof (cases j)
        case 0
        then show ?thesis using True cur lines by (simp add: held_after_def log_file_def)
      next
        case (Suc i)
        have h: "?H' j = H i" using True Suc by (simp add: held_after_def)
        have f: "fs' (log_file ?p j) = fs (log_file ?p i)" using j Suc moved [of i] by simp
        have "i \<le> ?mx" using j Suc by simp
        then show ?thesis using H unfolding log_holds_def h f by blast
      qed
    qed
  qed
qed

section \<open>The codec\<close>

text \<open>
  What the log relies on from its codec, for the events that are \<open>ok\<close>: a line is not empty, contains no
  newline, does not end in a carriage return, and decodes to the event it encodes, up to what the encoding
  does not keep (\<open>norm\<close>).
\<close>

locale event_codec =
  fixes enc :: encoder and decode :: decoder and norm :: "string event \<Rightarrow> string event" and ok :: "string event \<Rightarrow> bool"
  assumes codec: "ok e \<Longrightarrow> \<exists>l. enc e = Inr l \<and> decode l = Inr (norm e) \<and> l \<noteq> [] \<and> CHR 0x0A \<notin> set l \<and> last l \<noteq> CHR 0x0D"
begin

lemma read_loop_lines:
  "list_all ok es \<Longrightarrow> read_loop decode f p None (concat (map (enc_line enc) es)) n acc
    = Inr (acc @ filter (\<lambda>e. match_event e f) (map norm es))"
proof (induction es arbitrary: n acc)
  case Nil
  then show ?case by (simp add: read_loop.simps)
next
  case (Cons e es)
  obtain l where l: "enc e = Inr l" "decode l = Inr (norm e)" "l \<noteq> []" "CHR 0x0A \<notin> set l" "last l \<noteq> CHR 0x0D"
    using codec [of e] Cons.prems by auto
  have buf: "concat (map (enc_line enc) (e # es)) = l @ CHR 0x0A # concat (map (enc_line enc) es)"
    by (simp add: enc_line_def l(1))
  show ?case
    unfolding buf using Cons by (subst read_loop.simps) (simp add: read_bytes_line l trim_eol_line Let_def)
qed

lemma readOne_holds:
  assumes "read_fault_free io" and "fs q = Some (concat (map (enc_line enc) es))" and "list_all ok es"
  shows "readOne decode io fs f q = Inr (filter (\<lambda>e. match_event e f) (map norm es))"
  using assms read_loop_lines [OF assms(3), of f q 0 "[]"] by (simp add: readOne_def read_fault_free_def)

lemma read_paths_holds:
  assumes "read_fault_free io" and "list_all ok (concat (map H js))"
    and "\<And>j. j \<in> set js \<Longrightarrow> fs (log_file p j) = Some (concat (map (enc_line enc) (H j)))"
  shows "read_paths decode io fs f (map (log_file p) js) acc
    = Inr (acc @ filter (\<lambda>e. match_event e f) (map norm (concat (map H js))))"
  using assms(2,3)
proof (induction js arbitrary: acc)
  case (Cons j js)
  then have "readOne decode io fs f (log_file p j) = Inr (filter (\<lambda>e. match_event e f) (map norm (H j)))"
    by (intro readOne_holds [OF assms(1)]) simp_all
  with Cons show ?case by simp
qed simp

lemma ReadAll_holds:
  assumes "log_holds enc p DefaultMaxBackups fs H" and "read_fault_free io" and "fs p \<noteq> None"
    and "list_all ok (retained DefaultMaxBackups H)"
  shows "ReadAll decode io fs p f
    = Inr (present f (filter (\<lambda>e. match_event e f) (map norm (retained DefaultMaxBackups H))))"
proof -
  let ?js = "existing fs p DefaultMaxBackups"
  have ret: "concat (map H ?js) = retained DefaultMaxBackups H"
    by (rule retained_existing [OF assms(1)]) simp
  have paths: "existingLogPaths io fs p = Inr (map (log_file p) ?js)"
    using assms(2,3) backup_paths_existing [of io fs p DefaultMaxBackups, OF assms(2,3)]
    by (auto simp: existingLogPaths_def Let_def read_fault_free_def)
  have "read_paths decode io fs f (map (log_file p) ?js) []
      = Inr ([] @ filter (\<lambda>e. match_event e f) (map norm (concat (map H ?js))))"
    using assms(4) ret log_holds_file [OF assms(1)] by (intro read_paths_holds [OF assms(2)]) simp_all
  then show ?thesis unfolding ret by (simp add: ReadAll_def paths present_def Let_def)
qed

text \<open>What is written is read back: all events held before, less the oldest backup when the write rotates.\<close>

lemma Write_ReadAll:
  assumes io: "io_fault_free io" and rio: "read_fault_free rio" and lg: "logger_ok l fs"
    and mx: "lg_maxBackups l = DefaultMaxBackups"
    and H: "log_holds enc (lg_path l) DefaultMaxBackups fs H" and okH: "list_all ok (retained DefaultMaxBackups H)"
    and okr: "ok (rotationEvent io l)" and oke: "ok (with_defaults io e)"
  shows "\<exists>pl fs'. enc (with_defaults io e) = Inr pl \<and> Write enc io e l fs = (None, l, fs')
    \<and> ReadAll decode rio fs' (lg_path l) f =
        Inr (present f (filter (\<lambda>e. match_event e f) (map norm
          (if needs_rotation l fs (int (length pl) + 1)
           then drop (length (H DefaultMaxBackups)) (retained DefaultMaxBackups H)
                  @ [rotationEvent io l, with_defaults io e]
           else retained DefaultMaxBackups H @ [with_defaults io e]))))"
proof -
  obtain pl where pl: "enc (with_defaults io e) = Inr pl" using codec [OF oke] by blast
  obtain rl where rl: "enc (rotationEvent io l) = Inr rl" using codec [OF okr] by blast
  obtain fs' where w: "Write enc io e l fs = (None, l, fs')" and ok': "logger_ok l fs'"
    using Write_ok [of io l fs enc e pl rl, OF io lg pl rl] by blast
  let ?H' = "held_after (needs_rotation l fs (int (length pl) + 1)) (rotationEvent io l) (with_defaults io e) H"
  have ret: "retained DefaultMaxBackups ?H' = (if needs_rotation l fs (int (length pl) + 1)
      then drop (length (H DefaultMaxBackups)) (retained DefaultMaxBackups H) @ [rotationEvent io l, with_defaults io e]
      else retained DefaultMaxBackups H @ [with_defaults io e])"
    by (rule retained_held_after) (simp add: DefaultMaxBackups_def)
  have holds: "log_holds enc (lg_path l) DefaultMaxBackups fs' ?H'"
    using log_holds_Write [OF io lg _ rl pl w, of H] H mx by simp
  have "list_all ok (retained DefaultMaxBackups ?H')"
    using okH okr oke unfolding ret by (auto simp: list_all_iff dest: in_set_dropD)
  then have "ReadAll decode rio fs' (lg_path l) f
      = Inr (present f (filter (\<lambda>e. match_event e f) (map norm (retained DefaultMaxBackups ?H'))))"
    using ReadAll_holds [OF holds rio, of f] ok' by (simp add: logger_ok_def)
  then show ?thesis using pl w unfolding ret by blast
qed

text \<open>Every returned event satisfies every filter that is set, and the result respects order and limit.\<close>

lemma ReadAll_filters:
  assumes "log_holds enc p DefaultMaxBackups fs H" and "read_fault_free io" and "fs p \<noteq> None"
    and "list_all ok (retained DefaultMaxBackups H)" and "ReadAll decode io fs p f = Inr es"
  shows "list_all (\<lambda>e. match_event e f) es" and "0 < fl_Limit f \<Longrightarrow> int (length es) \<le> fl_Limit f"
    and "prefix es (let ms = filter (\<lambda>e. match_event e f) (map norm (retained DefaultMaxBackups H))
                 in if fl_Reverse f then rev ms else ms)"
proof -
  let ?ms = "filter (\<lambda>e. match_event e f) (map norm (retained DefaultMaxBackups H))"
  have es: "es = present f ?ms"
    using ReadAll_holds [of p fs H io f, OF assms(1-4)] assms(5) by simp
  show pre: "prefix es (let ms = ?ms in if fl_Reverse f then rev ms else ms)"
    by (simp add: es present_def Let_def take_is_prefix)
  have "set es \<subseteq> set ?ms" using set_mono_prefix [OF pre] by (auto simp: Let_def split: if_splits)
  then show "list_all (\<lambda>e. match_event e f) es" by (auto simp: list_all_iff)
  show "0 < fl_Limit f \<Longrightarrow> int (length es) \<le> fl_Limit f" by (auto simp: es present_def Let_def)
qed

end

definition quiet_read :: read_io where
  "quiet_read = \<lparr>rd_open = (\<lambda>_. None), rd_fail = (\<lambda>_. None), rd_stat = (\<lambda>_. None)\<rparr>"

section \<open>Summaries\<close>

lemma bump_apply: "bump k m x = (if x = k then Some (Suc (case m k of None \<Rightarrow> 0 | Some n \<Rightarrow> n)) else m x)"
  by (simp add: bump_def)

definition tally :: "counts \<Rightarrow> string \<Rightarrow> nat" where
  "tally m k = (case m k of None \<Rightarrow> 0 | Some n \<Rightarrow> n)"

lemma tally_bump: "tally (bump k m) x = (if x = k then Suc (tally m k) else tally m x)"
  by (simp add: tally_def bump_apply)

lemma summarize_loop_tally:
  "tally (sm_ByLevel (summarize_loop es s)) k = tally (sm_ByLevel s) k + length (filter (\<lambda>e. ev_Level e = k) es)
   \<and> tally (sm_ByEvent (summarize_loop es s)) k = tally (sm_ByEvent s) k + length (filter (\<lambda>e. ev_Event e = k) es)
   \<and> tally (sm_ByComponent (summarize_loop es s)) k
       = tally (sm_ByComponent s) k + length (filter (\<lambda>e. ev_Component e = k) es)
   \<and> sm_Total (summarize_loop es s) = sm_Total s"
  by (induction es arbitrary: s) (auto simp: tally_bump)

text \<open>
  The operator summary is exact: its total is the number of events and each counter of a level,
  event name or component is the number of events that carry it.
\<close>

theorem Summarize_counts:
  "sm_Total (Summarize es) = length es
   \<and> tally (sm_ByLevel (Summarize es)) k = length (filter (\<lambda>e. ev_Level e = k) es)
   \<and> tally (sm_ByEvent (Summarize es)) k = length (filter (\<lambda>e. ev_Event e = k) es)
   \<and> tally (sm_ByComponent (Summarize es)) k = length (filter (\<lambda>e. ev_Component e = k) es)"
  using summarize_loop_tally [of es] by (simp add: Summarize_def tally_def)

end
