(* ===== verification/Event_Json.thy ===== *)
theory Event_Json
  imports Event_Read Json_Struct "HOL-Library.AList"
begin

text \<open>
  The JSON codec of the event log: what \<open>json.Marshal\<close> and \<open>json.Unmarshal\<close> do with the \<open>Event\<close> structure of
  \<open>src/src/internal/eventlog/eventlog.go\<close> (field order, names and \<open>omitempty\<close> of its tags, details with sorted keys;
  field lookup by exact name and then without regard to case, \<open>null\<close> as no change, later members over earlier ones).
  The theory shows that the codec keeps every event up to \<open>norm_event\<close>, interprets the interface \<open>event_codec\<close> of the
  reader with it, and states what reading after a write returns.

  An empty list of details values stands for an empty slice (\<open>[]\<close>); a nil slice, which the model does not tell from it,
  would be printed as \<open>null\<close>. \<open>time.Time.UnmarshalJSON\<close> looks at the raw bytes of a string, so it refuses a time
  that is written with escapes; the model reads the unescaped text. The messages of codec errors are not modelled.
\<close>

section \<open>Values of the details\<close>

fun enc_value :: "any \<Rightarrow> json option" and enc_values :: "any list \<Rightarrow> json list option"
  and enc_members :: "(string \<times> any) list \<Rightarrow> (string \<times> json) list option" where
  "enc_value VNil = Some JsonNull"
| "enc_value (VBool b) = Some (JsonBool b)"
| "enc_value (VInt n) = Some (JsonNum (fmt_int n))"
| "enc_value (VFloat l) = (if plain_num l then Some (JsonNum l) else None)"
| "enc_value (VString s) = Some (JsonStr s)"
| "enc_value (VStrings vs) = Some (JsonArr (map JsonStr vs))"
| "enc_value (VList vs) = map_option JsonArr (enc_values vs)"
| "enc_value (VMap kvs) = map_option (JsonObj \<circ> sort_key fst) (enc_members kvs)"
| "enc_value VOther = None"
| "enc_values [] = Some []"
| "enc_values (v # vs) = (case (enc_value v, enc_values vs) of (Some j, Some js) \<Rightarrow> Some (j # js) | _ \<Rightarrow> None)"
| "enc_members [] = Some []"
| "enc_members ((k, v) # kvs) =
     (case (enc_value v, enc_members kvs) of (Some j, Some js) \<Rightarrow> Some ((k, j) # js) | _ \<Rightarrow> None)"

text \<open>Decoding into \<open>any\<close>: a number becomes a \<open>float64\<close>, an object a map in which later members replace earlier ones.\<close>

fun dec_value :: "json \<Rightarrow> any option" and dec_values :: "json list \<Rightarrow> any list option"
  and dec_members :: "(string \<times> json) list \<Rightarrow> details \<Rightarrow> details option" where
  "dec_value JsonNull = Some VNil"
| "dec_value (JsonBool b) = Some (VBool b)"
| "dec_value (JsonNum l) = (if float_fits l then Some (VFloat l) else None)"
| "dec_value (JsonStr s) = Some (VString s)"
| "dec_value (JsonArr js) = map_option VList (dec_values js)"
| "dec_value (JsonObj kvs) = map_option VMap (dec_members kvs [])"
| "dec_values [] = Some []"
| "dec_values (j # js) = (case (dec_value j, dec_values js) of (Some v, Some vs) \<Rightarrow> Some (v # vs) | _ \<Rightarrow> None)"
| "dec_members [] m = Some m"
| "dec_members ((k, j) # kvs) m = (case dec_value j of None \<Rightarrow> None | Some v \<Rightarrow> dec_members kvs (AList.update k v m))"

section \<open>Events\<close>

definition event_members :: "string \<Rightarrow> (string \<times> json) list \<Rightarrow> string event \<Rightarrow> (string \<times> json) list" where
  "event_members t ds e =
     [(''time'', JsonStr t), (''level'', JsonStr (ev_Level e)), (''component'', JsonStr (ev_Component e)),
      (''event'', JsonStr (ev_Event e))]
     @ opt_str ''plugin_id'' (ev_PluginID e)
     @ opt_field ''generation_id'' (ev_GenerationID e \<noteq> 0) (JsonNum (dec (unat (ev_GenerationID e))))
     @ opt_field ''pid'' (ev_PID e \<noteq> 0) (JsonNum (fmt_int (ev_PID e)))
     @ opt_str ''socket_path'' (ev_SocketPath e)
     @ opt_str ''method'' (ev_Method e)
     @ opt_str ''capability_id'' (ev_CapabilityID e)
     @ opt_str ''operation_id'' (ev_OperationID e)
     @ opt_str ''correlation_id'' (ev_CorrelationID e)
     @ opt_str ''status'' (ev_Status e)
     @ opt_field ''duration_ms'' (ev_DurationMS e \<noteq> 0) (JsonNum (fmt_int (ev_DurationMS e)))
     @ opt_str ''error_class'' (ev_ErrorClass e)
     @ opt_str ''degraded_reason'' (ev_DegradedReason e)
     @ opt_str ''message'' (ev_Message e)
     @ opt_str ''error'' (ev_Error e)
     @ opt_str ''reason'' (ev_Reason e)
     @ opt_field ''details'' (ds \<noteq> []) (JsonObj (sort_key fst ds))"

definition marshal_event :: encoder where
  "marshal_event e =
     (case FormatRFC3339 (ev_Time e) of
        Inl er \<Rightarrow> Inl (Wrapf ''json: error calling MarshalJSON: %w'' [] er)
      | Inr t \<Rightarrow>
          (case enc_members (ev_Details e) of
             None \<Rightarrow> Inl (err ''json: unsupported type'')
           | Some ds \<Rightarrow> Inr (print_json (JsonObj (event_members t ds e)))))"

definition event_fields :: "string list" where
  "event_fields = [''time'', ''level'', ''component'', ''event'', ''plugin_id'', ''generation_id'', ''pid'', ''socket_path'',
     ''method'', ''capability_id'', ''operation_id'', ''correlation_id'', ''status'', ''duration_ms'', ''error_class'',
     ''degraded_reason'', ''message'', ''error'', ''reason'', ''details'']"

fun get_details :: "json \<Rightarrow> details \<Rightarrow> goerr + details" where
  "get_details JsonNull old = Inr []"
| "get_details (JsonObj kvs) old = (case dec_members kvs old of None \<Rightarrow> Inl mismatch | Some m \<Rightarrow> Inr m)"
| "get_details _ old = Inl mismatch"

definition set_field :: "string \<Rightarrow> json \<Rightarrow> string event \<Rightarrow> goerr + string event" where
  "set_field n v e =
     (if n = ''time'' then put (get_time v (ev_Time e)) (\<lambda>x. e\<lparr>ev_Time := x\<rparr>)
      else if n = ''level'' then put (get_str v (ev_Level e)) (\<lambda>x. e\<lparr>ev_Level := x\<rparr>)
      else if n = ''component'' then put (get_str v (ev_Component e)) (\<lambda>x. e\<lparr>ev_Component := x\<rparr>)
      else if n = ''event'' then put (get_str v (ev_Event e)) (\<lambda>x. e\<lparr>ev_Event := x\<rparr>)
      else if n = ''plugin_id'' then put (get_str v (ev_PluginID e)) (\<lambda>x. e\<lparr>ev_PluginID := x\<rparr>)
      else if n = ''generation_id'' then put (get_uint64 v (ev_GenerationID e)) (\<lambda>x. e\<lparr>ev_GenerationID := x\<rparr>)
      else if n = ''pid'' then put (get_int v (ev_PID e)) (\<lambda>x. e\<lparr>ev_PID := x\<rparr>)
      else if n = ''socket_path'' then put (get_str v (ev_SocketPath e)) (\<lambda>x. e\<lparr>ev_SocketPath := x\<rparr>)
      else if n = ''method'' then put (get_str v (ev_Method e)) (\<lambda>x. e\<lparr>ev_Method := x\<rparr>)
      else if n = ''capability_id'' then put (get_str v (ev_CapabilityID e)) (\<lambda>x. e\<lparr>ev_CapabilityID := x\<rparr>)
      else if n = ''operation_id'' then put (get_str v (ev_OperationID e)) (\<lambda>x. e\<lparr>ev_OperationID := x\<rparr>)
      else if n = ''correlation_id'' then put (get_str v (ev_CorrelationID e)) (\<lambda>x. e\<lparr>ev_CorrelationID := x\<rparr>)
      else if n = ''status'' then put (get_str v (ev_Status e)) (\<lambda>x. e\<lparr>ev_Status := x\<rparr>)
      else if n = ''duration_ms'' then put (get_int v (ev_DurationMS e)) (\<lambda>x. e\<lparr>ev_DurationMS := x\<rparr>)
      else if n = ''error_class'' then put (get_str v (ev_ErrorClass e)) (\<lambda>x. e\<lparr>ev_ErrorClass := x\<rparr>)
      else if n = ''degraded_reason'' then put (get_str v (ev_DegradedReason e)) (\<lambda>x. e\<lparr>ev_DegradedReason := x\<rparr>)
      else if n = ''message'' then put (get_str v (ev_Message e)) (\<lambda>x. e\<lparr>ev_Message := x\<rparr>)
      else if n = ''error'' then put (get_str v (ev_Error e)) (\<lambda>x. e\<lparr>ev_Error := x\<rparr>)
      else if n = ''reason'' then put (get_str v (ev_Reason e)) (\<lambda>x. e\<lparr>ev_Reason := x\<rparr>)
      else put (get_details v (ev_Details e)) (\<lambda>x. e\<lparr>ev_Details := x\<rparr>))"

definition unmarshal_event :: decoder where
  "unmarshal_event s =
     (case parse_json s of
        None \<Rightarrow> Inl (err ''json: syntax error'')
      | Some JsonNull \<Rightarrow> Inr (zero_event [])
      | Some (JsonObj kvs) \<Rightarrow> set_fields event_fields set_field kvs (zero_event [])
      | Some _ \<Rightarrow> Inl mismatch)"

section \<open>What the codec keeps\<close>

text \<open>
  Numbers come back as \<open>float64\<close>, string slices as lists, text that is not UTF-8 with replacement characters, and the
  keys of maps sorted.
\<close>

fun norm_value :: "any \<Rightarrow> any" and norm_values :: "any list \<Rightarrow> any list"
  and norm_members :: "details \<Rightarrow> details" where
  "norm_value (VInt n) = VFloat (fmt_int n)"
| "norm_value (VString s) = VString (to_valid s)"
| "norm_value (VStrings vs) = VList (map (VString \<circ> to_valid) vs)"
| "norm_value (VList vs) = VList (norm_values vs)"
| "norm_value (VMap kvs) = VMap (sort_key fst (norm_members kvs))"
| "norm_value v = v"
| "norm_values [] = []"
| "norm_values (v # vs) = norm_value v # norm_values vs"
| "norm_members [] = []"
| "norm_members ((k, v) # kvs) = (k, norm_value v) # norm_members kvs"

definition norm_event :: "string event \<Rightarrow> string event" where
  "norm_event e =
     \<lparr>ev_Time = ev_Time e, ev_Level = to_valid (ev_Level e), ev_Component = to_valid (ev_Component e),
      ev_Event = to_valid (ev_Event e), ev_PluginID = to_valid (ev_PluginID e), ev_GenerationID = ev_GenerationID e,
      ev_PID = ev_PID e, ev_SocketPath = to_valid (ev_SocketPath e), ev_Method = to_valid (ev_Method e),
      ev_CapabilityID = to_valid (ev_CapabilityID e), ev_OperationID = to_valid (ev_OperationID e),
      ev_CorrelationID = to_valid (ev_CorrelationID e), ev_Status = to_valid (ev_Status e),
      ev_DurationMS = ev_DurationMS e, ev_ErrorClass = to_valid (ev_ErrorClass e),
      ev_DegradedReason = to_valid (ev_DegradedReason e), ev_Message = to_valid (ev_Message e),
      ev_Error = to_valid (ev_Error e), ev_Reason = to_valid (ev_Reason e),
      ev_Details = sort_key fst (norm_members (ev_Details e))\<rparr>"

text \<open>How deep a value nests.\<close>

fun value_depth :: "any \<Rightarrow> int" and values_depth :: "any list \<Rightarrow> int" and members_depth :: "details \<Rightarrow> int" where
  "value_depth (VStrings vs) = 1"
| "value_depth (VList vs) = 1 + values_depth vs"
| "value_depth (VMap kvs) = 1 + members_depth kvs"
| "value_depth _ = 0"
| "values_depth [] = 0"
| "values_depth (v # vs) = max (value_depth v) (values_depth vs)"
| "members_depth [] = 0"
| "members_depth ((k, v) # kvs) = max (value_depth v) (members_depth kvs)"

text \<open>
  What \<open>json.Marshal\<close> accepts: machine integers, finite floats, maps with distinct keys that are UTF-8; and what
  \<open>json.Unmarshal\<close> does not find too deep, the event and its details being two levels of their own.
\<close>

fun plain_value :: "any \<Rightarrow> bool" and plain_values :: "any list \<Rightarrow> bool" and plain_members :: "details \<Rightarrow> bool" where
  "plain_value (VInt n) \<longleftrightarrow> - (2 ^ 63) \<le> n \<and> n < 2 ^ 64"
| "plain_value (VFloat l) \<longleftrightarrow> plain_num l \<and> float_fits l"
| "plain_value (VList vs) \<longleftrightarrow> plain_values vs"
| "plain_value (VMap kvs) \<longleftrightarrow> plain_members kvs \<and> distinct (map fst kvs)"
| "plain_value VOther \<longleftrightarrow> False"
| "plain_value _ \<longleftrightarrow> True"
| "plain_values [] \<longleftrightarrow> True"
| "plain_values (v # vs) \<longleftrightarrow> plain_value v \<and> plain_values vs"
| "plain_members [] \<longleftrightarrow> True"
| "plain_members ((k, v) # kvs) \<longleftrightarrow> valid_utf8 k \<and> plain_value v \<and> plain_members kvs"

definition int64 :: "int \<Rightarrow> bool" where "int64 n \<longleftrightarrow> - (2 ^ 63) \<le> n \<and> n < 2 ^ 63"

definition encodable :: "string event \<Rightarrow> bool" where
  "encodable e \<longleftrightarrow> writable_time (ev_Time e) \<and> int64 (ev_PID e) \<and> int64 (ev_DurationMS e)
     \<and> plain_members (ev_Details e) \<and> distinct (map fst (ev_Details e))
     \<and> members_depth (ev_Details e) \<le> maxNestingDepth - 2"

lemma sort_members: "(\<And>x. fst (g x) = fst x) \<Longrightarrow> sort_key fst (map g xs) = map g (sort_key fst xs)"
proof (induction xs)
  case (Cons x xs)
  have "insort_key fst (g x) (map g ys) = map g (insort_key fst x ys)" for ys
    using Cons.prems by (induction ys) simp_all
  with Cons show ?case by simp
qed simp

definition keeps :: "any \<Rightarrow> bool" where
  "keeps v \<longleftrightarrow> (\<exists>j. enc_value v = Some j \<and> nums_ok j \<and> dec_value (sanitize j) = Some (norm_value v))"

definition coded :: "string \<times> any \<Rightarrow> string \<times> json" where
  "coded kv = (fst kv, the (enc_value (snd kv)))"

lemma norm_members_map: "norm_members kvs = map (apsnd norm_value) kvs"
  by (induction kvs) auto

lemma enc_members_keep: "list_all (keeps \<circ> snd) kvs \<Longrightarrow> enc_members kvs = Some (map coded kvs)"
  by (induction kvs) (auto simp: keeps_def coded_def)

lemma update_new: "k \<notin> fst ` set m \<Longrightarrow> AList.update k v m = m @ [(k, v)]"
  by (induction m) auto

lemma dec_members_keep:
  "list_all (keeps \<circ> snd) kvs \<Longrightarrow> list_all (valid_utf8 \<circ> fst) kvs \<Longrightarrow> distinct (map fst m @ map fst kvs)
    \<Longrightarrow> dec_members (sanitize_members (map coded kvs)) m = Some (m @ norm_members kvs)"
proof (induction kvs arbitrary: m)
  case (Cons kv kvs)
  obtain k v where kv: "kv = (k, v)" by (cases kv)
  obtain j where j: "enc_value v = Some j" "dec_value (sanitize j) = Some (norm_value v)"
    using Cons.prems(1) by (auto simp: kv keeps_def)
  have "AList.update k (norm_value v) m = m @ [(k, norm_value v)]"
    using Cons.prems(3) by (intro update_new) (auto simp: kv)
  with Cons j show ?case by (simp add: kv coded_def to_valid_id)
qed simp

lemma members_keep:
  assumes "list_all (keeps \<circ> snd) kvs" "list_all (valid_utf8 \<circ> fst) kvs" "distinct (map fst kvs)"
  shows "\<exists>js. enc_members kvs = Some js \<and> (js = [] \<longleftrightarrow> kvs = []) \<and> nums_ok_members (sort_key fst js)
    \<and> dec_members (sanitize_members (sort_key fst js)) [] = Some (sort_key fst (norm_members kvs))"
proof -
  let ?s = "sort_key fst kvs"
  have s: "sort_key fst (map coded kvs) = map coded ?s" "sort_key fst (norm_members kvs) = norm_members ?s"
    unfolding norm_members_map by (rule sort_members; simp add: coded_def)+
  have all: "list_all (keeps \<circ> snd) ?s" "list_all (valid_utf8 \<circ> fst) ?s" "distinct (map fst [] @ map fst ?s)"
    using assms by (simp_all add: list_all_iff distinct_map)
  have "nums_ok_members (map coded ?s)"
    using all(1) by (auto simp: nums_ok_members_all list_all_iff keeps_def coded_def)
  then show ?thesis
    using enc_members_keep [OF assms(1)] dec_members_keep [OF all] by (simp add: s)
qed

lemma strings_keep:
  "dec_values (sanitize_elems (map JsonStr vs)) = Some (map (VString \<circ> to_valid) vs)" "nums_ok_elems (map JsonStr vs)"
  by (induction vs) simp_all

lemma value_keeps:
  "plain_value v \<Longrightarrow> keeps v"
  "plain_values vs \<Longrightarrow> \<exists>js. enc_values vs = Some js \<and> nums_ok_elems js \<and> dec_values (sanitize_elems js) = Some (norm_values vs)"
  "plain_members kvs \<Longrightarrow> list_all (keeps \<circ> snd) kvs \<and> list_all (valid_utf8 \<circ> fst) kvs"
proof (induction v and vs and kvs rule: plain_value_plain_values_plain_members.induct)
  case (1 n)
  then show ?case using plain_num_fmt_int [of n] by (simp add: keeps_def plain_num_def float_fits_fmt_int)
next
  case (4 kvs)
  then obtain js where "enc_members kvs = Some js" "nums_ok_members (sort_key fst js)"
    "dec_members (sanitize_members (sort_key fst js)) [] = Some (sort_key fst (norm_members kvs))"
    using members_keep [of kvs] by (metis plain_value.simps(4))
  then show ?case by (auto simp: keeps_def)
qed (auto simp: keeps_def plain_num_def strings_keep)

section \<open>Events are kept\<close>

lemma set_field_simps:
  "set_field ''time'' v e = put (get_time v (ev_Time e)) (\<lambda>x. e\<lparr>ev_Time := x\<rparr>)"
  "set_field ''level'' v e = put (get_str v (ev_Level e)) (\<lambda>x. e\<lparr>ev_Level := x\<rparr>)"
  "set_field ''component'' v e = put (get_str v (ev_Component e)) (\<lambda>x. e\<lparr>ev_Component := x\<rparr>)"
  "set_field ''event'' v e = put (get_str v (ev_Event e)) (\<lambda>x. e\<lparr>ev_Event := x\<rparr>)"
  "set_field ''plugin_id'' v e = put (get_str v (ev_PluginID e)) (\<lambda>x. e\<lparr>ev_PluginID := x\<rparr>)"
  "set_field ''generation_id'' v e = put (get_uint64 v (ev_GenerationID e)) (\<lambda>x. e\<lparr>ev_GenerationID := x\<rparr>)"
  "set_field ''pid'' v e = put (get_int v (ev_PID e)) (\<lambda>x. e\<lparr>ev_PID := x\<rparr>)"
  "set_field ''socket_path'' v e = put (get_str v (ev_SocketPath e)) (\<lambda>x. e\<lparr>ev_SocketPath := x\<rparr>)"
  "set_field ''method'' v e = put (get_str v (ev_Method e)) (\<lambda>x. e\<lparr>ev_Method := x\<rparr>)"
  "set_field ''capability_id'' v e = put (get_str v (ev_CapabilityID e)) (\<lambda>x. e\<lparr>ev_CapabilityID := x\<rparr>)"
  "set_field ''operation_id'' v e = put (get_str v (ev_OperationID e)) (\<lambda>x. e\<lparr>ev_OperationID := x\<rparr>)"
  "set_field ''correlation_id'' v e = put (get_str v (ev_CorrelationID e)) (\<lambda>x. e\<lparr>ev_CorrelationID := x\<rparr>)"
  "set_field ''status'' v e = put (get_str v (ev_Status e)) (\<lambda>x. e\<lparr>ev_Status := x\<rparr>)"
  "set_field ''duration_ms'' v e = put (get_int v (ev_DurationMS e)) (\<lambda>x. e\<lparr>ev_DurationMS := x\<rparr>)"
  "set_field ''error_class'' v e = put (get_str v (ev_ErrorClass e)) (\<lambda>x. e\<lparr>ev_ErrorClass := x\<rparr>)"
  "set_field ''degraded_reason'' v e = put (get_str v (ev_DegradedReason e)) (\<lambda>x. e\<lparr>ev_DegradedReason := x\<rparr>)"
  "set_field ''message'' v e = put (get_str v (ev_Message e)) (\<lambda>x. e\<lparr>ev_Message := x\<rparr>)"
  "set_field ''error'' v e = put (get_str v (ev_Error e)) (\<lambda>x. e\<lparr>ev_Error := x\<rparr>)"
  "set_field ''reason'' v e = put (get_str v (ev_Reason e)) (\<lambda>x. e\<lparr>ev_Reason := x\<rparr>)"
  "set_field ''details'' v e = put (get_details v (ev_Details e)) (\<lambda>x. e\<lparr>ev_Details := x\<rparr>)"
  by (simp_all add: set_field_def)

lemma event_field_names:
  "''time'' \<in> set event_fields"
  "''level'' \<in> set event_fields"
  "''component'' \<in> set event_fields"
  "''event'' \<in> set event_fields"
  "''plugin_id'' \<in> set event_fields"
  "''generation_id'' \<in> set event_fields"
  "''pid'' \<in> set event_fields"
  "''socket_path'' \<in> set event_fields"
  "''method'' \<in> set event_fields"
  "''capability_id'' \<in> set event_fields"
  "''operation_id'' \<in> set event_fields"
  "''correlation_id'' \<in> set event_fields"
  "''status'' \<in> set event_fields"
  "''duration_ms'' \<in> set event_fields"
  "''error_class'' \<in> set event_fields"
  "''degraded_reason'' \<in> set event_fields"
  "''message'' \<in> set event_fields"
  "''error'' \<in> set event_fields"
  "''reason'' \<in> set event_fields"
  "''details'' \<in> set event_fields"
  by (simp_all add: event_fields_def)

interpretation ef: json_struct event_fields set_field
  by unfold_locales (auto simp: event_fields_def)

lemma event_members_ok:
  assumes "nums_ok_members (sort_key fst ds)"
  shows "nums_ok_members (event_members t ds e)"
  using assms plain_num_dec plain_num_fmt_int
  by (simp add: event_members_def nums_ok_append nums_ok_opt plain_num_def)

lemma depth_sort: "depth_members (sort_key fst js) = depth_members js"
proof (rule antisym)
  show "depth_members (sort_key fst js) \<le> depth_members js"
    using depth_members_le [OF depth_nonneg [of js], of js] by (simp add: depth_members_le depth_nonneg)
  show "depth_members js \<le> depth_members (sort_key fst js)"
    using depth_members_le [OF depth_nonneg [of "sort_key fst js"], of "sort_key fst js"] by (simp add: depth_members_le depth_nonneg)
qed

lemma enc_depth:
  "enc_value v = Some j \<Longrightarrow> depth j \<le> value_depth v"
  "enc_values vs = Some js \<Longrightarrow> depth_elems js \<le> values_depth vs"
  "enc_members kvs = Some ms \<Longrightarrow> depth_members ms \<le> members_depth kvs"
proof (induction v and vs and kvs arbitrary: j and js and ms rule: enc_value_enc_values_enc_members.induct)
  case (6 vs)
  have "depth_elems (map JsonStr vs) = 0" by (induction vs) simp_all
  then show ?case using 6 by auto
next
  case (11 v vs)
  then show ?case by (fastforce split: option.splits)
next
  case (13 k v kvs)
  then show ?case by (fastforce split: option.splits)
qed (auto simp: depth_sort split: if_splits)

lemma event_members_depth: "depth_members (event_members t ds e) \<le> 1 + depth_members ds"
  using depth_nonneg [of ds] by (simp add: event_members_def opt_field_def depth_sort)

lemma set_fields_event:
  assumes t: "FormatRFC3339 (ev_Time e) = Inr t" "ParseRFC3339 t = Some (ev_Time e)"
    and ints: "int64 (ev_PID e)" "int64 (ev_DurationMS e)"
    and ds: "ds = [] \<longleftrightarrow> ev_Details e = []"
      "dec_members (sanitize_members (sort_key fst ds)) [] = Some (sort_key fst (norm_members (ev_Details e)))"
  shows "set_fields event_fields set_field (sanitize_members (event_members t ds e)) (zero_event []) = Inr (norm_event e)"
proof -
  have pid: "Atoi (fmt_int (ev_PID e)) = Inr (ev_PID e)" "Atoi (fmt_int (ev_DurationMS e)) = Inr (ev_DurationMS e)"
    using ints by (simp_all add: int64_def Atoi_fmt_int)
  have nil: "sort_key fst (norm_members (ev_Details e)) = [] \<longleftrightarrow> ds = []"
    using ds(1) by (simp add: norm_members_map flip: length_0_conv)
  show ?thesis
    unfolding event_members_def zero_event_def append_Cons append_Nil norm_event_def
    by (simp add: ef.set_member ef.set_opt_str ef.set_opt_num ef.set_opt_obj event_field_names set_field_simps put_def pid nil t(2)
        time_to_valid [OF t(1)] ParseUint_dec ds(2) del: sanitize_members.simps)
qed

lemma event_codec:
  assumes "encodable e"
  shows "\<exists>l. marshal_event e = Inr l \<and> unmarshal_event l = Inr (norm_event e) \<and> l \<noteq> [] \<and> CHR 0x0A \<notin> set l \<and> last l \<noteq> CHR 0x0D"
proof -
  obtain t where t: "FormatRFC3339 (ev_Time e) = Inr t" "ParseRFC3339 t = Some (ev_Time e)"
    using ParseRFC3339_Format assms by (auto simp: encodable_def)
  obtain ds where ds: "enc_members (ev_Details e) = Some ds" "ds = [] \<longleftrightarrow> ev_Details e = []" "nums_ok_members (sort_key fst ds)"
    "dec_members (sanitize_members (sort_key fst ds)) [] = Some (sort_key fst (norm_members (ev_Details e)))"
    using members_keep [of "ev_Details e"] value_keeps(3) assms by (auto simp: encodable_def)
  let ?ms = "event_members t ds e"
  have ok: "nums_ok_members ?ms" by (rule event_members_ok [OF ds(3)])
  have dp: "depth (JsonObj ?ms) \<le> maxNestingDepth"
    using event_members_depth [of t ds e] enc_depth(3) [OF ds(1)] assms by (simp add: encodable_def)
  have "set_fields event_fields set_field (sanitize_members ?ms) (zero_event []) = Inr (norm_event e)"
    using t ds(2,4) assms by (intro set_fields_event) (auto simp: encodable_def)
  then have "unmarshal_event (print_json (JsonObj ?ms)) = Inr (norm_event e)"
    using parse_print [of "JsonObj ?ms"] ok dp by (simp add: unmarshal_event_def)
  then show ?thesis using print_object_line [OF ok] t(1) ds(1) by (simp add: marshal_event_def)
qed

interpretation ej: event_codec marshal_event unmarshal_event norm_event encodable
  by unfold_locales (rule event_codec)

lemma rotationEvent_encodable:
  assumes "writable_time (io_rotated io)" "int64 (lg_maxBytes l)" "int64 (int (lg_maxBackups l))"
  shows "encodable (rotationEvent io l)"
proof -
  have "valid_utf8 ''path''" "valid_utf8 ''max_bytes''" "valid_utf8 ''max_backups''" by code_simp+
  then show ?thesis using assms by (simp add: encodable_def rotationEvent_def zero_event_def int64_def maxNestingDepth_def)
qed

section \<open>Properties\<close>

definition one_event :: "string event" where
  "one_event = (zero_event [])\<lparr>ev_Time := 7, ev_Level := LevelInfo, ev_Component := ComponentKernel, ev_GenerationID := 3,
     ev_Details := [(''n'', VInt 2)]\<rparr>"

lemma one_event_encodable: "encodable one_event"
  by code_simp

lemma norm_one_event: "norm_event one_event = one_event\<lparr>ev_Details := [(''n'', VFloat ''2'')]\<rparr>"
  by code_simp

text \<open>
  C25: the codec keeps events. Every event that can be marshalled and does not nest too deep is read back from its line as it was, except that
  numbers in the details are floats, string slices are lists, map keys are in order, and bytes that are not UTF-8 are
  replacement characters.
\<close>

theorem unmarshal_marshal:
  assumes "encodable e"
  shows "\<exists>line. marshal_event e = Inr line \<and> unmarshal_event line = Inr (norm_event e) \<and> CHR 0x0A \<notin> set line"
  using event_codec [OF assms] by blast

theorem unmarshal_marshal_witness:
  "\<exists>line. marshal_event one_event = Inr line
     \<and> unmarshal_event line = Inr (one_event\<lparr>ev_Details := [(''n'', VFloat ''2'')]\<rparr>)"
  using unmarshal_marshal [OF one_event_encodable] norm_one_event by auto

text \<open>
  C24: what is written can be read back. If the log files hold the events \<open>H\<close> (per file) and a fault-free \<open>Write\<close>
  adds \<open>e\<close>, then the write succeeds and \<open>ReadAll\<close> returns, as the codec keeps them, selected by the filters and
  ordered and cut as they ask, all events held before followed by \<open>e\<close> with its defaults; only when the write rotates
  are the events of the oldest backup gone, and a rotation event stands before \<open>e\<close>.
\<close>

theorem Write_then_ReadAll:
  assumes "io_fault_free io" and "read_fault_free rio" and "logger_ok l fs" and "lg_maxBackups l = DefaultMaxBackups"
    and "log_holds marshal_event (lg_path l) DefaultMaxBackups fs H" and "list_all encodable (retained DefaultMaxBackups H)"
    and "encodable (with_defaults io e)" and "writable_time (io_rotated io)" and "int64 (lg_maxBytes l)"
  shows "\<exists>line fs'. marshal_event (with_defaults io e) = Inr line \<and> Write marshal_event io e l fs = (None, l, fs')
    \<and> ReadAll unmarshal_event rio fs' (lg_path l) f =
        Inr (present f (filter (\<lambda>e. match_event e f) (map norm_event
          (if needs_rotation l fs (int (length line) + 1)
           then drop (length (H DefaultMaxBackups)) (retained DefaultMaxBackups H)
                  @ [rotationEvent io l, with_defaults io e]
           else retained DefaultMaxBackups H @ [with_defaults io e]))))"
proof -
  have "encodable (rotationEvent io l)"
    using assms(4,8,9) by (intro rotationEvent_encodable) (simp_all add: DefaultMaxBackups_def int64_def)
  then show ?thesis
    using ej.Write_ReadAll [of io rio l fs H e f, OF assms(1-6) _ assms(7)] by blast
qed

theorem Write_then_ReadAll_witness:
  "let l = \<lparr>lg_path = ''a.log'', lg_open = True, lg_maxBytes = 100, lg_maxBackups = DefaultMaxBackups\<rparr>
   in \<exists>fs'. Write marshal_event quiet_io one_event l [''a.log'' \<mapsto> []] = (None, l, fs')
        \<and> ReadAll unmarshal_event quiet_read fs' ''a.log'' (no_filters\<lparr>fl_GenerationID := 3\<rparr>)
            = Inr [one_event\<lparr>ev_Details := [(''n'', VFloat ''2'')]\<rparr>]"
proof -
  let ?l = "\<lparr>lg_path = ''a.log'', lg_open = True, lg_maxBytes = 100, lg_maxBackups = DefaultMaxBackups\<rparr>"
  let ?fs = "[''a.log'' \<mapsto> []] :: files" and ?f = "no_filters\<lparr>fl_GenerationID := 3\<rparr>"
  have io: "io_fault_free quiet_io" "read_fault_free quiet_read"
    by (simp_all add: io_fault_free_def quiet_io_def read_fault_free_def quiet_read_def)
  have ok: "logger_ok ?l ?fs" by (simp add: logger_ok_def DefaultMaxBackups_def)
  have b: "?fs (log_file ''a.log'' j) = (if j = 0 then Some [] else None)" for j
    using backupPath_neq [of "''a.log''" j] by (simp add: log_file_def del: backupPath_neq)
  have H: "log_holds marshal_event (lg_path ?l) DefaultMaxBackups ?fs (\<lambda>_. [])"
    unfolding log_holds_def logger.select_convs b by simp
  have ret: "retained DefaultMaxBackups (\<lambda>_. []) = ([] :: string event list)"
    by (simp add: DefaultMaxBackups_def numeral_eq_Suc)
  have e: "with_defaults quiet_io one_event = one_event" by (simp add: with_defaults_def one_event_def)
  have now: "writable_time (io_rotated quiet_io)" by code_simp
  have l: "lg_maxBackups ?l = DefaultMaxBackups" "int64 (lg_maxBytes ?l)" by (simp_all add: int64_def)
  have none: "list_all encodable []" by simp
  have sel: "match_event (norm_event one_event) ?f" "\<not> match_event (norm_event (rotationEvent quiet_io ?l)) ?f"
    by (simp_all add: match_event_def no_filters_def norm_event_def one_event_def rotationEvent_def zero_event_def)
  obtain line :: string and fs' where "Write marshal_event quiet_io one_event ?l ?fs = (None, ?l, fs')"
    "ReadAll unmarshal_event quiet_read fs' ''a.log'' ?f = Inr (present ?f (filter (\<lambda>e. match_event e ?f) (map norm_event
      (if needs_rotation ?l ?fs (int (length line) + 1) then [rotationEvent quiet_io ?l, one_event] else [one_event]))))"
    using Write_then_ReadAll [OF io ok l(1) H _ _ now l(2), of one_event ?f, unfolded e ret drop_Nil append_Nil logger.select_convs,
        OF none one_event_encodable] by blast
  then show ?thesis using sel by (auto simp: norm_one_event [symmetric] present_def no_filters_def)
qed

text \<open>
  The filters select as documented: every returned event satisfies every filter that is set, the number of events
  respects a positive limit, and the result is a prefix of the matching events, newest first when \<open>Reverse\<close> is set.
\<close>

lemma ReadAll_respects_filters:
  assumes "log_holds marshal_event p DefaultMaxBackups fs H" and "read_fault_free io" and "fs p \<noteq> None"
    and "list_all encodable (retained DefaultMaxBackups H)" and "ReadAll unmarshal_event io fs p f = Inr es"
  shows "list_all (\<lambda>e. match_event e f) es \<and> (0 < fl_Limit f \<longrightarrow> int (length es) \<le> fl_Limit f)
    \<and> prefix es (let ms = filter (\<lambda>e. match_event e f) (map norm_event (retained DefaultMaxBackups H))
                 in if fl_Reverse f then rev ms else ms)"
  using ej.ReadAll_filters [OF assms] by blast

end
