(* ===== verification/Ctl.thy ===== *)
theory Ctl
  imports Admin_Rpc Event_Json Go_Flags
begin

text \<open>
  The control program (\<open>src/src/cmd/rpcpluginctl\<close>) and its output helpers (\<open>src/src/internal/cli\<close>,
  \<open>FormatText\<close> of \<open>src/src/internal/eventlog/read.go\<close>): finding the command among the arguments, validating
  options, locating the log, and the dispatch to admin calls and log reading.

  The flag package is modelled in \<open>Go_Flags\<close>, decoding log lines in \<open>Event_Json\<close>. Upper-casing is an argument of the
  model; values the program prints as JSON are kept as values.
\<close>

section \<open>Arguments\<close>

definition flagsWithValues :: "string list" where
  "flagsWithValues = [''-runtime-dir'', ''-plugin-id'', ''-message'', ''-level'', ''-component'', ''-event'', ''-method'',
     ''-generation'', ''-capability'', ''-operation'', ''-correlation'', ''-limit'', ''-format'', ''-since'']"

definition boolFlags :: "string list" where
  "boolFlags = [''-reverse'', ''-summary'']"

text \<open>The loop of \<open>takesValue\<close> over the names with \<open>=\<close> returns false like the statement after it.\<close>

definition takesValue :: "string \<Rightarrow> bool" where
  "takesValue arg =
     (if arg \<in> set flagsWithValues then True
      else if list_ex (\<lambda>flagName. has_prefix arg (flagName @ ''='')) flagsWithValues then False
      else False)"

definition isBoolFlag :: "string \<Rightarrow> bool" where
  "isBoolFlag arg =
     (if arg \<in> set boolFlags then True
      else list_ex (\<lambda>flagName. arg = flagName @ ''=true'' \<or> arg = flagName @ ''=false'') boolFlags)"

text \<open>The loop of \<open>splitCommandArgs\<close>; \<open>pre\<close> is \<open>args[:i]\<close>.\<close>

fun split_args :: "string list \<Rightarrow> string list \<Rightarrow> string \<times> string list" where
  "split_args pre [] = ([], pre)"
| "split_args pre (arg # rest) =
     (if arg = ''--'' then (case rest of [] \<Rightarrow> ([], pre) | c # rest' \<Rightarrow> (c, pre @ rest'))
      else if takesValue arg then
        (case rest of [] \<Rightarrow> ([], pre @ [arg]) | v # rest' \<Rightarrow> split_args (pre @ [arg, v]) rest')
      else if isBoolFlag arg then split_args (pre @ [arg]) rest
      else if has_prefix arg ''-'' then split_args (pre @ [arg]) rest
      else (arg, pre @ rest))"

definition splitCommandArgs :: "string list \<Rightarrow> string \<times> string list" where
  "splitCommandArgs args = split_args [] args"

text \<open>The flags \<open>run\<close> defines.\<close>

definition ctl_flags :: "string \<Rightarrow> flag_kind option" where
  "ctl_flags nm =
     (if nm \<in> {''reverse'', ''summary''} then Some FlagBool
      else if nm \<in> {''runtime-dir'', ''plugin-id'', ''message'', ''level'', ''component'', ''event'', ''method'',
         ''capability'', ''operation'', ''correlation'', ''format''} then Some FlagString
      else if nm = ''generation'' then Some FlagUint64
      else if nm = ''limit'' then Some FlagInt
      else if nm = ''since'' then Some FlagDuration
      else None)"

section \<open>Options\<close>

record ctl_options =
  op_runtimeDir :: path
  op_pluginID :: string
  op_message :: string
  op_level :: string
  op_component :: string
  op_event :: string
  op_method :: string
  op_generation :: uint64
  op_capability :: string
  op_operation :: string
  op_correlation :: string
  op_limit :: int
  op_format :: string
  op_since :: duration
  op_reverse :: bool
  op_summary :: bool

text \<open>The values of the flags after parsing, with the defaults \<open>run\<close> gives them.\<close>

definition flag_options :: "path \<Rightarrow> settings \<Rightarrow> ctl_options" where
  "flag_options tempDir fs =
     \<lparr>op_runtimeDir = String_flag fs ''runtime-dir'' (Join [tempDir, ''rpc_plugin_system'']),
      op_pluginID = String_flag fs ''plugin-id'' [],
      op_message = String_flag fs ''message'' ''ping'',
      op_level = String_flag fs ''level'' [],
      op_component = String_flag fs ''component'' [],
      op_event = String_flag fs ''event'' [],
      op_method = String_flag fs ''method'' [],
      op_generation = typed_flag ParseUint0 fs ''generation'' 0,
      op_capability = String_flag fs ''capability'' [],
      op_operation = String_flag fs ''operation'' [],
      op_correlation = String_flag fs ''correlation'' [],
      op_limit = typed_flag ParseInt0 fs ''limit'' 200,
      op_format = String_flag fs ''format'' ''text'',
      op_since = typed_flag ParseDuration fs ''since'' 0,
      op_reverse = typed_flag ParseBool fs ''reverse'' True,
      op_summary = typed_flag ParseBool fs ''summary'' False\<rparr>"

definition validateOptions :: "string \<Rightarrow> string \<Rightarrow> int \<Rightarrow> string \<Rightarrow> goerr option" where
  "validateOptions command pluginID limit format =
     (if command \<in> {''plugin'', ''heartbeat'', ''echo'', ''restart''} \<and> pluginID = [] then
        Some (Errorf ''-plugin-id is required for %s'' [FStr command])
      else (case if pluginID \<noteq> [] then ValidatePluginID pluginID else None of
        Some e \<Rightarrow> Some e
      | None \<Rightarrow>
          if command = ''logs'' then
            if limit < 0 then Some (err ''-limit must be non-negative'')
            else if format \<noteq> ''text'' \<and> format \<noteq> ''json'' then
              Some (Errorf ''unknown log format %q, want text or json'' [FStr format])
            else None
          else None))"

text \<open>\<open>stat p\<close>: \<open>os.Stat\<close> finds \<open>p\<close>. \<open>readdir\<close> gives names and whether they are directories, sorted by name.\<close>

definition resolveLogPath :: "(path \<Rightarrow> bool) \<Rightarrow> (path \<Rightarrow> goerr + (string \<times> bool) list) \<Rightarrow> path \<Rightarrow> string \<Rightarrow> path \<times> goerr option" where
  "resolveLogPath stat readdir runtimeDir pluginID =
     (if pluginID \<noteq> [] then (Join [runtimeDir, pluginID, ''events.jsonl''], None)
      else
        (let rootLog = Join [runtimeDir, ''events.jsonl'']
         in if stat rootLog then (rootLog, None)
            else (case readdir runtimeDir of
              Inl e \<Rightarrow> (rootLog, Some e)
            | Inr entries \<Rightarrow>
                (let pluginLogs = filter stat (map (\<lambda>(nm, _). Join [runtimeDir, nm, ''events.jsonl'']) (filter snd entries))
                 in case pluginLogs of
                      [] \<Rightarrow> (rootLog, None)
                    | [l] \<Rightarrow> (l, None)
                    | _ \<Rightarrow> ([], Some (Errorf ''multiple plugin logs found under %s, use -plugin-id'' [FStr runtimeDir]))))))"

section \<open>Output\<close>

definition part :: "string \<Rightarrow> string \<Rightarrow> string list" where
  "part label v = (if v \<noteq> [] then [label @ v] else [])"

text \<open>\<open>strings.Join(parts, " | ")\<close>.\<close>

fun join_bar :: "string list \<Rightarrow> string" where
  "join_bar [] = []"
| "join_bar [w] = w"
| "join_bar (w # ws) = w @ '' | '' @ join_bar ws"

text \<open>\<open>strings.ToUpper\<close>; \<open>upper\<close> is what its Unicode tables make of a text that is not ASCII.\<close>

definition ToUpper :: "(string \<Rightarrow> string) \<Rightarrow> string \<Rightarrow> string" where
  "ToUpper upper s =
     (if list_all (\<lambda>c. (of_char c :: nat) < 0x80) s
      then map (\<lambda>c. if is_lower c then char_of ((of_char c :: nat) - 32) else c) s
      else upper s)"

text \<open>
  A time is shown in UTC: \<open>Write\<close> stores times in
  UTC, and only a line written by hand could carry another offset.
\<close>

definition FormatText :: "(string \<Rightarrow> string) \<Rightarrow> string event \<Rightarrow> string" where
  "FormatText upper ev0 =
     (let event = RedactForDisplay ev0
      in join_bar
        ([FormatSeconds (ev_Time event)] @ [''['' @ ToUpper upper (ev_Level event) @ '']'']
         @ part [] (ev_Component event) @ part [] (ev_Event event) @ part ''plugin='' (ev_PluginID event)
         @ (if ev_GenerationID event \<noteq> 0 then [''gen='' @ dec (unat (ev_GenerationID event))] else [])
         @ (if ev_PID event \<noteq> 0 then [''pid='' @ fmt_int (ev_PID event)] else [])
         @ part ''method='' (ev_Method event) @ part ''capability='' (ev_CapabilityID event)
         @ part ''operation='' (ev_OperationID event) @ part ''correlation='' (ev_CorrelationID event)
         @ part ''status='' (ev_Status event)
         @ (if ev_DurationMS event \<noteq> 0 then [''duration_ms='' @ fmt_int (ev_DurationMS event)] else [])
         @ part ''error_class='' (ev_ErrorClass event) @ part ''degraded_reason='' (ev_DegradedReason event)
         @ part [] (ev_Message event) @ part ''reason='' (ev_Reason event) @ part ''error='' (ev_Error event)))"

lemma ToUpper_levels:
  "ToUpper upper LevelDebug = ''DEBUG''" "ToUpper upper LevelInfo = ''INFO''"
  "ToUpper upper LevelWarn = ''WARN''" "ToUpper upper LevelError = ''ERROR''"
  by (simp_all add: ToUpper_def is_lower_def in_range_def) code_simp+

text \<open>
  Writers. \<open>w k\<close> is the error of the \<open>k\<close>-th write, if any; the result are the lines written and the error.
\<close>

type_synonym writer = "nat \<Rightarrow> goerr option"

fun write_lines :: "writer \<Rightarrow> (goerr \<Rightarrow> goerr) \<Rightarrow> nat \<Rightarrow> string list \<Rightarrow> string list \<times> goerr option" where
  "write_lines w wrap k [] = ([], None)"
| "write_lines w wrap k (l # ls) =
     (case w k of
        Some e \<Rightarrow> ([], Some (wrap e))
      | None \<Rightarrow> (case write_lines w wrap (Suc k) ls of (out, e) \<Rightarrow> (l # out, e)))"

definition WriteEventsText :: "(string \<Rightarrow> string) \<Rightarrow> writer \<Rightarrow> string event list \<Rightarrow> string list \<times> goerr option" where
  "WriteEventsText upper w events = write_lines w (Wrapf ''write text event: %w'' []) 0 (map (FormatText upper) events)"

definition redactEventsForDisplay :: "string event list \<Rightarrow> string event list" where
  "redactEventsForDisplay events = (if events = [] then events else map RedactForDisplay events)"

text \<open>The indented JSON encoding of a value is its argument, the value itself what is shown.\<close>

definition WriteJSON :: "writer \<Rightarrow> string \<Rightarrow> 'a \<Rightarrow> 'a option \<times> goerr option" where
  "WriteJSON w msg v = (case w 0 of Some e \<Rightarrow> (None, Some (Wrapf (msg @ '': %w'') [] e)) | None \<Rightarrow> (Some v, None))"

definition WriteAny :: "writer \<Rightarrow> 'a \<Rightarrow> 'a option \<times> goerr option" where
  "WriteAny w v = WriteJSON w ''encode response'' v"

definition WriteState :: "writer \<Rightarrow> plugin_state \<Rightarrow> plugin_state option \<times> goerr option" where
  "WriteState w state = WriteJSON w ''encode state'' state"

definition WriteHostState :: "writer \<Rightarrow> host_state \<Rightarrow> host_state option \<times> goerr option" where
  "WriteHostState w state = WriteJSON w ''encode host state'' state"

definition WriteCapabilities :: "writer \<Rightarrow> (string \<rightharpoonup> string list) \<Rightarrow> (string \<rightharpoonup> string list) option \<times> goerr option" where
  "WriteCapabilities w caps = WriteJSON w ''encode capability map'' caps"

definition WriteSummaryJSON :: "writer \<Rightarrow> summary \<Rightarrow> summary option \<times> goerr option" where
  "WriteSummaryJSON w s = WriteJSON w ''encode summary'' s"

definition WriteEventsJSON :: "writer \<Rightarrow> string event list \<Rightarrow> string event list option \<times> goerr option" where
  "WriteEventsJSON w events = WriteJSON w ''encode events'' (redactEventsForDisplay events)"

definition count_lines :: "counts \<Rightarrow> string list" where
  "count_lines counts = map (\<lambda>k. ''  '' @ k @ '': '' @ dec (the (counts k))) (sorted_list_of_set (dom counts))"

definition summary_lines :: "summary \<Rightarrow> string list" where
  "summary_lines s =
     [''total: '' @ dec (sm_Total s)]
     @ [''levels:''] @ count_lines (sm_ByLevel s)
     @ [''components:''] @ count_lines (sm_ByComponent s)
     @ [''events:''] @ count_lines (sm_ByEvent s)"

text \<open>The error names the part that could not be written; the lines are what reached the writer.\<close>

definition summary_wrap :: "summary \<Rightarrow> nat \<Rightarrow> goerr \<Rightarrow> goerr" where
  "summary_wrap s k e =
     (let l = length (count_lines (sm_ByLevel s)); c = length (count_lines (sm_ByComponent s))
      in Wrapf (if k = 0 then ''write summary total: %w''
                else if k \<in> {1, 2 + l, 3 + l + c} then ''write summary section: %w'' else ''write summary count: %w'') [] e)"

definition WriteSummaryText :: "writer \<Rightarrow> summary \<Rightarrow> string list \<times> goerr option" where
  "WriteSummaryText w s =
     (case find (\<lambda>k. w k \<noteq> None) [0..<length (summary_lines s)] of
        None \<Rightarrow> (summary_lines s, None)
      | Some k \<Rightarrow> (take k (summary_lines s), Some (summary_wrap s k (the (w k)))))"

section \<open>Dispatch\<close>

text \<open>
  What a run meets: dialling and calling the admin service, the files and the clock. Messages to the error output are not modelled, exit codes are.
\<close>

record ctl_env =
  ct_TempDir :: path
  ct_dial :: "path \<Rightarrow> goerr + nat"
  ct_call :: "admin_request \<Rightarrow> goerr + admin_reply"
  ct_stat :: "path \<Rightarrow> bool"
  ct_readdir :: "path \<Rightarrow> goerr + (string \<times> bool) list"
  ct_now :: gotime
  ct_io :: read_io
  ct_files :: files
  ct_ToUpper :: "string \<Rightarrow> string"
  ct_out :: writer

datatype ctl_output =
    Silent | UsageText | Lines "string list" | AdminJSON "admin_reply option" | EventsJSON "string event list option"
  | SummaryJSON "summary option"

definition admin_command :: "string \<Rightarrow> ctl_options \<Rightarrow> admin_request option" where
  "admin_command command opts =
     (if command = ''status'' \<or> command = ''plugins'' then Some APlugins
      else if command = ''plugin'' then Some (APlugin (op_pluginID opts))
      else if command = ''capabilities'' then Some ACapabilities
      else if command = ''routes'' then Some ARoutes
      else if command = ''heartbeat'' then Some (AHeartbeat (op_pluginID opts))
      else if command = ''echo'' then Some (AEcho (op_pluginID opts) (op_message opts))
      else if command = ''restart'' then Some (ARestart (op_pluginID opts))
      else None)"

text \<open>Each command prints the reply with its own writer of \<open>src/src/internal/cli\<close>.\<close>

fun write_reply :: "writer \<Rightarrow> admin_reply \<Rightarrow> admin_reply option \<times> goerr option" where
  "write_reply w (HostStateReply state) = map_prod (map_option HostStateReply) id (WriteHostState w state)"
| "write_reply w (StateReply state) = map_prod (map_option StateReply) id (WriteState w state)"
| "write_reply w (CapabilitiesReply caps) = map_prod (map_option CapabilitiesReply) id (WriteCapabilities w caps)"
| "write_reply w (RoutesReply routes) = map_prod (map_option RoutesReply) id (WriteAny w routes)"
| "write_reply w (HeartbeatReply hb) = map_prod (map_option HeartbeatReply) id (WriteAny w hb)"
| "write_reply w (EchoReply out) = map_prod (map_option EchoReply) id (WriteAny w out)"

definition exit_of :: "goerr option \<Rightarrow> int" where
  "exit_of e = (if e = None then 0 else 1)"

definition run_admin :: "ctl_env \<Rightarrow> path \<Rightarrow> admin_request \<Rightarrow> int \<times> ctl_output" where
  "run_admin env runtimeDir q =
     (case Dial (ct_dial env (Join [runtimeDir, ''admin.sock''])) of
        Inl e \<Rightarrow> (1, Silent)
      | Inr _ \<Rightarrow>
          (case ct_call env q of
             Inl e \<Rightarrow> (1, Silent)
           | Inr r \<Rightarrow> (case write_reply (ct_out env) r of (v, e) \<Rightarrow> (exit_of e, AdminJSON v))))"

definition log_filters :: "gotime \<Rightarrow> ctl_options \<Rightarrow> filters" where
  "log_filters now opts = \<lparr>fl_Level = op_level opts, fl_Component = op_component opts, fl_Event = op_event opts, fl_PluginID = op_pluginID opts,
     fl_GenerationID = op_generation opts, fl_Method = op_method opts, fl_CapabilityID = op_capability opts,
     fl_OperationID = op_operation opts, fl_CorrelationID = op_correlation opts, fl_Limit = op_limit opts,
     fl_Since = (if op_since opts > 0 then now - op_since opts else 0), fl_Reverse = op_reverse opts\<rparr>"

definition run_logs :: "ctl_env \<Rightarrow> ctl_options \<Rightarrow> int \<times> ctl_output" where
  "run_logs env opts =
     (case resolveLogPath (ct_stat env) (ct_readdir env) (op_runtimeDir opts) (op_pluginID opts) of
        (_, Some e) \<Rightarrow> (1, Silent)
      | (logPath, None) \<Rightarrow>
          (case ReadAll unmarshal_event (ct_io env) (ct_files env) logPath (log_filters (ct_now env) opts) of
             Inl e \<Rightarrow> (1, Silent)
           | Inr events \<Rightarrow>
               if op_summary opts then
                 (let s = Summarize events
                  in if op_format opts = ''text'' then (case WriteSummaryText (ct_out env) s of (ls, e) \<Rightarrow> (exit_of e, Lines ls))
                     else (case WriteSummaryJSON (ct_out env) s of (v, e) \<Rightarrow> (exit_of e, SummaryJSON v)))
               else if op_format opts = ''text'' then
                 (case WriteEventsText (ct_ToUpper env) (ct_out env) events of (ls, e) \<Rightarrow> (exit_of e, Lines ls))
               else (case WriteEventsJSON (ct_out env) events of (v, e) \<Rightarrow> (exit_of e, EventsJSON v))))"

definition ctl_run :: "ctl_env \<Rightarrow> string list \<Rightarrow> int \<times> ctl_output" where
  "ctl_run env args =
     (if args = [] then (1, Silent)
      else
        (let (command, flagArgs) = splitCommandArgs args
         in if command = [] then (1, Silent)
            else (case flag_scan ctl_flags flagArgs of
              Inl e \<Rightarrow> (2, Silent)
            | Inr (settings, rest) \<Rightarrow>
                (let opts = flag_options (ct_TempDir env) settings
                 in if rest \<noteq> [] then (1, Silent)
                    else if validateOptions command (op_pluginID opts) (op_limit opts) (op_format opts) \<noteq> None then (1, Silent)
                    else (case admin_command command opts of
                      Some q \<Rightarrow> run_admin env (op_runtimeDir opts) q
                    | None \<Rightarrow>
                        if command = ''logs'' then run_logs env opts
                        else if command = ''help'' \<or> command = ''-h'' \<or> command = ''--help'' then (0, UsageText)
                        else (1, Silent))))))"

section \<open>Lemmas\<close>

text \<open>Argument lists that are flags in the forms \<open>splitCommandArgs\<close> knows, values attached or following.\<close>

fun flag_groups :: "string list \<Rightarrow> bool" where
  "flag_groups [] = True"
| "flag_groups (a # as) =
     (if a \<in> set flagsWithValues then (case as of [] \<Rightarrow> False | v # as' \<Rightarrow> flag_groups as')
      else has_prefix a ''-'' \<and> a \<noteq> ''--'' \<and> flag_groups as)"

lemma takesValue_iff: "takesValue a \<longleftrightarrow> a \<in> set flagsWithValues"
  by (simp add: takesValue_def)

lemma flagsWithValues_dash: "a \<in> set flagsWithValues \<Longrightarrow> has_prefix a ''-'' \<and> a \<noteq> ''--''"
  by (auto simp: flagsWithValues_def)

lemma isBoolFlag_dash: "isBoolFlag a \<Longrightarrow> has_prefix a ''-''"
  by (auto simp: isBoolFlag_def boolFlags_def split: if_splits)

lemma split_args_groups:
  "flag_groups fs \<Longrightarrow> split_args pre (fs @ args) = split_args (pre @ fs) args"
proof (induction fs arbitrary: pre rule: flag_groups.induct)
  case (2 a as)
  show ?case
  proof (cases "a \<in> set flagsWithValues")
    case True
    then obtain v as' where "as = v # as'" "flag_groups as'" using "2.prems" by (auto split: list.splits)
    then show ?thesis using "2.IH"(1) [OF True] True flagsWithValues_dash [OF True] by (simp add: takesValue_iff)
  next
    case False
    then show ?thesis using "2.IH"(2) [OF False] "2.prems" by (auto simp: takesValue_iff)
  qed
qed simp

lemma split_args_command: "\<not> has_prefix c ''-'' \<Longrightarrow> split_args pre (c # args) = (c, pre @ args)"
  using flagsWithValues_dash isBoolFlag_dash by (auto simp: takesValue_iff)

section \<open>Properties\<close>

text \<open>
  The command is found wherever it stands. After any sequence of flags, with a value attached by \<open>=\<close> or as the
  next argument, the first argument that is neither a flag nor the value of one is the command, even if a
  value before it looks like a command or like a flag; everything else, in order, goes to the flag package.
\<close>

theorem splitCommandArgs_finds_command:
  assumes "flag_groups before" and "\<not> has_prefix command ''-''"
  shows "splitCommandArgs (before @ command # after) = (command, before @ after)"
  unfolding splitCommandArgs_def split_args_groups [OF assms(1)] split_args_command [OF assms(2)] by simp

theorem splitCommandArgs_finds_command_witness:
  "splitCommandArgs [''-plugin-id'', ''restart'', ''-limit=5'', ''-reverse'', ''logs'', ''-summary'']
     = (''logs'', [''-plugin-id'', ''restart'', ''-limit=5'', ''-reverse'', ''-summary''])"
  using splitCommandArgs_finds_command [of "[''-plugin-id'', ''restart'', ''-limit=5'', ''-reverse'']" "''logs''" "[''-summary'']"]
  by (simp add: flagsWithValues_def)

text \<open>
  The same flags written with two dashes, which the flag package accepts as well, defeat it: the value of the
  flag is taken for the command, and the command for the value of the flag.
\<close>

theorem double_dash_flag_swallows_command:
  "splitCommandArgs [''--plugin-id'', ''beta'', ''status''] = (''beta'', [''--plugin-id'', ''status''])
   \<and> flag_scan ctl_flags [''--plugin-id'', ''status''] = Inr ([(''plugin-id'', ''status'')], [])
   \<and> splitCommandArgs [''-plugin-id'', ''beta'', ''status''] = (''status'', [''-plugin-id'', ''beta''])
   \<and> flag_scan ctl_flags [''-plugin-id'', ''beta''] = Inr ([(''plugin-id'', ''beta'')], [])"
  by code_simp

text \<open>
  Asking for help with a flag is an error: the usage text is printed with exit code 0 only for the word \<open>help\<close>
  (or for \<open>-h\<close> after \<open>--\<close>), although \<open>-h\<close> and \<open>--help\<close> are cases of the same branch.
\<close>

theorem help_flag_is_refused:
  "ctl_run env [''-h''] = (1, Silent) \<and> ctl_run env [''--help''] = (1, Silent)
   \<and> ctl_run env [''help''] = (0, UsageText) \<and> ctl_run env [''--'', ''-h''] = (0, UsageText)"
proof -
  have s: "splitCommandArgs [''-h''] = ([], [''-h''])" "splitCommandArgs [''--help''] = ([], [''--help''])"
    "splitCommandArgs [''help''] = (''help'', [])" "splitCommandArgs [''--'', ''-h''] = (''-h'', [])" by code_simp+
  show ?thesis
    by (simp add: ctl_run_def s Let_def flag_options_def String_flag_def setting_def validateOptions_def admin_command_def)
qed

text \<open>
  The control program asks the admin service only well-formed questions: what it does and prints depends on the
  service's answers only for requests whose target, if they have one, is a valid plugin id.
\<close>

theorem ctl_sends_valid_ids:
  assumes "\<forall>q. (\<forall>p. target q = Some p \<longrightarrow> ValidatePluginID p = None) \<longrightarrow> f q = g q"
  shows "ctl_run (env\<lparr>ct_call := f\<rparr>) args = ctl_run (env\<lparr>ct_call := g\<rparr>) args"
proof -
  have admin: "run_admin (env\<lparr>ct_call := f\<rparr>) dir q = run_admin (env\<lparr>ct_call := g\<rparr>) dir q"
    if "validateOptions command (op_pluginID opts) l fm = None" "admin_command command opts = Some q" for q opts l fm command dir
  proof -
    have "\<forall>p. target q = Some p \<longrightarrow> ValidatePluginID p = None"
      using that by (auto simp: admin_command_def validateOptions_def split: if_splits option.splits)
    then have "f q = g q" using assms by blast
    then show ?thesis by (cases "Dial (ct_dial env (Join [dir, ''admin.sock'']))"; cases "g q") (simp_all add: run_admin_def)
  qed
  have logs: "run_logs (env\<lparr>ct_call := f\<rparr>) opts = run_logs (env\<lparr>ct_call := g\<rparr>) opts" for opts
    by (cases env) (simp add: run_logs_def split: prod.split option.split sum.split)
  obtain command flagArgs where s: "splitCommandArgs args = (command, flagArgs)" by (cases "splitCommandArgs args")
  show ?thesis
  proof (cases "flag_scan ctl_flags flagArgs")
    case (Inr x)
    obtain settings rest where x: "x = (settings, rest)" by (cases x)
    define opts where "opts = flag_options (ct_TempDir env) settings"
    show ?thesis
    proof (cases "validateOptions command (op_pluginID opts) (op_limit opts) (op_format opts)")
      case None
      then show ?thesis using admin [OF None] logs [of opts] Inr x opts_def s
        by (cases "admin_command command opts") (simp_all add: ctl_run_def Let_def)
    qed (use Inr x opts_def s in \<open>simp add: ctl_run_def Let_def\<close>)
  qed (use s in \<open>simp add: ctl_run_def\<close>)
qed

definition sample_ctl :: ctl_env where
  "sample_ctl = \<lparr>ct_TempDir = ''/tmp'',
     ct_dial = (\<lambda>_. Inr 0),
     ct_call = (\<lambda>_. Inr (EchoReply ''ping'')), ct_stat = (\<lambda>_. False), ct_readdir = (\<lambda>_. Inr []), ct_now = 0,
     ct_io = quiet_read, ct_files = Map.empty,
     ct_ToUpper = id, ct_out = (\<lambda>_. None)\<rparr>"

theorem ctl_sends_valid_ids_witness:
  "ctl_run (sample_ctl\<lparr>ct_call := \<lambda>q. if target q = Some ''../x'' then Inl (err ''reached'') else Inr (EchoReply ''ping'')\<rparr>)
     [''echo'', ''-plugin-id'', ''../x''] = ctl_run (sample_ctl\<lparr>ct_call := \<lambda>_. Inr (EchoReply ''ping'')\<rparr>) [''echo'', ''-plugin-id'', ''../x'']
   \<and> fst (ctl_run sample_ctl [''echo'', ''-plugin-id'', ''../x'']) = 1
   \<and> ctl_run sample_ctl [''echo'', ''-plugin-id'', ''echo''] = (0, AdminJSON (Some (EchoReply ''ping'')))"
proof -
  have bad: "ValidatePluginID ''../x'' \<noteq> None" by code_simp
  let ?f = "\<lambda>q. if target q = Some ''../x'' then Inl (err ''reached'') else Inr (EchoReply ''ping'') :: goerr + admin_reply"
  have h: "\<forall>q. (\<forall>p. target q = Some p \<longrightarrow> ValidatePluginID p = None) \<longrightarrow> ?f q = Inr (EchoReply ''ping'')" using bad by auto
  have s: "splitCommandArgs [''echo'', ''-plugin-id'', p] = (''echo'', [''-plugin-id'', p])"
    "flag_scan ctl_flags [''-plugin-id'', p] = Inr ([(''plugin-id'', p)], [])" for p by code_simp+
  have v: "validateOptions ''echo'' ''echo'' 200 ''text'' = None" "validateOptions ''echo'' ''../x'' 200 ''text'' \<noteq> None" by code_simp+
  note run = ctl_run_def s Let_def flag_options_def String_flag_def typed_flag_def setting_def admin_command_def
  have e: "fst (ctl_run sample_ctl [''echo'', ''-plugin-id'', ''../x'']) = 1" using v(2) by (simp add: run)
  have k: "ctl_run sample_ctl [''echo'', ''-plugin-id'', ''echo''] = (0, AdminJSON (Some (EchoReply ''ping'')))"
    by (simp add: run v(1) run_admin_def Dial_def) (simp add: sample_ctl_def WriteAny_def WriteJSON_def exit_of_def)
  show ?thesis using ctl_sends_valid_ids [OF h] e k by blast
qed

end
