(* ===== verification/Spec2Isabelle.thy ===== *)
theory Spec2Isabelle
  imports Go_Sha256_Vector Manager_Interleaving Manager_Refinement Failure_Plugin Bundle_Loader Daemon Ctl
begin

text \<open>
  A verification library for the RPC plugin system, a Go program under \<open>src/src\<close>: a daemon that starts plugin processes,
  talks to them over private Unix sockets, watches and restarts them, and a control program for operators.

  \<^bold>\<open>The program and how its parts interact.\<close> A plugin manager (\<open>internal/kernel/manager.go\<close>) owns one plugin: it writes a
  one-time token to a private file, spawns the process, dials its socket, checks the peer's credentials,
  authenticates, reads the capabilities and then publishes a new generation; calls, heartbeats, restarts, stops and
  closing follow. \<open>monitor.go\<close> restarts a plugin whose heartbeat fails. The kernel host (\<open>host.go\<close>) keeps one manager
  per plugin id and routes requests by id. The admin service (\<open>internal/adminrpc\<close>) exposes the host on a socket, the
  daemon (\<open>cmd/rpcplugind\<close>) builds the host from flags and a file, and \<open>cmd/rpcpluginctl\<close> is the client. Both
  write and read the event log (\<open>internal/eventlog\<close>), whose provider observations and declared bundle metadata
  (\<open>internal/providerbundle\<close>) must not leak secrets. On the other side of the socket is the plugin SDK
  (\<open>pkg/plugin\<close>) with the example plugins (\<open>examples\<close>), one of which injects faults as a behaviour file tells it
  (\<open>test/testpluginapi\<close>).

  \<^bold>\<open>Theories and the code they model.\<close>
  \<^item> \<open>Go_Prelude\<close>, \<open>Go_Text\<close>, \<open>Go_Numbers\<close>, \<open>Go_Parsers\<close>, \<open>Go_Flags\<close>, \<open>Go_Time\<close>: the part of Go's libraries the code uses.
    Errors with wrapping, byte classes, splitting and trimming, \<open>filepath\<close>, \<open>strconv\<close>, \<open>time.ParseDuration\<close> with its
    floating-point rounding, the \<open>flag\<close> package, the calendar and the RFC 3339 texts of times. Integers keep their width
    (\<open>uint64\<close> and \<open>int64\<close> are 64-bit words); times and durations are integers of nanoseconds.
  \<^item> \<open>Go_Json\<close> (\<open>encoding/json\<close>: UTF-8 with replacement of invalid bytes, escaping, lexer, parser, printer) and
    \<open>Json_Struct\<close> (encoding and decoding of structs: omitted empty fields, case-folded names, type mismatches).
  \<^item> \<open>Go_Sha256\<close> (\<open>crypto/sha256\<close> as a streaming digest, checked against a published vector in \<open>Go_Sha256_Vector\<close>) and \<open>Go_Links\<close>
    (paths through symbolic links, followed by \<open>filepath.EvalSymlinks\<close> and by the kernel).
  \<^item> \<open>Plugin_Id\<close> (\<open>kernel/plugin_id.go\<close> and the path functions of \<open>runtime.go\<close> and \<open>host.go\<close>), \<open>Auth_Token\<close>
    (\<open>internal/auth\<close>), \<open>Host_Runtime\<close> (\<open>internal/runtime\<close>: directories, sockets, executables, peer credentials over an
    explicit file tree with the outcomes of system calls as arguments).
  \<^item> \<open>Event_Log\<close> (\<open>eventlog.go\<close>: files as a map from paths to lists of lines, every I/O failure an argument), \<open>Event_Provider\<close>
    (\<open>provider.go\<close> and the redaction of \<open>read.go\<close>), \<open>Event_Read\<close> (the rest of \<open>read.go\<close>), \<open>Event_Json\<close> (the JSON line of an event).
  \<^item> \<open>Provider_Bundle\<close> (\<open>metadata.go\<close>), \<open>Bundle_Loader\<close> (\<open>loader.go\<close>, on a tree of files with symbolic links).
  \<^item> \<open>Plugin_Api\<close> (messages), \<open>Manager\<close> (every function of \<open>manager.go\<close> and \<open>monitor.go\<close>: the record \<open>manager\<close> with
    the processes, connections and files around it as \<open>world\<close>; \<open>start_env\<close>, \<open>stop_env\<close> and \<open>tick_env\<close> hold what the
    environment answers). \<open>startLocked\<close> and \<open>stopCurrent\<close> are split at the points where the code releases its mutex.
  \<^item> \<open>Kernel_Host\<close> (\<open>host.go\<close>, over the interface \<open>supervised\<close>), \<open>Plugin_Sdk\<close> (\<open>plugin.go\<close>, \<open>logging.go\<close>, \<open>template.go\<close>, the
    echo plugin), \<open>Bootstrap\<close> (the manager started against a process that runs the SDK), \<open>Test_Plugin_Api\<close>
    (\<open>testpluginapi/config.go\<close>: the behaviour record, its file and its variables), \<open>Failure_Plugin\<close> (the
    fault-injecting plugin), \<open>Admin_Rpc\<close>, \<open>Daemon\<close>, \<open>Ctl\<close> (with \<open>internal/cli\<close>).

  \<^bold>\<open>Abstract specifications and interfaces.\<close> \<open>Refinement\<close> states a simulation between a machine with results and
  an abstract one as the locale \<open>simulation\<close>; it is interpreted for the manager and its life cycle
  (\<open>Manager_Refinement\<close>: down, up, cut off, gone, and the generation) and for the plugin server and its
  authentication gate (\<open>Plugin_Sdk\<close>). The locale \<open>supervised\<close> is what the host relies on in a manager: what start, kill and close
  keep and establish; its interpretation discharges these laws for \<open>Start\<close>, \<open>Kill\<close> and \<open>Close\<close>. The locale \<open>redactor\<close>
  is the contract of both redaction functions. The locale \<open>json_struct\<close> is what makes a struct with its table of fields decode
  to what was encoded, interpreted for events and for behaviours; \<open>event_codec\<close> is what the log and its reader need of an
  encoding, interpreted on the JSON of \<open>Event_Json\<close>.

  \<^bold>\<open>What the lemmas show.\<close>
  \<^item> \<open>Manager_Props\<close>, \<open>Manager_Lifecycle\<close>: when a start succeeds and what it leaves, and what a failed one leaves; the
    invariant of every reachable manager; stopping, closing, restarting; generations count successful starts;
    dialling ends; the monitor recovers.
  \<^item> \<open>Manager_Calls\<close>: which replies and heartbeats are accepted under arbitrary interference, and poisoning.
    \<open>Manager_Interleaving\<close>: the critical sections as a step relation with any number of goroutines; starts and stops
    exclude each other and are not disturbed.
  \<^item> \<open>Kernel_Host_Props\<close>, \<open>Admin_Rpc\<close>, \<open>Daemon\<close>, \<open>Ctl\<close>: the invariant of reachable hosts, all-or-nothing start, complete
    closing, the exact host view, isolation of routed and of admin requests, configuration and command line, and
    that the daemon leaves nothing open unless it panics. This theory composes them to a restart by an operator.
  \<^item> \<open>Plugin_Sdk\<close>, \<open>Bootstrap\<close>, \<open>Failure_Plugin\<close>: the authentication gate, the environment round trip, start against
    the SDK end to end, which fault-injecting plugins are admitted, that a written behaviour is the one loaded, and what a
    run of a plugin process logs and leaves.
  \<^item> \<open>Event_Log\<close>, \<open>Event_Provider\<close>, \<open>Event_Read\<close>, \<open>Event_Json\<close>, \<open>Provider_Bundle\<close>, \<open>Bundle_Loader\<close>: rotation loses only the
    oldest backup, what is written is read back from the bytes in the files, no unsafe text is accepted or shown in
    the fields the code checks, valid metadata is valid, and the loader reads no file outside its root whatever symbolic links
    there are.
  \<^item> The code publishes a generation as healthy once its capabilities are read; the documents ask for a successful heartbeat
    first. The theorems on starting and restarting state what the code does, and \<open>healthy_before_heartbeat\<close> of
    \<open>Manager_Calls\<close> shows a plugin without a single successful heartbeat published healthy.
  \<^item> Some theorems show flaws: the stale-reply guard is off in the first epoch, a failed kill forgets its process, a
    failed start leaves a process it could not wait for, a failed spawn leaves the token file, the level of a provider
    observation is not checked for unsafe text, a failed reopen disables the log, a rejected host leaves managers open, two-dash
    flags hide the command from \<open>rpcpluginctl\<close>, its help flags are refused, and a negative heartbeat interval makes the
    daemon panic and leave every plugin behind.

  \<^bold>\<open>Bounds and termination.\<close> Loops are structural recursions, except the dial loop (measure: the
  time left until the deadline, at least 50 ms less each round) and the scanners of base64, flags, UTF-8 and JSON texts and blocks of a
  hash (measure: remaining input); following a path decreases the links still allowed, then the path. Only the JSON
  parser \<open>pvalue\<close> has fuel: twice the number of tokens plus one, which \<open>pvalue_fuel\<close> shows to be enough. Nesting is bounded by 10000 as in \<open>encoding/json\<close>.
  The monitor loop and the servers run over the finite list of ticks or requests that arrive. Whole runs are sequences
  of operations; concurrency inside a manager is covered by \<open>Manager_Interleaving\<close> and, for calls, by an arbitrary
  function standing for what other goroutines do while a call waits.

  \<^bold>\<open>Not modelled.\<close> Go's \<open>net/rpc\<close>, TOML, upper-casing of text that is not ASCII and the parsing of a
  floating-point variable: arguments of the definitions, with what the code relies on as
  hypotheses. Real time other than the deadline of dialling; sleeping; a wait for a process,
  or a read of a named pipe or device, that never returns; changes of the file system by others during a load of a bundle. The wording of codec errors, the difference between
  nil and empty slices, zone offsets of displayed times (all are shown in UTC). Log messages of the commands on their
  error output and their usage text. The variables that tests replace stand for what they are initialised with, and
  \<open>rpcClient\<close> is the number of a connection. The other helpers under \<open>src/src/test\<close>.
\<close>

section \<open>An operator's restart\<close>

text \<open>What a client of the admin service gets: an error of the service arrives as its text.\<close>

definition admin_client :: "(goerr \<Rightarrow> string) \<Rightarrow> call_env \<Rightarrow> host \<Rightarrow> admin_request \<Rightarrow> goerr + admin_reply" where
  "admin_client etext env h q =
     (case fst (admin_serve env q (Some h)) of Inl e \<Rightarrow> Inl (ServerError (etext e)) | Inr r \<Rightarrow> Inr r)"

lemma ctl_restart:
  assumes "splitCommandArgs args = (''restart'', fargs)" and "flag_scan ctl_flags fargs = Inr (fs, [])"
    and "setting fs ''plugin-id'' = Some p" and "ctl_run env args = (0, out)"
  shows "\<exists>r. ct_call env (ARestart p) = Inr r \<and> out = AdminJSON (Some r)"
proof -
  let ?o = "flag_options (ct_TempDir env) fs"
  have p: "op_pluginID ?o = p" using assms(3) by (simp add: flag_options_def String_flag_def)
  have "run_admin env (op_runtimeDir ?o) (ARestart p) = (0, out)"
    using assms(4) p by (auto simp: ctl_run_def assms(1,2) Let_def admin_command_def split: if_splits)
  then show ?thesis
    by (auto simp: run_admin_def exit_of_def split: sum.splits prod.splits if_splits)
      (auto elim!: write_reply.elims simp: WriteHostState_def WriteState_def WriteCapabilities_def WriteAny_def WriteJSON_def split: option.splits)
qed

lemma admin_restart_reply:
  assumes "host_ok root h" and "admin_serve cenv (ARestart p) (Some h) = (Inr r, s')"
  shows "\<exists>m m' h'. hs_managers h p = Some m \<and> s' = Some h' \<and> hs_managers h' p = Some m' \<and> r = StateReply (StateOf m')
    \<and> mg_healthy m' \<and> mg_gen m' = mg_gen m + 1 \<and> (\<forall>q. q \<noteq> p \<longrightarrow> hs_managers h' q = hs_managers h q)"
proof -
  let ?q = "\<lparr>rq_PluginID = p, rq_Call = RoutedCallRestart, rq_Arg = VNil\<rparr>"
  obtain resp h' st where c: "CallRequest cenv ?q h = (Inr resp, h')" and b: "rr_Body resp = StateBody st"
    and r: "s' = Some h'" "r = StateReply st"
    using assms(2) by (auto simp: admin_Restart_def RestartPlugin_def CallHost_def reply_of_def
        split: option.splits prod.splits sum.splits body.splits)
  obtain m where m: "hs_managers h p = Some m"
    using c by (cases "hs_managers h p") (auto simp: CallRequest_def RouteTarget_def ManagerOf_def)
  have "mgr_ok m" using host_ok_at [OF assms(1) m] by (simp add: mgr_at_def)
  from CallRequest_restart [OF c _ _ this] m b r CallRequest_isolated [OF c] show ?thesis
    by (auto simp: set_manager_def)
qed

text \<open>
  C20: an operator's restart works end to end. If \<open>rpcpluginctl\<close> is told to restart plugin \<open>p\<close>, with the command
  anywhere after well-formed flags, against a consistent host behind the admin service, and exits with code zero,
  then what it printed is the state of \<open>p\<close> in the host after the request: the plugin is known, published healthy (as
  after any start, before a heartbeat) and in the generation after the one it was in, and every other plugin of the
  host is as before.
\<close>

theorem operator_restart:
  assumes "host_ok root h" and "ct_call env = admin_client etext cenv h"
    and "flag_groups before" and "flag_scan ctl_flags (before @ after) = Inr (fs, [])"
    and "setting fs ''plugin-id'' = Some p"
    and "ctl_run env (before @ ''restart'' # after) = (0, out)"
  shows "\<exists>m m' h'. hs_managers h p = Some m \<and> snd (admin_serve cenv (ARestart p) (Some h)) = Some h'
    \<and> hs_managers h' p = Some m' \<and> out = AdminJSON (Some (StateReply (StateOf m')))
    \<and> mg_healthy m' \<and> mg_gen m' = mg_gen m + 1 \<and> (\<forall>q. q \<noteq> p \<longrightarrow> hs_managers h' q = hs_managers h q)"
proof -
  have "splitCommandArgs (before @ ''restart'' # after) = (''restart'', before @ after)"
    unfolding splitCommandArgs_def split_args_groups [OF assms(3)] by (subst split_args_command) simp_all
  from ctl_restart [OF this assms(4-6)] obtain r where r: "admin_client etext cenv h (ARestart p) = Inr r"
    and out: "out = AdminJSON (Some r)" using assms(2) by auto
  obtain s' where "admin_serve cenv (ARestart p) (Some h) = (Inr r, s')"
    using r by (cases "admin_serve cenv (ARestart p) (Some h)") (simp add: admin_client_def split: sum.splits)
  from admin_restart_reply [OF assms(1) this] this out show ?thesis by auto
qed

definition restart_ctl :: "call_env \<Rightarrow> ctl_env" where
  "restart_ctl cenv = sample_ctl\<lparr>ct_call := admin_client (\<lambda>_. []) cenv sample_host\<rparr>"

theorem operator_restart_witness:
  "\<exists>st. ctl_run (restart_ctl (quiet_call CallTimeout Reply sample_stop (sample_env 1 8))) [''-plugin-id'', ''echo'', ''restart'']
     = (0, AdminJSON (Some (StateReply st))) \<and> st_Healthy st \<and> st_GenerationID st = 1"
proof -
  let ?env = "restart_ctl (quiet_call CallTimeout Reply sample_stop (sample_env 1 8))"
  let ?c = "quiet_call CallTimeout Reply sample_stop (sample_env 1 8)"
  obtain m0 where m0: "Restart sample_stop (sample_env 1 8) (sample_manager ''echo'') = (None, m0)" using sample_restart by blast
  have a: "admin_client (\<lambda>_. []) ?c sample_host (ARestart ''echo'') = Inr (StateReply (StateOf m0))"
    using m0 sample_valid_ids(1)
    by (simp add: admin_client_def admin_Restart_def RestartPlugin_def CallHost_def CallRequest_known sample_host_def
        quiet_call_def reply_of_def Let_def)
  have s: "splitCommandArgs [''-plugin-id'', ''echo'', ''restart''] = (''restart'', [''-plugin-id'', ''echo''])"
    "flag_scan ctl_flags [''-plugin-id'', ''echo''] = Inr ([(''plugin-id'', ''echo'')], [])"
    "validateOptions ''restart'' ''echo'' 200 ''text'' = None" by code_simp+
  have run: "ctl_run ?env [''-plugin-id'', ''echo'', ''restart''] = (0, AdminJSON (Some (StateReply (StateOf m0))))"
    by (simp add: ctl_run_def s(1) restart_ctl_def s(2,3) Let_def flag_options_def String_flag_def typed_flag_def setting_def
        admin_command_def run_admin_def Dial_def) (simp add: sample_ctl_def a WriteState_def WriteJSON_def exit_of_def)
  have "\<exists>m m' h'. hs_managers sample_host ''echo'' = Some m \<and> snd (admin_serve ?c (ARestart ''echo'') (Some sample_host)) = Some h'
    \<and> hs_managers h' ''echo'' = Some m' \<and> AdminJSON (Some (StateReply (StateOf m0))) = AdminJSON (Some (StateReply (StateOf m')))
    \<and> mg_healthy m' \<and> mg_gen m' = mg_gen m + 1 \<and> (\<forall>q. q \<noteq> ''echo'' \<longrightarrow> hs_managers h' q = hs_managers sample_host q)"
    by (rule operator_restart [OF sample_host_ok(1), of ?env "\<lambda>_. []" ?c "[''-plugin-id'', ''echo'']" "[]" "[(''plugin-id'', ''echo'')]"])
      (use s(2) run in \<open>simp_all add: restart_ctl_def flagsWithValues_def setting_def\<close>)
  then obtain m m' where m: "hs_managers sample_host ''echo'' = Some m" "StateOf m0 = StateOf m'" "mg_healthy m'" "mg_gen m' = mg_gen m + 1"
    by blast
  have "mg_gen m = 0" using m(1) by (auto simp: sample_host_def sample_manager_def fresh_manager_def zero_state_def)
  then have "st_Healthy (StateOf m0) \<and> st_GenerationID (StateOf m0) = 1" using m(2-4) by (simp add: StateOf_def)
  then show ?thesis using run by blast
qed

end
